(* ===== verification/Prelude.thy ===== *)
theory Prelude
  imports Complex_Main "HOL-Library.Word" "HOL-Library.Multiset" "HOL-Library.Char_ord"
    "HOL-Library.List_Lexorder"
begin

text \<open>
  Shared vocabulary of the development: Go's fixed-width integers, the fragment of the
  \<^verbatim>\<open>strings\<close> package the services use, UUIDs, instants, the error values, the outcome
  type, the stable sort of \<^verbatim>\<open>sort.SliceStable\<close> and the lemma collections every
  component theory adds to.
\<close>

section \<open>Lemma collections\<close>

named_theorems act_simps \<open>evaluation of effectful steps\<close>
named_theorems act_inr \<open>inversion of effectful steps that succeeded\<close>
named_theorems keeps_rules \<open>invariant preservation, one rule per step\<close>
named_theorems go_defs \<open>definitions unfolded when a concrete call is evaluated\<close>

section \<open>Fixed-width integers\<close>

text \<open>
  Go's \<^verbatim>\<open>int64\<close>, \<^verbatim>\<open>int32\<close> and (64-bit) \<^verbatim>\<open>int\<close> values are integers in range; an arithmetic
  operation that can leave the range is followed by the wrap-around written out.
\<close>

definition max_int64 :: int where "max_int64 = 2 ^ 63 - 1"

definition max_int32 :: int where "max_int32 = 2 ^ 31 - 1"

definition in_int64 :: "int \<Rightarrow> bool" where
  "in_int64 x \<longleftrightarrow> - (2 ^ 63) \<le> x \<and> x \<le> 2 ^ 63 - 1"

definition in_int32 :: "int \<Rightarrow> bool" where
  "in_int32 x \<longleftrightarrow> - (2 ^ 31) \<le> x \<and> x \<le> 2 ^ 31 - 1"

definition wrap64 :: "int \<Rightarrow> int" where
  "wrap64 x = (x + 2 ^ 63) mod 2 ^ 64 - 2 ^ 63"

definition wrap32 :: "int \<Rightarrow> int" where
  "wrap32 x = (x + 2 ^ 31) mod 2 ^ 32 - 2 ^ 31"

text \<open>\<^verbatim>\<open>big.Int.Quo\<close> and Go's \<^verbatim>\<open>/\<close>: division truncated towards zero.\<close>

definition go_quo :: "int \<Rightarrow> int \<Rightarrow> int" where
  "go_quo a b = sgn a * sgn b * (\<bar>a\<bar> div \<bar>b\<bar>)"

lemmas width_defs = max_int64_def max_int32_def in_int64_def in_int32_def

lemma wrap64_id: "in_int64 x \<Longrightarrow> wrap64 x = x"
  by (simp add: in_int64_def wrap64_def)

lemma wrap64_range: "in_int64 (wrap64 x)"
proof -
  have "0 \<le> (x + 2 ^ 63) mod 2 ^ 64" and "(x + 2 ^ 63) mod 2 ^ 64 < (2 ^ 64 :: int)"
    by simp_all
  then show ?thesis by (simp add: in_int64_def wrap64_def)
qed

lemma wrap32_id: "in_int32 x \<Longrightarrow> wrap32 x = x"
  by (simp add: in_int32_def wrap32_def)

text \<open>The written-out wrap-around is the signed reading of a 64-bit (32-bit) machine word.\<close>

lemma signed_take_bit_wrap: "signed_take_bit n x = (x + 2 ^ n) mod 2 ^ Suc n - 2 ^ n" for x :: int
  by (simp add: signed_take_bit_eq_take_bit_shift take_bit_eq_mod)

lemma wrap64_sint: "wrap64 x = sint (word_of_int x :: 64 word)"
  using signed_take_bit_wrap [of 63 x]
  by (simp add: wrap64_def sint_sbintrunc' del: signed_take_bit_numeral_bit0)

lemma wrap32_sint: "wrap32 x = sint (word_of_int x :: 32 word)"
  using signed_take_bit_wrap [of 31 x]
  by (simp add: wrap32_def sint_sbintrunc' del: signed_take_bit_numeral_bit0)

lemma go_quo_nonneg: "0 \<le> a \<Longrightarrow> 0 < b \<Longrightarrow> go_quo a b = a div b"
  by (cases "a = 0") (auto simp: go_quo_def)

lemma max_int64_value: "max_int64 = 9223372036854775807"
  by (simp add: max_int64_def)

section \<open>Strings\<close>

text \<open>
  A Go string is a byte string. Trimming and case folding are the ASCII part of
  \<^verbatim>\<open>strings.TrimSpace\<close> and \<^verbatim>\<open>strings.ToLower\<close>; multi-byte white space is outside the model.
\<close>

definition is_space :: "char \<Rightarrow> bool" where
  "is_space c \<longleftrightarrow> c \<in> {CHR 0x09, CHR 0x0A, CHR 0x0B, CHR 0x0C, CHR 0x0D, CHR '' ''}"

definition TrimLeft :: "string \<Rightarrow> string" where
  "TrimLeft s = dropWhile is_space s"

definition TrimSpace :: "string \<Rightarrow> string" where
  "TrimSpace s = rev (TrimLeft (rev (TrimLeft s)))"

definition lower_char :: "char \<Rightarrow> char" where
  "lower_char c = (if 65 \<le> (of_char c :: nat) \<and> (of_char c :: nat) \<le> 90
     then char_of ((of_char c :: nat) + 32) else c)"

definition ToLower :: "string \<Rightarrow> string" where
  "ToLower s = map lower_char s"

definition HasPrefix :: "string \<Rightarrow> string \<Rightarrow> bool" where
  "HasPrefix s p \<longleftrightarrow> take (length p) s = p"

definition HasSuffix :: "string \<Rightarrow> string \<Rightarrow> bool" where
  "HasSuffix s p \<longleftrightarrow> HasPrefix (rev s) (rev p)"

definition TrimSuffix :: "string \<Rightarrow> string \<Rightarrow> string" where
  "TrimSuffix s p = (if HasSuffix s p then take (length s - length p) s else s)"

definition TrimPrefix :: "string \<Rightarrow> string \<Rightarrow> string" where
  "TrimPrefix s p = (if HasPrefix s p then drop (length p) s else s)"

lemma dropWhile_hd: "dropWhile P xs = y # ys \<Longrightarrow> \<not> P y"
  by (induction xs) (auto split: if_splits)

lemma dropWhile_idem: "dropWhile P (dropWhile P xs) = dropWhile P xs"
  by (induction xs) auto

lemma dropWhile_rev_fixed:
  assumes "dropWhile P xs = xs"
  shows "dropWhile P (rev (dropWhile P (rev xs))) = rev (dropWhile P (rev xs))"
proof (cases xs)
  case Nil
  then show ?thesis by simp
next
  case (Cons y ys)
  have y: "\<not> P y"
    using assms Cons dropWhile_hd by fastforce
  have "dropWhile P (rev xs) = dropWhile P (rev ys) @ [y]"
    using Cons y by (simp add: dropWhile_append)
  then show ?thesis using y by simp
qed

lemma TrimSpace_idem [simp]: "TrimSpace (TrimSpace s) = TrimSpace s"
  by (simp add: TrimSpace_def TrimLeft_def dropWhile_rev_fixed dropWhile_idem)

lemma TrimSpace_Nil [simp]: "TrimSpace [] = []"
  by (simp add: TrimSpace_def TrimLeft_def)

lemma HasPrefix_append [simp]: "HasPrefix (p @ s) p"
  by (simp add: HasPrefix_def)

lemma HasPrefix_iff: "HasPrefix s p \<longleftrightarrow> (\<exists>r. s = p @ r)"
  by (metis HasPrefix_append HasPrefix_def append_take_drop_id)

lemma TrimPrefix_append [simp]: "TrimPrefix (p @ s) p = s"
  by (simp add: TrimPrefix_def)

section \<open>Identifiers and instants\<close>

text \<open>
  A UUID is its 16 bytes as one 128-bit word, \<^verbatim>\<open>uuid.Nil\<close> is zero. \<^verbatim>\<open>UUID.String\<close> prints the
  bytes most significant first, as 32 hexadecimal digits with dashes.
\<close>

type_synonym uuid = "128 word"

definition uuid_Nil :: uuid where "uuid_Nil = 0"

definition hex_digit :: "nat \<Rightarrow> char" where
  "hex_digit n = (if n < 10 then char_of (48 + n) else char_of (87 + n))"

definition hex_digits :: "nat \<Rightarrow> uuid \<Rightarrow> string" where
  "hex_digits k u = map (\<lambda>i. hex_digit (unat u div 16 ^ i mod 16)) (rev [0..<k])"

definition uuid_String :: "uuid \<Rightarrow> string" where
  "uuid_String u = (let h = hex_digits 32 u in
     take 8 h @ ''-'' @ take 4 (drop 8 h) @ ''-'' @ take 4 (drop 12 h) @ ''-'' @
     take 4 (drop 16 h) @ ''-'' @ drop 20 h)"

text \<open>
  An instant is a number of microseconds since the Unix epoch, the resolution of
  PostgreSQL's \<^verbatim>\<open>timestamptz\<close>. \<^verbatim>\<open>time.Time{}\<close> is the first instant of year 1.
\<close>

type_synonym time = int

definition time_second :: time where "time_second = 1000000"

definition time_minute :: time where "time_minute = 60 * time_second"

definition time_hour :: time where "time_hour = 60 * time_minute"

definition zero_time :: time where "zero_time = - 62135596800 * time_second"

definition time_IsZero :: "time \<Rightarrow> bool" where "time_IsZero t \<longleftrightarrow> t = zero_time"

lemmas time_unit_defs = time_second_def time_minute_def time_hour_def

section \<open>Errors and outcomes\<close>

text \<open>
  The error values of the services. \<open>DbUnavailable\<close> stands for every failure of the
  connection to PostgreSQL; \<open>NoRows\<close> is \<^verbatim>\<open>pgx.ErrNoRows\<close>; the violations are the SQLSTATE
  classes of the schema's constraints; \<open>ErrMsg\<close> is an error made by \<^verbatim>\<open>fmt.Errorf\<close> without a
  sentinel; the others are the packages' sentinels and error types.
\<close>

datatype err =
    NoRows
  | DbUnavailable
  | UniqueViolation
  | CheckViolation
  | ForeignKeyViolation
  | NumericOutOfRange
  | Panic
  | ErrMsg string
  | ErrInvalidCostInput string
  | ErrCostOverflow string
  | ErrModelPricingNotFound
  | ErrRouteNotFound
  | ErrRouteTargetNotFound
  | ValidationError string
  | ErrJSON
  | ErrInvalidMeteringInput string
  | ErrInvalidAPIKey
  | ErrAPIKeyNotFound
  | ErrInvalidToken
  | ErrOrganizationNotFound
  | ErrInvalidSession
  | ErrMembershipNotFound
  | ErrInvalidMagicLink
  | RedisError
  | ErrCacheMiss
  | ErrSemanticCacheMiss
  | ContextCanceled
  | DeadlineExceeded
  | ProviderErr string int bool "err option"
  | DomainError int string string

type_synonym 'a outcome = "err + 'a"

fun is_ok :: "'a outcome \<Rightarrow> bool" where
  "is_ok (Inl _) = False"
| "is_ok (Inr _) = True"

section \<open>Stable sorting\<close>

text \<open>
  \<^verbatim>\<open>sort.SliceStable(xs, lt)\<close>: the result is determined by \<open>lt\<close> when it is a strict weak
  order, so an insertion sort that keeps equivalent elements in order computes it. The same
  function evaluates \<^verbatim>\<open>ORDER BY\<close>.
\<close>

fun insert_stable :: "('a \<Rightarrow> 'a \<Rightarrow> bool) \<Rightarrow> 'a \<Rightarrow> 'a list \<Rightarrow> 'a list" where
  "insert_stable lt x [] = [x]"
| "insert_stable lt x (y # ys) =
     (if lt y x then y # insert_stable lt x ys else x # y # ys)"

definition SliceStable :: "('a \<Rightarrow> 'a \<Rightarrow> bool) \<Rightarrow> 'a list \<Rightarrow> 'a list" where
  "SliceStable lt xs = foldr (insert_stable lt) xs []"

lemma SliceStable_simps [simp]:
  "SliceStable lt [] = []"
  "SliceStable lt (x # xs) = insert_stable lt x (SliceStable lt xs)"
  by (simp_all add: SliceStable_def)

lemma mset_insert_stable [simp]: "mset (insert_stable lt x xs) = add_mset x (mset xs)"
  by (induction xs) auto

lemma mset_SliceStable [simp]: "mset (SliceStable lt xs) = mset xs"
  by (induction xs) auto

lemma set_SliceStable [simp]: "set (SliceStable lt xs) = set xs"
  by (metis mset_SliceStable set_mset_mset)

lemma length_SliceStable [simp]: "length (SliceStable lt xs) = length xs"
  by (metis mset_SliceStable size_mset)

lemma SliceStable_eq_Nil [simp]: "SliceStable lt xs = [] \<longleftrightarrow> xs = []"
  by (metis length_0_conv length_SliceStable)

text \<open>
  The contract of a comparator handed to \<^verbatim>\<open>sort.SliceStable\<close>: a strict weak order. Every
  comparator of the services is shown to satisfy it where it is defined.
\<close>

locale comparator =
  fixes lt :: "'a \<Rightarrow> 'a \<Rightarrow> bool"
  assumes asym: "lt a b \<Longrightarrow> \<not> lt b a"
    and neg_trans: "\<not> lt b a \<Longrightarrow> \<not> lt c b \<Longrightarrow> \<not> lt c a"
begin

lemma set_insert_stable: "set (insert_stable lt x xs) = insert x (set xs)"
  by (metis mset_insert_stable set_mset_add_mset_insert set_mset_mset)

lemma sorted_insert_stable:
  "sorted_wrt (\<lambda>a b. \<not> lt b a) xs \<Longrightarrow> sorted_wrt (\<lambda>a b. \<not> lt b a) (insert_stable lt x xs)"
proof (induction xs)
  case Nil
  then show ?case by simp
next
  case (Cons y ys)
  then show ?case
    by (auto simp: set_insert_stable dest: asym neg_trans)
qed

lemma sorted_SliceStable: "sorted_wrt (\<lambda>a b. \<not> lt b a) (SliceStable lt xs)"
  by (induction xs) (auto intro: sorted_insert_stable)

lemma first_is_minimal: "SliceStable lt xs = y # ys \<Longrightarrow> z \<in> set xs \<Longrightarrow> \<not> lt z y"
proof -
  assume eq: "SliceStable lt xs = y # ys" and z: "z \<in> set xs"
  have "sorted_wrt (\<lambda>a b. \<not> lt b a) (y # ys)"
    using sorted_SliceStable [of xs] eq by simp
  moreover have "z = y \<or> z \<in> set ys"
    using z eq set_SliceStable [of lt xs] by auto
  ultimately show "\<not> lt z y" using asym by auto
qed

lemma filter_insert_stable:
  assumes "\<And>a b. P a \<Longrightarrow> P b \<Longrightarrow> \<not> lt a b" and "P x"
    and "sorted_wrt (\<lambda>a b. \<not> lt b a) xs"
  shows "filter P (insert_stable lt x xs) = x # filter P xs"
  using assms by (induction xs) auto

text \<open>Stability: elements of one equivalence class keep their relative order.\<close>

lemma SliceStable_stable:
  assumes "\<And>a b. P a \<Longrightarrow> P b \<Longrightarrow> \<not> lt a b"
  shows "filter P (SliceStable lt xs) = filter P xs"
proof (induction xs)
  case Nil
  then show ?case by simp
next
  case (Cons x xs)
  have "filter P (insert_stable lt x ys) = filter P ys" if "\<not> P x" for ys
    using that by (induction ys) auto
  then show ?case
    using Cons filter_insert_stable [OF assms _ sorted_SliceStable] by (cases "P x") auto
qed

end

text \<open>A comparator that compares keys of a linear order is a strict weak order.\<close>

lemma comparator_key: "comparator (\<lambda>a b. key a < (key b :: 'k :: linorder))"
  by unfold_locales auto

section \<open>Lists\<close>

lemma sum_list_filter_map_update:
  fixes f :: "'a \<Rightarrow> int"
  assumes "distinct (map k xs)" and "x \<in> set xs" and "\<And>y. k (g y) = k y"
  shows "sum_list (map f (map (\<lambda>y. if k y = k x then g y else y) xs))
    = sum_list (map f xs) - f x + f (g x)"
  using assms
proof (induction xs)
  case Nil
  then show ?case by simp
next
  case (Cons y ys)
  show ?case
  proof (cases "k y = k x")
    case True
    have none: "\<forall>z \<in> set ys. k z \<noteq> k x"
      using Cons.prems True by (metis distinct.simps(2) image_eqI list.set_map list.simps(9))
    then have "y = x" using Cons.prems by auto
    moreover have "map (\<lambda>y. if k y = k x then g y else y) ys = ys"
      using none by (auto intro: map_idI)
    ultimately show ?thesis by simp
  next
    case False
    then have "x \<in> set ys" using Cons.prems by auto
    then show ?thesis using False Cons by auto
  qed
qed

lemma find_Some_in: "List.find P xs = Some x \<Longrightarrow> x \<in> set xs \<and> P x"
  by (auto simp: find_Some_iff)

end
