(* ===== verification/Calendar.thy ===== *)
theory Calendar
  imports Prelude
begin

text \<open>
  The part of Go's \<^verbatim>\<open>time\<close> package behind the billing periods: the proleptic Gregorian
  calendar in UTC, \<^verbatim>\<open>time.Date\<close> and \<^verbatim>\<open>AddDate\<close>. A month is counted by one index
  \<open>12 * year + month - 1\<close>, so that month arithmetic normalises the way \<^verbatim>\<open>time.Date\<close> does.
  The locale \<open>period_windows\<close> states what the budget, quota and reservation services rely on;
  each of their own \<^verbatim>\<open>periodWindow\<close> functions is an instance of it.
\<close>

section \<open>Days, months, years\<close>

definition us_per_day :: int where "us_per_day = 24 * time_hour"

definition leap_year :: "int \<Rightarrow> bool" where
  "leap_year y \<longleftrightarrow> y mod 4 = 0 \<and> (y mod 100 \<noteq> 0 \<or> y mod 400 = 0)"

definition days_in_year :: "int \<Rightarrow> int" where
  "days_in_year y = (if leap_year y then 366 else 365)"

definition days_in_month :: "int \<Rightarrow> int \<Rightarrow> int" where
  "days_in_month y m =
     (if m = 2 then (if leap_year y then 29 else 28)
      else if m \<in> {4, 6, 9, 11} then 30 else 31)"

text \<open>Days from 1970-01-01 to the first day of a year, and of a month by its index.\<close>

definition year_start :: "int \<Rightarrow> int" where
  "year_start y = 365 * (y - 1970) + ((y - 1) div 4 - (y - 1) div 100 + (y - 1) div 400 - 477)"

definition month_offset :: "int \<Rightarrow> int \<Rightarrow> int" where
  "month_offset y k = sum_list (map (days_in_month y) [1..k])"

definition month_start :: "int \<Rightarrow> int" where
  "month_start i = year_start (i div 12) + month_offset (i div 12) (i mod 12)"

text \<open>The calendar date of a day number, by walking years and months of a 400-year cycle.\<close>

lemma days_in_year_pos: "0 < days_in_year y"
  by (simp add: days_in_year_def)

function find_year :: "int \<Rightarrow> int \<Rightarrow> int \<times> int" where
  "find_year y d = (if d < days_in_year y then (y, d) else find_year (y + 1) (d - days_in_year y))"
  by pat_completeness auto
termination
proof (relation "measure (\<lambda>(y, d). nat d)")
  fix y d :: int
  assume "\<not> d < days_in_year y"
  then show "((y + 1, d - days_in_year y), y, d) \<in> measure (\<lambda>(y, d). nat d)"
    using days_in_year_pos [of y] by auto
qed simp

function find_month :: "int \<Rightarrow> int \<Rightarrow> int \<Rightarrow> int \<times> int" where
  "find_month y m d =
     (if m \<ge> 12 \<or> d < days_in_month y m then (m, d)
      else find_month y (m + 1) (d - days_in_month y m))"
  by pat_completeness auto
termination by (relation "measure (\<lambda>(y, m, d). nat (12 - m))") auto

declare find_year.simps [simp del] find_month.simps [simp del]

definition civil :: "int \<Rightarrow> int \<times> int \<times> int" where
  "civil d =
     (let (y, r) = find_year (1970 + 400 * (d div 146097)) (d mod 146097);
          (m, k) = find_month y 1 r
      in (y, m, k + 1))"

definition time_Year :: "time \<Rightarrow> int" where "time_Year t = fst (civil (t div us_per_day))"

definition time_Month :: "time \<Rightarrow> int" where "time_Month t = fst (snd (civil (t div us_per_day)))"

definition time_Day :: "time \<Rightarrow> int" where "time_Day t = snd (snd (civil (t div us_per_day)))"

text \<open>\<^verbatim>\<open>time.Date(y, m, d, 0, 0, 0, 0, time.UTC)\<close> and \<^verbatim>\<open>t.AddDate(years, months, days)\<close>.\<close>

definition time_Date :: "int \<Rightarrow> int \<Rightarrow> int \<Rightarrow> time" where
  "time_Date y m d = (month_start (12 * y + m - 1) + d - 1) * us_per_day"

definition AddDate :: "time \<Rightarrow> int \<Rightarrow> int \<Rightarrow> int \<Rightarrow> time" where
  "AddDate t years months days =
     time_Date (time_Year t + years) (time_Month t + months) (time_Day t + days)
       + t mod us_per_day"

section \<open>Calendar arithmetic\<close>

lemma divmod_unique:
  fixes n :: int
  assumes "x = n * q + r" "0 \<le> r" "r < n"
  shows "x div n = q" "x mod n = r"
  using assms by simp_all

lemma div_pred:
  fixes n :: int
  assumes "0 < n"
  shows "(y - 1) div n = y div n - (if y mod n = 0 then 1 else 0)"
proof (cases "y mod n = 0")
  case True
  then have "y - 1 = n * (y div n - 1) + (n - 1)"
    using mult_div_mod_eq [of n y] by (simp add: algebra_simps)
  then show ?thesis using True assms divmod_unique(1) [of "y - 1" n "y div n - 1" "n - 1"] by simp
next
  case False
  then have "0 \<le> y mod n - 1" "y mod n - 1 < n"
    using assms pos_mod_sign [of n y] pos_mod_bound [of n y] by linarith+
  moreover have "y - 1 = n * (y div n) + (y mod n - 1)"
    using mult_div_mod_eq [of n y] by simp
  ultimately show ?thesis using False by (subst divmod_unique(1)) simp_all
qed

lemma year_start_step: "year_start (y + 1) = year_start y + days_in_year y"
proof -
  have "4 dvd y" if "100 dvd y" using that by (rule dvd_trans [rotated]) simp
  moreover have "100 dvd y" if "400 dvd y" using that by (rule dvd_trans [rotated]) simp
  ultimately show ?thesis
    by (simp add: year_start_def days_in_year_def leap_year_def div_pred mod_eq_0_iff_dvd)
qed

lemma month_index_split:
  fixes y m :: int
  assumes "1 \<le> m" "m \<le> 12"
  shows "(12 * y + m - 1) div 12 = y" "(12 * y + m - 1) mod 12 = m - 1"
  using assms divmod_unique [of "12 * y + m - 1" 12 y "m - 1"] by simp_all

lemma month_offset_step: "0 \<le> k \<Longrightarrow> month_offset y (k + 1) = month_offset y k + days_in_month y (k + 1)"
  by (simp add: month_offset_def upto_rec2)

lemma month_offset_0 [simp]: "month_offset y 0 = 0"
  by (simp add: month_offset_def)

lemma month_offset_12: "month_offset y 12 = days_in_year y"
  by (simp add: month_offset_def upto_rec1 days_in_month_def days_in_year_def)

lemma days_in_month_pos: "0 < days_in_month y m"
  by (simp add: days_in_month_def)

lemma month_start_step:
  "month_start (i + 1) = month_start i + days_in_month (i div 12) (i mod 12 + 1)"
proof (cases "i mod 12 = 11")
  case True
  then have "i + 1 = 12 * (i div 12 + 1) + 0" using mult_div_mod_eq [of 12 i] by simp
  then have "(i + 1) div 12 = i div 12 + 1" and "(i + 1) mod 12 = 0"
    using divmod_unique [of "i + 1" 12 "i div 12 + 1" 0] by linarith+
  moreover have "month_offset (i div 12) 12
      = month_offset (i div 12) 11 + days_in_month (i div 12) 12"
    using month_offset_step [of 11 "i div 12"] by simp
  ultimately show ?thesis
    using True by (simp add: month_start_def year_start_step month_offset_12)
next
  case False
  then have "i mod 12 + 1 < 12" using pos_mod_bound [of 12 i] by simp
  moreover have "i + 1 = 12 * (i div 12) + (i mod 12 + 1)" using mult_div_mod_eq [of 12 i] by simp
  ultimately have "(i + 1) div 12 = i div 12" and "(i + 1) mod 12 = i mod 12 + 1"
    using divmod_unique [of "i + 1" 12 "i div 12" "i mod 12 + 1"] pos_mod_sign [of 12 i]
    by linarith+
  then show ?thesis
    by (simp add: month_start_def month_offset_step)
qed

lemma month_start_less: "month_start i < month_start (i + 1)"
  using days_in_month_pos by (simp add: month_start_step)

lemma month_start_mono: "i \<le> j \<Longrightarrow> month_start i \<le> month_start j"
proof (induction j rule: int_ge_induct)
  case base
  then show ?case by simp
next
  case (step j)
  then show ?case using month_start_less [of j] by simp
qed

text \<open>A day lies in at most one month.\<close>

lemma month_unique:
  assumes "month_start i \<le> d" "d < month_start (i + 1)"
    and "month_start j \<le> d" "d < month_start (j + 1)"
  shows "i = j"
proof (rule ccontr)
  assume "i \<noteq> j"
  then consider "i + 1 \<le> j" | "j + 1 \<le> i" by linarith
  then show False
    using assms month_start_mono by cases fastforce+
qed

lemma find_year_spec:
  "0 \<le> d \<Longrightarrow> find_year y d = (y', r) \<Longrightarrow>
     year_start y + d = year_start y' + r \<and> 0 \<le> r \<and> r < days_in_year y'"
proof (induction y d arbitrary: y' r rule: find_year.induct)
  case (1 y d)
  show ?case
  proof (cases "d < days_in_year y")
    case True
    then show ?thesis using "1.prems" by (simp add: find_year.simps [of y d])
  next
    case False
    then have "find_year (y + 1) (d - days_in_year y) = (y', r)"
      using "1.prems" by (simp add: find_year.simps [of y d])
    with False show ?thesis
      using "1.IH" by (simp add: year_start_step)
  qed
qed

lemma find_month_spec:
  "0 \<le> d \<Longrightarrow> 1 \<le> m \<Longrightarrow> m \<le> 12 \<Longrightarrow> month_offset y (m - 1) + d < days_in_year y \<Longrightarrow>
   find_month y m d = (m', k) \<Longrightarrow>
     month_offset y (m - 1) + d = month_offset y (m' - 1) + k \<and> 0 \<le> k \<and>
     k < days_in_month y m' \<and> 1 \<le> m' \<and> m' \<le> 12"
proof (induction y m d arbitrary: m' k rule: find_month.induct)
  case (1 y m d)
  have step: "month_offset y m = month_offset y (m - 1) + days_in_month y m"
    using month_offset_step [of "m - 1" y] "1.prems" by simp
  show ?case
  proof (cases "m \<ge> 12 \<or> d < days_in_month y m")
    case True
    then have eq: "m' = m" "k = d"
      using "1.prems" by (simp_all add: find_month.simps [of y m d])
    have "d < days_in_month y m"
      using True "1.prems" step month_offset_12 [of y] by (cases "m = 12") auto
    then show ?thesis using eq "1.prems" by simp
  next
    case False
    then have "find_month y (m + 1) (d - days_in_month y m) = (m', k)"
      using "1.prems" by (simp add: find_month.simps [of y m d])
    moreover have "1 \<le> m + 1" "m + 1 \<le> 12" "0 \<le> d - days_in_month y m"
      using False "1.prems" by auto
    ultimately show ?thesis
      using "1.IH" [of m' k] False "1.prems" step by simp
  qed
qed

lemma year_start_cycle: "year_start (1970 + 400 * c) = 146097 * c"
proof -
  have "(1969 + 400 * c) div 4 = 492 + 100 * c"
    and "(1969 + 400 * c) div 100 = 19 + 4 * c"
    and "(1969 + 400 * c) div 400 = 4 + c"
    using divmod_unique(1) [of _ 4 "492 + 100 * c" 1] divmod_unique(1) [of _ 100 "19 + 4 * c" 69]
      divmod_unique(1) [of _ 400 "4 + c" 369] by simp_all
  then show ?thesis by (simp add: year_start_def)
qed

lemma civil_spec:
  assumes "civil d = (y, m, k)"
  shows "d = month_start (12 * y + m - 1) + k - 1 \<and> 1 \<le> m \<and> m \<le> 12 \<and>
    1 \<le> k \<and> k \<le> days_in_month y m"
proof -
  obtain y' r where fy: "find_year (1970 + 400 * (d div 146097)) (d mod 146097) = (y', r)"
    by fastforce
  obtain m' j where fm: "find_month y' 1 r = (m', j)" by fastforce
  have eq: "y = y'" "m = m'" "k = j + 1"
    using assms fy fm by (simp_all add: civil_def)
  have year: "d = year_start y' + r" "0 \<le> r" "r < days_in_year y'"
    using find_year_spec [OF _ fy] year_start_cycle [of "d div 146097"] mult_div_mod_eq [of 146097 d]
    by auto
  have month: "r = month_offset y' (m' - 1) + j" "0 \<le> j" "j < days_in_month y' m'"
    "1 \<le> m'" "m' \<le> 12"
    using find_month_spec [OF _ _ _ _ fm] year by auto
  have "(12 * y' + m' - 1) div 12 = y'" and "(12 * y' + m' - 1) mod 12 = m' - 1"
    using month month_index_split [of m' y'] by simp_all
  then have "month_start (12 * y' + m' - 1) = year_start y' + month_offset y' (m' - 1)"
    by (simp add: month_start_def)
  then show ?thesis using eq year month by simp
qed

text \<open>Printing a day as a date and reading it back is the identity.\<close>

lemma Date_civil: "civil d = (y, m, k) \<Longrightarrow> time_Date y m k = d * us_per_day"
  using civil_spec by (simp add: time_Date_def)

lemma civil_first:
  assumes "civil (month_start i) = (y, m, k)"
  shows "12 * y + m - 1 = i \<and> k = 1"
proof -
  note s = civil_spec [OF assms]
  let ?j = "12 * y + m - 1"
  have "?j div 12 = y" "?j mod 12 = m - 1" using s month_index_split [of m y] by simp_all
  then have "month_start (?j + 1) = month_start ?j + days_in_month y m"
    using month_start_step [of ?j] by simp
  then have "month_start ?j \<le> month_start i" "month_start i < month_start (?j + 1)"
    using s by auto
  then have "?j = i"
    using month_unique month_start_less by blast
  then show ?thesis using s by simp
qed

section \<open>Billing windows\<close>

lemma us_per_day_pos: "0 < us_per_day"
  by (simp add: us_per_day_def time_unit_defs)

lemma Date_today:
  "time_Date (time_Year t) (time_Month t) (time_Day t) = t div us_per_day * us_per_day"
  by (cases "civil (t div us_per_day)")
     (simp add: time_Year_def time_Month_def time_Day_def Date_civil)

definition month_index :: "time \<Rightarrow> int" where
  "month_index t = 12 * time_Year t + time_Month t - 1"

lemma Date_month: "time_Date (time_Year t) (time_Month t) 1 = month_start (month_index t) * us_per_day"
  by (simp add: time_Date_def month_index_def)

lemma month_index_bounds:
  "month_start (month_index t) \<le> t div us_per_day \<and> t div us_per_day < month_start (month_index t + 1)"
proof -
  obtain y m k where c: "civil (t div us_per_day) = (y, m, k)" by (metis prod_cases3)
  note s = civil_spec [OF c]
  have "(12 * y + m - 1) div 12 = y" "(12 * y + m - 1) mod 12 = m - 1"
    using s month_index_split [of m y] by simp_all
  then have "month_start (12 * y + m - 1 + 1) = month_start (12 * y + m - 1) + days_in_month y m"
    using month_start_step [of "12 * y + m - 1"] by simp
  then show ?thesis
    using s c by (simp add: month_index_def time_Year_def time_Month_def)
qed

lemma day_multiple:
  "(a * us_per_day) div us_per_day = a" "(a * us_per_day) mod us_per_day = 0"
  using us_per_day_pos by simp_all

lemma AddDate_day: "AddDate (d * us_per_day) 0 0 1 = (d + 1) * us_per_day"
  using Date_civil
  by (cases "civil d")
     (simp add: AddDate_def day_multiple time_Year_def time_Month_def time_Day_def time_Date_def
       algebra_simps)

lemma AddDate_month:
  "AddDate (month_start i * us_per_day) 0 1 0 = month_start (i + 1) * us_per_day"
proof (cases "civil (month_start i)")
  case (fields y m k)
  then have "12 * y + m - 1 = i" "k = 1" using civil_first by blast+
  then have "12 * y + (m + 1) - 1 = i + 1" by simp
  then show ?thesis
    using fields \<open>k = 1\<close>
    by (simp add: AddDate_def day_multiple time_Year_def time_Month_def time_Day_def time_Date_def)
qed

text \<open>The two windows as every service computes them.\<close>

definition day_window :: "time \<Rightarrow> time \<times> time" where
  "day_window now =
     (let start = time_Date (time_Year now) (time_Month now) (time_Day now)
      in (start, AddDate start 0 0 1))"

definition month_window :: "time \<Rightarrow> time \<times> time" where
  "month_window now =
     (let start = time_Date (time_Year now) (time_Month now) 1
      in (start, AddDate start 0 1 0))"

lemma day_window_eq:
  "day_window t = (t div us_per_day * us_per_day, (t div us_per_day + 1) * us_per_day)"
  by (simp add: day_window_def Let_def Date_today AddDate_day)

lemma month_window_eq:
  "month_window t =
     (month_start (month_index t) * us_per_day, month_start (month_index t + 1) * us_per_day)"
  by (simp add: month_window_def Let_def Date_month AddDate_month)

lemma div_bounds: "a \<le> t div us_per_day \<longleftrightarrow> a * us_per_day \<le> t"
proof
  assume "a \<le> t div us_per_day"
  then have "a * us_per_day \<le> t div us_per_day * us_per_day"
    using us_per_day_pos by (simp add: mult_right_mono)
  also have "\<dots> \<le> t"
    using div_mult_mod_eq [of t us_per_day] pos_mod_sign [OF us_per_day_pos, of t] by linarith
  finally show "a * us_per_day \<le> t" .
next
  assume "a * us_per_day \<le> t"
  then show "a \<le> t div us_per_day"
    using zdiv_mono1 [of "a * us_per_day" t us_per_day] us_per_day_pos by (simp add: day_multiple)
qed

lemma day_window_contains: "day_window t = (s, e) \<Longrightarrow> s \<le> t \<and> t < e"
  using us_per_day_pos div_bounds [of "t div us_per_day" t] div_bounds [of "t div us_per_day + 1" t]
  by (auto simp: day_window_eq)

lemma month_window_contains: "month_window t = (s, e) \<Longrightarrow> s \<le> t \<and> t < e"
  using month_index_bounds [of t] div_bounds
  by (auto simp: month_window_eq not_le [symmetric])

lemma day_window_const: "day_window t = (s, e) \<Longrightarrow> s \<le> u \<Longrightarrow> u < e \<Longrightarrow> day_window u = (s, e)"
proof -
  assume w: "day_window t = (s, e)" and u: "s \<le> u" "u < e"
  have "t div us_per_day \<le> u div us_per_day" "\<not> t div us_per_day + 1 \<le> u div us_per_day"
    using w u div_bounds by (auto simp: day_window_eq)
  then have "u div us_per_day = t div us_per_day" by linarith
  then show "day_window u = (s, e)" using w by (simp add: day_window_eq)
qed

lemma month_window_const:
  "month_window t = (s, e) \<Longrightarrow> s \<le> u \<Longrightarrow> u < e \<Longrightarrow> month_window u = (s, e)"
proof -
  assume w: "month_window t = (s, e)" and u: "s \<le> u" "u < e"
  have "month_start (month_index t) \<le> u div us_per_day"
    "u div us_per_day < month_start (month_index t + 1)"
    using w u div_bounds by (auto simp: month_window_eq not_le [symmetric])
  then have "month_index u = month_index t"
    using month_index_bounds [of u] month_unique by blast
  then show "month_window u = (s, e)" using w by (simp add: month_window_eq)
qed

section \<open>The interface of a period-window function\<close>

locale period_windows =
  fixes window :: "time \<Rightarrow> string \<Rightarrow> (time \<times> time) outcome"
  assumes contains: "window now p = Inr (s, e) \<Longrightarrow> s \<le> now \<and> now < e"
    and const: "window now p = Inr (s, e) \<Longrightarrow> s \<le> u \<Longrightarrow> u < e \<Longrightarrow> window u p = Inr (s, e)"
begin

text \<open>Two windows of one period are the same window or do not meet.\<close>

lemma equal_or_disjoint:
  assumes "window t p = Inr (s, e)" and "window t' p = Inr (s', e')"
  shows "(s, e) = (s', e') \<or> e \<le> s' \<or> e' \<le> s"
proof (rule ccontr)
  assume neg: "\<not> ?thesis"
  then have "s \<le> max s s'" "max s s' < e" "s' \<le> max s s'" "max s s' < e'"
    using contains [OF assms(1)] contains [OF assms(2)] by auto
  then have "window (max s s') p = Inr (s, e)" "window (max s s') p = Inr (s', e')"
    using const assms by blast+
  then show False using neg by simp
qed

text \<open>Within a period, the start of the window identifies it.\<close>

lemma start_determines:
  assumes "window t p = Inr (s, e)" and "window t' p = Inr (s, e')"
  shows "e = e'"
  using equal_or_disjoint [OF assms] contains [OF assms(1)] contains [OF assms(2)] by auto

lemma same_window_iff:
  assumes "window t p = Inr (s, e)" and "window t' p = Inr (s', e')"
  shows "window t p = window t' p \<longleftrightarrow> s \<le> t' \<and> t' < e"
  using assms const contains [OF assms(2)] by (metis Inr_inject prod.inject)

end

end
