(* ===== verification/Store.thy ===== *)
theory Store
  imports Calendar
begin

text \<open>
  The PostgreSQL store as the services see it: the row types of
  \<^verbatim>\<open>internal/store/sqlc/models.go\<close>, the database as one list of rows per table, and the effects
  of a service call. A call is a function of the environment it runs in and of the world; it
  yields an outcome and the next world. The environment answers every interaction by its
  sequence number: what the clock shows, which random UUID or token is drawn, whether the
  query reaches the server. An unreachable server is therefore an ordinary branch.
  The section on invariants holds the rules by which a predicate of the database is carried
  through a call, whatever fails on the way.
\<close>

section \<open>JSON\<close>

text \<open>
  JSON values; a number is an integer literal or a literal with a fraction or exponent. A
  \<^verbatim>\<open>json.RawMessage\<close> is empty, not syntactically valid, or denotes a value.
\<close>

datatype json =
    JNull
  | JBool bool
  | JInt int
  | JFrac rat
  | JStr string
  | JArr "json list"
  | JObj "(string \<times> json) list"

datatype raw_json = RawEmpty | RawInvalid | RawValid json

section \<open>Rows\<close>

record AdminAuditLog =
  al_ID :: uuid
  al_OrgID :: uuid
  al_ActorAdminTokenID :: "uuid option"
  al_Action :: string
  al_ResourceType :: string
  al_ResourceID :: "uuid option"
  al_RequestID :: string
  al_CreatedAt :: time
  al_ActorUserID :: "uuid option"

record AdminToken =
  at_ID :: uuid
  at_OrgID :: uuid
  at_Name :: string
  at_TokenPrefix :: string
  at_TokenHash :: string
  at_Scopes :: "string list"
  at_Status :: string
  at_ExpiresAt :: "time option"
  at_LastUsedAt :: "time option"
  at_CreatedAt :: time
  at_RevokedAt :: "time option"

record ApiKey =
  ak_ID :: uuid
  ak_OrgID :: uuid
  ak_Name :: string
  ak_KeyPrefix :: string
  ak_KeyHash :: string
  ak_Scopes :: "string list"
  ak_Status :: string
  ak_RpmLimit :: int
  ak_ExpiresAt :: "time option"
  ak_LastUsedAt :: "time option"
  ak_CreatedAt :: time
  ak_RevokedAt :: "time option"
  ak_DailyCostLimitMicroUsd :: "int option"
  ak_MonthlyCostLimitMicroUsd :: "int option"
  ak_QuotaAction :: string

record Budget =
  bg_ID :: uuid
  bg_OrgID :: uuid
  bg_Name :: string
  bg_ScopeType :: string
  bg_ScopeID :: "uuid option"
  bg_Period :: string
  bg_LimitMicroUsd :: int
  bg_Action :: string
  bg_Status :: string
  bg_CreatedAt :: time
  bg_UpdatedAt :: time

record BudgetAlert =
  ba_ID :: uuid
  ba_OrgID :: uuid
  ba_BudgetID :: uuid
  ba_WebhookUrl :: string
  ba_WebhookSecret :: "string option"
  ba_Status :: string
  ba_CreatedAt :: time
  ba_UpdatedAt :: time

record BudgetAlertDelivery =
  bd_ID :: uuid
  bd_OrgID :: uuid
  bd_BudgetAlertID :: uuid
  bd_BudgetID :: uuid
  bd_Threshold :: int
  bd_Period :: string
  bd_PeriodWindowStart :: time
  bd_PeriodWindowEnd :: time
  bd_UsedMicroUsd :: int
  bd_LimitMicroUsd :: int
  bd_WebhookUrl :: string
  bd_Status :: string
  bd_HttpStatus :: "int option"
  bd_ErrorMessage :: "string option"
  bd_CreatedAt :: time

record CacheEvent =
  ce_ID :: uuid
  ce_OrgID :: uuid
  ce_RequestLogID :: "uuid option"
  ce_EventType :: string
  ce_RequestedModel :: string
  ce_CacheKeyHash :: string
  ce_MessagesHash :: string
  ce_Reason :: "string option"
  ce_Metadata :: "json option"
  ce_CreatedAt :: time

record ContentPolicy =
  cp_ID :: uuid
  cp_OrgID :: uuid
  cp_Name :: string
  cp_PiiAction :: string
  cp_Status :: string
  cp_CreatedAt :: time
  cp_UpdatedAt :: time

record CostAnomalyPolicy =
  ap_ID :: uuid
  ap_OrgID :: uuid
  ap_Name :: string
  ap_RuleType :: string
  ap_ScopeType :: string
  ap_ScopeID :: "uuid option"
  ap_ModelAlias :: "string option"
  ap_ThresholdMicroUsd :: "int option"
  ap_ThresholdBps :: "int option"
  ap_SpikeMultiplierBps :: int
  ap_CurrentWindowMinutes :: int
  ap_BaselineWindowMinutes :: int
  ap_MinRequests :: int
  ap_Action :: string
  ap_FallbackModel :: "string option"
  ap_Status :: string
  ap_CreatedAt :: time
  ap_UpdatedAt :: time

record CostLimitCounter =
  cc_ID :: uuid
  cc_OrgID :: uuid
  cc_ScopeType :: string
  cc_ScopeID :: uuid
  cc_Period :: string
  cc_WindowStart :: time
  cc_WindowEnd :: time
  cc_SettledMicroUsd :: int
  cc_ReservedMicroUsd :: int
  cc_CreatedAt :: time
  cc_UpdatedAt :: time

record CostRecord =
  cr_ID :: uuid
  cr_UsageRecordID :: uuid
  cr_OrgID :: uuid
  cr_ProviderID :: uuid
  cr_ModelID :: uuid
  cr_Currency :: string
  cr_InputCostMicro :: int
  cr_OutputCostMicro :: int
  cr_TotalCostMicro :: int
  cr_PricingSnapshot :: raw_json
  cr_CreatedAt :: time
  cr_PricingVersionID :: "uuid option"

record CostReservation =
  rs_ID :: uuid
  rs_RequestID :: uuid
  rs_OrgID :: uuid
  rs_ApiKeyID :: uuid
  rs_ScopeType :: string
  rs_ScopeID :: uuid
  rs_Period :: string
  rs_WindowStart :: time
  rs_WindowEnd :: time
  rs_ReservedMicroUsd :: int
  rs_SettledMicroUsd :: int
  rs_Status :: string
  rs_CreatedAt :: time
  rs_UpdatedAt :: time

record MagicLinkToken =
  ml_ID :: uuid
  ml_OrgID :: uuid
  ml_UserID :: uuid
  ml_Email :: string
  ml_TokenPrefix :: string
  ml_TokenHash :: string
  ml_Status :: string
  ml_ExpiresAt :: time
  ml_ConsumedAt :: "time option"
  ml_CreatedAt :: time

record Model =
  md_ID :: uuid
  md_OrgID :: uuid
  md_ProviderID :: uuid
  md_ProviderModelName :: string
  md_DisplayName :: string
  md_InputPriceMicroUsdPer1kTokens :: int
  md_OutputPriceMicroUsdPer1kTokens :: int
  md_ContextWindow :: "int option"
  md_Status :: string
  md_CreatedAt :: time
  md_UpdatedAt :: time

record ModelPricingVersion =
  pv_ID :: uuid
  pv_OrgID :: uuid
  pv_ModelID :: uuid
  pv_Version :: int
  pv_InputPriceMicroUsdPer1kTokens :: int
  pv_OutputPriceMicroUsdPer1kTokens :: int
  pv_Status :: string
  pv_EffectiveFrom :: time
  pv_EffectiveTo :: "time option"
  pv_CreatedAt :: time

record OrgMembership =
  om_ID :: uuid
  om_OrgID :: uuid
  om_UserID :: uuid
  om_Role :: string
  om_Status :: string
  om_CreatedAt :: time
  om_UpdatedAt :: time

record Organization =
  og_ID :: uuid
  og_Name :: string
  og_Slug :: string
  og_Status :: string
  og_CreatedAt :: time
  og_UpdatedAt :: time

record Provider =
  pr_ID :: uuid
  pr_OrgID :: uuid
  pr_Name :: string
  pr_Type :: string
  pr_BaseUrl :: "string option"
  pr_TimeoutMs :: int
  pr_Status :: string
  pr_CreatedAt :: time
  pr_UpdatedAt :: time
  pr_LastHealthStatus :: "string option"
  pr_LastHealthCheckedAt :: "time option"
  pr_LastErrorCode :: "string option"
  pr_LastErrorMessage :: "string option"

record ProviderSecret =
  ps_ID :: uuid
  ps_OrgID :: uuid
  ps_ProviderID :: uuid
  ps_EncryptedApiKey :: string
  ps_Nonce :: string
  ps_KeyVersion :: int
  ps_CreatedAt :: time
  ps_UpdatedAt :: time

record RequestLog =
  rl_ID :: uuid
  rl_OrgID :: uuid
  rl_ApiKeyID :: "uuid option"
  rl_ProviderID :: "uuid option"
  rl_ModelID :: "uuid option"
  rl_RoutePolicyID :: "uuid option"
  rl_Method :: string
  rl_Path :: string
  rl_RequestModel :: "string option"
  rl_Status :: string
  rl_StatusCode :: int
  rl_ErrorCode :: "string option"
  rl_RequestHash :: "string option"
  rl_ResponseHash :: "string option"
  rl_LatencyMs :: int
  rl_ProviderLatencyMs :: "int option"
  rl_Metadata :: "json option"
  rl_StartedAt :: time
  rl_CompletedAt :: time

record RoutePolicy =
  rp_ID :: uuid
  rp_OrgID :: uuid
  rp_Name :: string
  rp_MatchModel :: string
  rp_Strategy :: string
  rp_Status :: string
  rp_CreatedAt :: time
  rp_UpdatedAt :: time
  rp_Config :: raw_json

record RouteTarget =
  rt_ID :: uuid
  rt_OrgID :: uuid
  rt_RoutePolicyID :: uuid
  rt_ProviderID :: uuid
  rt_ModelID :: uuid
  rt_Priority :: int
  rt_Weight :: int
  rt_CreatedAt :: time

record UsageRecord =
  ur_ID :: uuid
  ur_RequestLogID :: uuid
  ur_OrgID :: uuid
  ur_ApiKeyID :: uuid
  ur_ProviderID :: uuid
  ur_ModelID :: uuid
  ur_PromptTokens :: int
  ur_CompletionTokens :: int
  ur_TotalTokens :: int
  ur_ProviderUsageJson :: "json option"
  ur_CreatedAt :: time

record User =
  us_ID :: uuid
  us_Email :: string
  us_DisplayName :: string
  us_Status :: string
  us_CreatedAt :: time
  us_UpdatedAt :: time

record UserSession =
  ss_ID :: uuid
  ss_OrgID :: uuid
  ss_UserID :: uuid
  ss_TokenPrefix :: string
  ss_TokenHash :: string
  ss_Status :: string
  ss_ExpiresAt :: time
  ss_LastUsedAt :: "time option"
  ss_CreatedAt :: time
  ss_RevokedAt :: "time option"

text \<open>The database: one list of rows per table, in insertion order.\<close>

record database =
  admin_audit_logs :: "AdminAuditLog list"
  admin_tokens :: "AdminToken list"
  api_keys :: "ApiKey list"
  budgets :: "Budget list"
  budget_alerts :: "BudgetAlert list"
  budget_alert_deliveries :: "BudgetAlertDelivery list"
  cache_events :: "CacheEvent list"
  content_policies :: "ContentPolicy list"
  cost_anomaly_policies :: "CostAnomalyPolicy list"
  cost_limit_counters :: "CostLimitCounter list"
  cost_records :: "CostRecord list"
  cost_reservations :: "CostReservation list"
  magic_link_tokens :: "MagicLinkToken list"
  models :: "Model list"
  model_pricing_versions :: "ModelPricingVersion list"
  org_memberships :: "OrgMembership list"
  organizations :: "Organization list"
  providers :: "Provider list"
  provider_secrets :: "ProviderSecret list"
  request_logs :: "RequestLog list"
  route_policies :: "RoutePolicy list"
  route_targets :: "RouteTarget list"
  usage_records :: "UsageRecord list"
  users :: "User list"
  user_sessions :: "UserSession list"

section \<open>What leaves the process\<close>

text \<open>\<^verbatim>\<open>events.UsageEvent\<close> and \<^verbatim>\<open>analytics.UsageRecord\<close>.\<close>

record UsageEvent =
  ue_Type :: string
  ue_OrgID :: uuid
  ue_APIKeyID :: "uuid option"
  ue_ProviderID :: "uuid option"
  ue_ModelID :: "uuid option"
  ue_RequestID :: uuid
  ue_PromptTokens :: int
  ue_CompletionTokens :: int
  ue_TotalTokens :: int
  ue_TotalCostMicroUSD :: int
  ue_Status :: string
  ue_CreatedAt :: time

record AnalyticsRecord =
  an_RequestID :: uuid
  an_OrgID :: uuid
  an_APIKeyID :: "uuid option"
  an_ProviderID :: "uuid option"
  an_ModelID :: "uuid option"
  an_Status :: string
  an_PromptTokens :: int
  an_CompletionTokens :: int
  an_TotalTokens :: int
  an_TotalCostMicroUSD :: int
  an_LatencyMS :: int
  an_CreatedAt :: time

text \<open>
  What was handed to the network: a webhook, an e-mail, or the messages of a chat (role and
  content) sent to a model of a provider.
\<close>

datatype sent_message =
    Webhook string "(string \<times> string) list" json
  | Email string string
  | ProviderCall uuid uuid "(string \<times> string) list"

record redis_counter =
  rc_value :: int
  rc_expires :: "time option"

section \<open>Environment, world, calls\<close>

record environment =
  env_time :: "nat \<Rightarrow> time"
  env_uuid :: "nat \<Rightarrow> uuid"
  env_token :: "nat \<Rightarrow> string"
  env_fault :: "nat \<Rightarrow> bool"
  env_redis_fault :: "nat \<Rightarrow> bool"
  env_sink_fault :: "nat \<Rightarrow> bool"
  env_http :: "nat \<Rightarrow> int option"

record world =
  w_db :: database
  w_step :: nat
  w_redis :: "string \<Rightarrow> redis_counter option"
  w_events :: "UsageEvent list"
  w_analytics :: "AnalyticsRecord list"
  w_sent :: "sent_message list"

type_synonym 'a act = "environment \<Rightarrow> world \<Rightarrow> 'a outcome \<times> world"

definition tick :: "world \<Rightarrow> world" where
  "tick w = w\<lparr>w_step := Suc (w_step w)\<rparr>"

definition ret :: "'a \<Rightarrow> 'a act" where
  "ret a = (\<lambda>E w. (Inr a, w))"

definition fail :: "err \<Rightarrow> 'a act" where
  "fail e = (\<lambda>E w. (Inl e, w))"

definition lift :: "'a outcome \<Rightarrow> 'a act" where
  "lift r = (\<lambda>E w. (r, w))"

text \<open>Sequencing with \<^verbatim>\<open>if err != nil { return err }\<close> in between.\<close>

definition andThen :: "'a act \<Rightarrow> ('a \<Rightarrow> 'b act) \<Rightarrow> 'b act" where
  "andThen m f = (\<lambda>E w. case m E w of (Inl e, w') \<Rightarrow> (Inl e, w') | (Inr a, w') \<Rightarrow> f a E w')"

text \<open>A call whose error is inspected or dropped by the caller instead of being returned.\<close>

definition attempt :: "'a act \<Rightarrow> ('a outcome) act" where
  "attempt m = (\<lambda>E w. case m E w of (r, w') \<Rightarrow> (Inr r, w'))"

definition clock_now :: "time act" where
  "clock_now = (\<lambda>E w. (Inr (env_time E (w_step w)), tick w))"

definition new_uuid :: "uuid act" where
  "new_uuid = (\<lambda>E w. (Inr (env_uuid E (w_step w)), tick w))"

definition random_token :: "string act" where
  "random_token = (\<lambda>E w. (Inr (env_token E (w_step w)), tick w))"

text \<open>
  One statement sent to the server: it may not get there; a statement that fails leaves the
  database as it was.
\<close>

definition db_exec :: "(database \<Rightarrow> ('a \<times> database) outcome) \<Rightarrow> 'a act" where
  "db_exec f = (\<lambda>E w.
     if env_fault E (w_step w) then (Inl DbUnavailable, tick w)
     else case f (w_db w) of
       Inl e \<Rightarrow> (Inl e, tick w)
     | Inr (a, db') \<Rightarrow> (Inr a, (tick w)\<lparr>w_db := db'\<rparr>))"

definition db_read :: "(database \<Rightarrow> 'a outcome) \<Rightarrow> 'a act" where
  "db_read f = db_exec (\<lambda>db. case f db of Inl e \<Rightarrow> Inl e | Inr a \<Rightarrow> Inr (a, db))"

text \<open>
  A transaction. The body says whether to commit; an error of the body, of \<^verbatim>\<open>BeginTx\<close> or of
  \<^verbatim>\<open>Commit\<close>, and a body that does not commit, leave the database as it was.
\<close>

definition rollback :: "database \<Rightarrow> world \<Rightarrow> world" where
  "rollback db w = w\<lparr>w_db := db\<rparr>"

definition server_step :: "unit act" where
  "server_step = db_exec (\<lambda>db. Inr ((), db))"

definition with_tx :: "(bool \<times> 'a) act \<Rightarrow> 'a act" where
  "with_tx body = (\<lambda>E w.
     case server_step E w of
       (Inl e, w1) \<Rightarrow> (Inl e, w1)
     | (Inr _, w1) \<Rightarrow>
         (case body E w1 of
            (Inl e, w2) \<Rightarrow> (Inl e, rollback (w_db w) w2)
          | (Inr (False, a), w2) \<Rightarrow> (Inr a, rollback (w_db w) w2)
          | (Inr (True, a), w2) \<Rightarrow>
              (case server_step E w2 of
                 (Inl e, w3) \<Rightarrow> (Inl e, rollback (w_db w) w3)
               | (Inr _, w3) \<Rightarrow> (Inr a, w3))))"

text \<open>\<^verbatim>\<open>Store.ExecTx\<close> and \<^verbatim>\<open>Store.ExecTxRaw\<close>.\<close>

definition ExecTx :: "'a act \<Rightarrow> 'a act" where
  "ExecTx fn = with_tx (andThen fn (\<lambda>a. ret (True, a)))"

definition healthy :: "environment \<Rightarrow> bool" where
  "healthy E \<longleftrightarrow> (\<forall>n. \<not> env_fault E n)"

subsection \<open>Evaluation rules\<close>

lemma tick_simps [simp]:
  "w_db (tick w) = w_db w" "w_step (tick w) = Suc (w_step w)" "w_redis (tick w) = w_redis w"
  "w_events (tick w) = w_events w" "w_analytics (tick w) = w_analytics w"
  "w_sent (tick w) = w_sent w"
  by (simp_all add: tick_def)

lemma ret_apply [act_simps]: "ret a E w = (Inr a, w)"
  by (simp add: ret_def)

lemma fail_apply [act_simps]: "fail e E w = (Inl e, w)"
  by (simp add: fail_def)

lemma lift_apply [act_simps]: "lift r E w = (r, w)"
  by (simp add: lift_def)

lemma andThen_apply [act_simps]:
  "andThen m f E w = (case m E w of (Inl e, w') \<Rightarrow> (Inl e, w') | (Inr a, w') \<Rightarrow> f a E w')"
  by (simp add: andThen_def)

lemma attempt_apply [act_simps]: "attempt m E w = (case m E w of (r, w') \<Rightarrow> (Inr r, w'))"
  by (simp add: attempt_def)

lemma clock_now_apply [act_simps]: "clock_now E w = (Inr (env_time E (w_step w)), tick w)"
  by (simp add: clock_now_def)

lemma new_uuid_apply [act_simps]: "new_uuid E w = (Inr (env_uuid E (w_step w)), tick w)"
  by (simp add: new_uuid_def)

lemma random_token_apply [act_simps]: "random_token E w = (Inr (env_token E (w_step w)), tick w)"
  by (simp add: random_token_def)

lemma healthy_fault [simp]: "healthy E \<Longrightarrow> env_fault E n = False"
  by (simp add: healthy_def)

lemma db_exec_apply [act_simps]:
  "db_exec f E w =
     (if env_fault E (w_step w) then (Inl DbUnavailable, tick w)
      else case f (w_db w) of
        Inl e \<Rightarrow> (Inl e, tick w)
      | Inr (a, db') \<Rightarrow> (Inr a, (tick w)\<lparr>w_db := db'\<rparr>))"
  by (simp add: db_exec_def)

lemma world_db_id [simp]: "w_db w = db \<Longrightarrow> w\<lparr>w_db := db\<rparr> = w"
  by simp

lemma tick_db_id [simp]: "(tick w)\<lparr>w_db := w_db w\<rparr> = tick w"
  by (simp add: tick_def)

lemma db_read_apply [act_simps]:
  "db_read f E w =
     (if env_fault E (w_step w) then (Inl DbUnavailable, tick w) else (f (w_db w), tick w))"
  by (simp add: db_read_def db_exec_def split: sum.splits)

lemma server_step_apply [act_simps]:
  "server_step E w =
     (if env_fault E (w_step w) then (Inl DbUnavailable, tick w) else (Inr (), tick w))"
  by (simp add: server_step_def db_exec_def)

lemma w_db_rollback [simp]: "w_db (rollback db w) = db"
  by (simp add: rollback_def)

text \<open>Case analysis of a sequential composition that succeeded.\<close>

lemma andThen_Inr [act_inr]:
  "andThen m f E w = (Inr b, w'') \<longleftrightarrow> (\<exists>a w'. m E w = (Inr a, w') \<and> f a E w' = (Inr b, w''))"
  by (auto simp: andThen_def split: prod.splits sum.splits)

text \<open>Case analysis of any sequential composition.\<close>

lemma andThen_cases:
  assumes "andThen m f E w = (r, w'')"
  obtains (stop) e where "m E w = (Inl e, w'')" "r = Inl e"
  | (go) a w' where "m E w = (Inr a, w')" "f a E w' = (r, w'')"
  using assms by (auto simp: andThen_def split: prod.splits sum.splits)

lemma ret_Inr [act_inr]: "ret a E w = (Inr b, w') \<longleftrightarrow> b = a \<and> w' = w"
  by (auto simp: act_simps)

lemma fail_Inr [act_inr]: "fail e E w = (Inr b, w') \<longleftrightarrow> False"
  by (simp add: act_simps)

lemma lift_Inr [act_inr]: "lift r E w = (Inr b, w') \<longleftrightarrow> r = Inr b \<and> w' = w"
  by (auto simp: act_simps)

lemma clock_now_Inr [act_inr]: "clock_now E w = (Inr t, w') \<longleftrightarrow> t = env_time E (w_step w) \<and> w' = tick w"
  by (auto simp: act_simps)

lemma new_uuid_Inr [act_inr]: "new_uuid E w = (Inr u, w') \<longleftrightarrow> u = env_uuid E (w_step w) \<and> w' = tick w"
  by (auto simp: act_simps)

lemma random_token_Inr [act_inr]:
  "random_token E w = (Inr u, w') \<longleftrightarrow> u = env_token E (w_step w) \<and> w' = tick w"
  by (auto simp: act_simps)

lemma db_exec_Inr [act_inr]:
  "db_exec f E w = (Inr a, w') \<longleftrightarrow>
     \<not> env_fault E (w_step w) \<and> (\<exists>db'. f (w_db w) = Inr (a, db') \<and> w' = (tick w)\<lparr>w_db := db'\<rparr>)"
  by (auto simp: act_simps split: sum.splits if_splits)

lemma db_read_Inr [act_inr]:
  "db_read f E w = (Inr a, w') \<longleftrightarrow> \<not> env_fault E (w_step w) \<and> f (w_db w) = Inr a \<and> w' = tick w"
  by (auto simp: act_simps split: if_splits)

lemma attempt_Inr [act_inr]: "attempt m E w = (Inr r, w') \<longleftrightarrow> m E w = (r, w')"
  by (auto simp: act_simps split: prod.splits)

lemma andThen_fst: "fst (andThen m f E w) =
  (case fst (m E w) of Inl e \<Rightarrow> Inl e | Inr a \<Rightarrow> fst (f a E (snd (m E w))))"
  by (auto simp: andThen_def split: prod.splits sum.splits)

text \<open>A transaction has committed exactly when it says so: all of its effects or none.\<close>

lemma with_tx_cases:
  obtains (aborted) r w' where "with_tx body E w = (r, w')" "w_db w' = w_db w"
  | (committed) a w2 where "body E (tick w) = (Inr (True, a), w2)"
      "with_tx body E w = (Inr a, tick w2)"
proof -
  consider "env_fault E (w_step w)"
    | e w2 where "\<not> env_fault E (w_step w)" "body E (tick w) = (Inl e, w2)"
    | a w2 where "\<not> env_fault E (w_step w)" "body E (tick w) = (Inr (False, a), w2)"
    | a w2 where "\<not> env_fault E (w_step w)" "body E (tick w) = (Inr (True, a), w2)"
  proof (cases "body E (tick w)")
    case (Pair r w2)
    then show ?thesis
    proof (cases r)
      case (Inl e)
      then show ?thesis using Pair that(1,2) by blast
    next
      case (Inr ca)
      then show ?thesis using Pair that(1,3,4) by (cases ca; cases "fst ca") auto
    qed
  qed
  then show ?thesis
  proof cases
    case 1
    then have "with_tx body E w = (Inl DbUnavailable, tick w)"
      by (simp add: with_tx_def act_simps)
    then show ?thesis by (rule aborted) simp
  next
    case 2
    then have "with_tx body E w = (Inl e, rollback (w_db w) w2)"
      by (simp add: with_tx_def act_simps)
    then show ?thesis by (rule aborted) simp
  next
    case 3
    then have "with_tx body E w = (Inr a, rollback (w_db w) w2)"
      by (simp add: with_tx_def act_simps)
    then show ?thesis by (rule aborted) simp
  next
    case 4
    then have "with_tx body E w = (if env_fault E (w_step w2)
        then (Inl DbUnavailable, rollback (w_db w) (tick w2)) else (Inr a, tick w2))"
      by (simp add: with_tx_def act_simps)
    then show ?thesis
      using 4 aborted committed by (cases "env_fault E (w_step w2)") auto
  qed
qed

lemma ExecTx_cases:
  obtains (aborted) e w' where "ExecTx m E w = (Inl e, w')" "w_db w' = w_db w"
  | (committed) a w2 where "m E (tick w) = (Inr a, w2)" "ExecTx m E w = (Inr a, tick w2)"
proof -
  let ?body = "andThen m (\<lambda>a. ret (True, a))"
  obtain r w2 where m: "m E (tick w) = (r, w2)" by fastforce
  show ?thesis
  proof (cases "env_fault E (w_step w)")
    case True
    then have "ExecTx m E w = (Inl DbUnavailable, tick w)"
      by (simp add: ExecTx_def with_tx_def act_simps)
    then show ?thesis by (rule aborted) simp
  next
    case nofault: False
    show ?thesis
    proof (cases r)
      case (Inl e)
      then have "ExecTx m E w = (Inl e, rollback (w_db w) w2)"
        using m nofault by (simp add: ExecTx_def with_tx_def act_simps)
      then show ?thesis by (rule aborted) simp
    next
      case (Inr a)
      then have "ExecTx m E w = (if env_fault E (w_step w2)
          then (Inl DbUnavailable, rollback (w_db w) (tick w2)) else (Inr a, tick w2))"
        using m nofault by (simp add: ExecTx_def with_tx_def act_simps)
      then show ?thesis
        using m Inr aborted committed by (cases "env_fault E (w_step w2)") auto
    qed
  qed
qed

lemma with_tx_Inr:
  assumes run: "with_tx body E w = (Inr a, w')"
  obtains commit w2 where "body E (tick w) = (Inr (commit, a), w2)"
    "if commit then w' = tick w2 else w_db w' = w_db w"
proof -
  have up: "\<not> env_fault E (w_step w)"
    using run by (auto simp: with_tx_def act_simps)
  obtain r w2 where body: "body E (tick w) = (r, w2)" by fastforce
  show thesis
  proof (cases r)
    case (Inl e)
    then show ?thesis using run up body by (simp add: with_tx_def act_simps)
  next
    case (Inr ca)
    obtain c b where ca: "ca = (c, b)" by fastforce
    show ?thesis
    proof (cases c)
      case True
      then show ?thesis
        using run up body Inr ca by (intro that [of True w2]) (auto simp: with_tx_def act_simps split: if_splits)
    next
      case False
      then show ?thesis
        using run up body Inr ca by (intro that [of False w2]) (auto simp: with_tx_def act_simps)
    qed
  qed
qed

lemma with_tx_healthy:
  "healthy E \<Longrightarrow> body E (tick w) = (Inr (True, a), w2) \<Longrightarrow> with_tx body E w = (Inr a, tick w2)"
  by (simp add: with_tx_def act_simps)

lemma ExecTx_Inr:
  assumes "ExecTx m E w = (Inr a, w')"
  obtains w2 where "m E (tick w) = (Inr a, w2)" "w' = tick w2"
  using assms by (cases rule: ExecTx_cases [of m E w]) auto

lemma ExecTx_healthy: "healthy E \<Longrightarrow> m E (tick w) = (Inr a, w2) \<Longrightarrow> ExecTx m E w = (Inr a, tick w2)"
  by (simp add: ExecTx_def with_tx_def act_simps)

section \<open>Invariants\<close>

text \<open>
  \<open>keeps I m\<close>: whatever happens during the call \<open>m\<close>, it leaves the predicate \<open>I\<close> of the
  database true. The rules follow the structure of a call; the component theories add one rule
  per statement.
\<close>

definition keeps :: "(database \<Rightarrow> bool) \<Rightarrow> 'a act \<Rightarrow> bool" where
  "keeps I m \<longleftrightarrow> (\<forall>E w. I (w_db w) \<longrightarrow> I (w_db (snd (m E w))))"

lemma keepsI: "(\<And>E w. I (w_db w) \<Longrightarrow> I (w_db (snd (m E w)))) \<Longrightarrow> keeps I m"
  by (simp add: keeps_def)

lemma keepsD: "keeps I m \<Longrightarrow> I (w_db w) \<Longrightarrow> m E w = (r, w') \<Longrightarrow> I (w_db w')"
  by (metis keeps_def snd_conv)

lemma keeps_ret [keeps_rules]: "keeps I (ret a)"
  by (simp add: keeps_def ret_def)

lemma keeps_fail [keeps_rules]: "keeps I (fail e)"
  by (simp add: keeps_def fail_def)

lemma keeps_lift [keeps_rules]: "keeps I (lift r)"
  by (simp add: keeps_def lift_def)

lemma keeps_clock [keeps_rules]: "keeps I clock_now"
  by (simp add: keeps_def clock_now_def)

lemma keeps_uuid [keeps_rules]: "keeps I new_uuid"
  by (simp add: keeps_def new_uuid_def)

lemma keeps_token [keeps_rules]: "keeps I random_token"
  by (simp add: keeps_def random_token_def)

lemma keeps_andThen [keeps_rules]:
  assumes "keeps I m" and "\<And>a. keeps I (f a)"
  shows "keeps I (andThen m f)"
proof (rule keepsI)
  fix E and w :: world assume I: "I (w_db w)"
  obtain r w1 where m: "m E w = (r, w1)" by fastforce
  have I1: "I (w_db w1)" using keepsD [OF assms(1) I m] .
  show "I (w_db (snd (andThen m f E w)))"
  proof (cases r)
    case (Inl e)
    then show ?thesis using m I1 by (simp add: andThen_def)
  next
    case (Inr a)
    then show ?thesis
      using m I1 assms(2) [of a] by (simp add: andThen_def keeps_def)
  qed
qed

lemma keeps_attempt [keeps_rules]: "keeps I m \<Longrightarrow> keeps I (attempt m)"
  by (auto simp: keeps_def attempt_def split: prod.splits) (metis snd_conv)

lemma keeps_if [keeps_rules]: "(c \<Longrightarrow> keeps I m) \<Longrightarrow> (\<not> c \<Longrightarrow> keeps I n) \<Longrightarrow> keeps I (if c then m else n)"
  by simp

lemma keeps_let [keeps_rules]: "keeps I (f x) \<Longrightarrow> keeps I (Let x f)"
  by simp

lemma keeps_option [keeps_rules]:
  "keeps I m \<Longrightarrow> (\<And>a. x = Some a \<Longrightarrow> keeps I (f a)) \<Longrightarrow>
     keeps I (case x of None \<Rightarrow> m | Some a \<Rightarrow> f a)"
  by (cases x) auto

lemma keeps_sum [keeps_rules]:
  "(\<And>e. x = Inl e \<Longrightarrow> keeps I (f e)) \<Longrightarrow> (\<And>a. x = Inr a \<Longrightarrow> keeps I (g a)) \<Longrightarrow>
     keeps I (case x of Inl e \<Rightarrow> f e | Inr a \<Rightarrow> g a)"
  by (cases x) auto

lemma keeps_prod [keeps_rules]: "(\<And>a b. x = (a, b) \<Longrightarrow> keeps I (f a b)) \<Longrightarrow> keeps I (case x of (a, b) \<Rightarrow> f a b)"
  by (cases x) auto

lemma keeps_db_exec:
  assumes "\<And>db a db'. I db \<Longrightarrow> f db = Inr (a, db') \<Longrightarrow> I db'"
  shows "keeps I (db_exec f)"
proof (rule keepsI)
  fix E and w :: world assume "I (w_db w)"
  then show "I (w_db (snd (db_exec f E w)))"
    using assms [of "w_db w"] by (auto simp: db_exec_def split: sum.splits)
qed

lemma keeps_db_read [keeps_rules]: "keeps I (db_read f)"
  unfolding db_read_def by (rule keeps_db_exec) (auto split: sum.splits)

lemma keeps_server_step [keeps_rules]: "keeps I server_step"
  unfolding server_step_def by (rule keeps_db_exec) auto

lemma keeps_with_tx [keeps_rules]:
  assumes "keeps I body"
  shows "keeps I (with_tx body)"
proof (rule keepsI)
  fix E and w :: world assume I: "I (w_db w)"
  show "I (w_db (snd (with_tx body E w)))"
  proof (cases rule: with_tx_cases [of body E w])
    case aborted
    then show ?thesis using I by simp
  next
    case (committed a w2)
    then have "I (w_db w2)" using keepsD [OF assms, of "tick w"] I by simp
    then show ?thesis using committed by simp
  qed
qed

lemma keeps_ExecTx [keeps_rules]: "keeps I m \<Longrightarrow> keeps I (ExecTx m)"
  unfolding ExecTx_def by (intro keeps_rules)

text \<open>A call that only reads keeps every predicate, in particular the database itself.\<close>

lemma keeps_same:
  assumes "\<And>I. keeps I m"
  shows "w_db (snd (m E w)) = w_db w"
  using assms [of "\<lambda>db. db = w_db w"] by (simp add: keeps_def)

text \<open>
  \<open>keeps_ok I m\<close> asks for the predicate only when the call succeeds. Inside a transaction that
  is enough: a failed body is rolled back. The statements of a transaction may then break the
  predicate for a moment, as long as the whole body restores it.
\<close>

definition keeps_ok :: "(database \<Rightarrow> bool) \<Rightarrow> 'a act \<Rightarrow> bool" where
  "keeps_ok I m \<longleftrightarrow> (\<forall>E w a w'. I (w_db w) \<longrightarrow> m E w = (Inr a, w') \<longrightarrow> I (w_db w'))"

lemma keeps_okI: "(\<And>E w a w'. I (w_db w) \<Longrightarrow> m E w = (Inr a, w') \<Longrightarrow> I (w_db w')) \<Longrightarrow> keeps_ok I m"
  by (auto simp: keeps_ok_def)

lemma keeps_okD: "keeps_ok I m \<Longrightarrow> I (w_db w) \<Longrightarrow> m E w = (Inr a, w') \<Longrightarrow> I (w_db w')"
  by (auto simp: keeps_ok_def)

lemma keeps_imp_ok: "keeps I m \<Longrightarrow> keeps_ok I m"
  by (auto intro: keeps_okI dest: keepsD)

lemma keeps_ok_andThen: "keeps_ok I m \<Longrightarrow> (\<And>a. keeps_ok I (f a)) \<Longrightarrow> keeps_ok I (andThen m f)"
  by (rule keeps_okI) (auto simp: andThen_Inr dest: keeps_okD)

lemma keeps_with_tx_ok:
  assumes "keeps_ok I body"
  shows "keeps I (with_tx body)"
proof (rule keepsI)
  fix E and w :: world assume I: "I (w_db w)"
  show "I (w_db (snd (with_tx body E w)))"
  proof (cases rule: with_tx_cases [of body E w])
    case aborted
    then show ?thesis using I by simp
  next
    case (committed a w2)
    then have "I (w_db w2)" using keeps_okD [OF assms, of "tick w"] I by simp
    then show ?thesis using committed by simp
  qed
qed

lemma keeps_ExecTx_ok: "keeps_ok I m \<Longrightarrow> keeps I (ExecTx m)"
  unfolding ExecTx_def
  by (intro keeps_with_tx_ok keeps_ok_andThen keeps_imp_ok [OF keeps_ret])

end
