(* ===== verification/Queries.thy ===== *)
theory Queries
  imports Store
begin

text \<open>
  The statements of \<^verbatim>\<open>internal/store/sqlc\<close> the modelled services issue, as functions on the
  database. An insert is refused when it violates a constraint of the schema
  (\<^verbatim>\<open>db/migrations\<close>): primary and unique keys, checks, foreign keys. A row type doubles as the
  parameter type of its insert; columns the statement does not mention are stored as NULL.
\<close>

section \<open>SQL vocabulary\<close>

fun violated :: "(bool \<times> err) list \<Rightarrow> err option" where
  "violated [] = None"
| "violated ((ok, e) # cs) = (if ok then violated cs else Some e)"

text \<open>\<^verbatim>\<open>INSERT ... RETURNING\<close> one row.\<close>

definition sql_insert :: "(database \<Rightarrow> (bool \<times> err) list) \<Rightarrow> ('r \<Rightarrow> database \<Rightarrow> database) \<Rightarrow> 'r \<Rightarrow> 'r act" where
  "sql_insert cons add r = db_exec (\<lambda>db.
     case violated (cons db) of Some e \<Rightarrow> Inl e | None \<Rightarrow> Inr (r, add r db))"

text \<open>\<^verbatim>\<open>QueryRow\<close>: the first row, or \<^verbatim>\<open>pgx.ErrNoRows\<close>.\<close>

fun first_row :: "'r list \<Rightarrow> 'r outcome" where
  "first_row [] = Inl NoRows"
| "first_row (r # _) = Inr r"

text \<open>\<^verbatim>\<open>UPDATE\<close> of the rows that satisfy a predicate, with and without \<^verbatim>\<open>RETURNING\<close>.\<close>

definition update_rows :: "('r \<Rightarrow> bool) \<Rightarrow> ('r \<Rightarrow> 'r) \<Rightarrow> 'r list \<Rightarrow> 'r list" where
  "update_rows P f rows = map (\<lambda>r. if P r then f r else r) rows"

definition update_returning ::
  "(database \<Rightarrow> 'r list) \<Rightarrow> ('r list \<Rightarrow> database \<Rightarrow> database) \<Rightarrow> ('r \<Rightarrow> bool) \<Rightarrow> ('r \<Rightarrow> 'r) \<Rightarrow> 'r act" where
  "update_returning get put P f = db_exec (\<lambda>db.
     case first_row (filter P (get db)) of
       Inl e \<Rightarrow> Inl e
     | Inr r \<Rightarrow> Inr (f r, put (update_rows P f (get db)) db))"

text \<open>A \<^verbatim>\<open>bigint\<close> result: PostgreSQL refuses a value out of range.\<close>

definition pg_bigint :: "int \<Rightarrow> int outcome" where
  "pg_bigint x = (if in_int64 x then Inr x else Inl NumericOutOfRange)"

definition newest_first :: "('r \<Rightarrow> time) \<Rightarrow> ('r \<Rightarrow> uuid) \<Rightarrow> 'r \<Rightarrow> 'r \<Rightarrow> bool" where
  "newest_first tf idf a b \<longleftrightarrow> tf b < tf a \<or> tf a = tf b \<and> idf b < idf a"

definition oldest_first :: "('r \<Rightarrow> time) \<Rightarrow> ('r \<Rightarrow> uuid) \<Rightarrow> 'r \<Rightarrow> 'r \<Rightarrow> bool" where
  "oldest_first tf idf a b \<longleftrightarrow> tf a < tf b \<or> tf a = tf b \<and> idf a < idf b"

interpretation newest: comparator "newest_first tf idf" for tf idf
  by unfold_locales (auto simp: newest_first_def)

interpretation oldest: comparator "oldest_first tf idf" for tf idf
  by unfold_locales (auto simp: oldest_first_def)

lemma first_row_Inr: "first_row rows = Inr r \<Longrightarrow> r \<in> set rows"
  by (cases rows) auto

lemma violated_append: "violated (xs @ ys) = (case violated xs of None \<Rightarrow> violated ys | Some e \<Rightarrow> Some e)"
  by (induction xs rule: violated.induct) auto

lemma violated_None: "violated cs = None \<longleftrightarrow> (\<forall>c \<in> set cs. fst c)"
  by (induction cs rule: violated.induct) auto

lemma sql_insert_apply [act_simps]:
  "sql_insert cons add r E w =
     (if env_fault E (w_step w) then (Inl DbUnavailable, tick w)
      else case violated (cons (w_db w)) of
        Some e \<Rightarrow> (Inl e, tick w)
      | None \<Rightarrow> (Inr r, (tick w)\<lparr>w_db := add r (w_db w)\<rparr>))"
  by (simp add: sql_insert_def act_simps split: option.splits)

lemma sql_insert_Inr [act_inr]:
  "sql_insert cons add r E w = (Inr x, w') \<longleftrightarrow>
     \<not> env_fault E (w_step w) \<and> (\<forall>c \<in> set (cons (w_db w)). fst c) \<and> x = r \<and>
     w' = (tick w)\<lparr>w_db := add r (w_db w)\<rparr>"
  by (auto simp: act_simps violated_None [symmetric] split: option.splits if_splits)

lemma keeps_sql_insert:
  assumes "\<And>db. I db \<Longrightarrow> \<forall>c \<in> set (cons db). fst c \<Longrightarrow> I (add r db)"
  shows "keeps I (sql_insert cons add r)"
  unfolding sql_insert_def
  by (rule keeps_db_exec) (auto simp: violated_None assms split: option.splits)

lemma update_returning_apply [act_simps]:
  "update_returning get put P f E w =
     (if env_fault E (w_step w) then (Inl DbUnavailable, tick w)
      else case first_row (filter P (get (w_db w))) of
        Inl e \<Rightarrow> (Inl e, tick w)
      | Inr r \<Rightarrow> (Inr (f r), (tick w)\<lparr>w_db := put (update_rows P f (get (w_db w))) (w_db w)\<rparr>))"
  by (simp add: update_returning_def act_simps split: sum.splits)

lemma update_returning_Inr [act_inr]:
  "update_returning get put P f E w = (Inr x, w') \<longleftrightarrow>
     \<not> env_fault E (w_step w) \<and> (\<exists>r. first_row (filter P (get (w_db w))) = Inr r \<and> x = f r) \<and>
     w' = (tick w)\<lparr>w_db := put (update_rows P f (get (w_db w))) (w_db w)\<rparr>"
  by (auto simp: act_simps split: sum.splits if_splits)

lemma keeps_update_returning:
  assumes "\<And>db. I db \<Longrightarrow> I (put (update_rows P f (get db)) db)"
  shows "keeps I (update_returning get put P f)"
  unfolding update_returning_def
  by (rule keeps_db_exec) (auto simp: assms split: sum.splits)

lemma update_rows_simps [simp]:
  "update_rows P f [] = []"
  "update_rows P f (r # rs) = (if P r then f r else r) # update_rows P f rs"
  "length (update_rows P f rs) = length rs"
  by (simp_all add: update_rows_def)

lemma map_update_rows: "(\<And>r. g (f r) = g r) \<Longrightarrow> map g (update_rows P f rs) = map g rs"
  by (induction rs) (auto simp: update_rows_def)

section \<open>Organizations, tokens, keys\<close>

definition org_exists :: "database \<Rightarrow> uuid \<Rightarrow> bool" where
  "org_exists db i \<longleftrightarrow> list_ex (\<lambda>o'. og_ID o' = i) (organizations db)"

definition GetOrganization :: "uuid \<Rightarrow> Organization act" where
  "GetOrganization i = db_read (\<lambda>db. first_row (filter (\<lambda>r. og_ID r = i) (organizations db)))"

definition CreateAdminToken_row :: "AdminToken \<Rightarrow> AdminToken act" where
  "CreateAdminToken_row r = sql_insert (\<lambda>db.
     [(\<not> list_ex (\<lambda>x. at_ID x = at_ID r \<or> at_TokenHash x = at_TokenHash r) (admin_tokens db), UniqueViolation),
      (at_Name r \<noteq> [] \<and> at_TokenPrefix r \<noteq> [] \<and> at_TokenHash r \<noteq> [] \<and>
         at_Status r \<in> {''active'', ''revoked''}, CheckViolation),
      (org_exists db (at_OrgID r), ForeignKeyViolation)])
     (\<lambda>r db. db\<lparr>admin_tokens := admin_tokens db @ [r]\<rparr>)
     (r\<lparr>at_LastUsedAt := None, at_RevokedAt := None\<rparr>)"

definition GetAdminTokenByHash :: "string \<Rightarrow> AdminToken act" where
  "GetAdminTokenByHash h = db_read (\<lambda>db. first_row (filter (\<lambda>r. at_TokenHash r = h) (admin_tokens db)))"

definition TouchAdminTokenLastUsed :: "uuid \<Rightarrow> uuid \<Rightarrow> time \<Rightarrow> unit act" where
  "TouchAdminTokenLastUsed org i t = db_exec (\<lambda>db. Inr ((), db\<lparr>admin_tokens :=
     update_rows (\<lambda>r. at_OrgID r = org \<and> at_ID r = i) (at_LastUsedAt_update (\<lambda>_. Some t)) (admin_tokens db)\<rparr>))"

definition CreateAPIKey_row :: "ApiKey \<Rightarrow> ApiKey act" where
  "CreateAPIKey_row r = sql_insert (\<lambda>db.
     [(\<not> list_ex (\<lambda>x. ak_ID x = ak_ID r \<or> ak_KeyHash x = ak_KeyHash r) (api_keys db), UniqueViolation),
      (ak_Name r \<noteq> [] \<and> ak_KeyPrefix r \<noteq> [] \<and> ak_KeyHash r \<noteq> [] \<and>
         ak_Status r \<in> {''active'', ''revoked''} \<and> 0 < ak_RpmLimit r \<and>
         (case ak_DailyCostLimitMicroUsd r of None \<Rightarrow> True | Some l \<Rightarrow> 0 \<le> l) \<and>
         (case ak_MonthlyCostLimitMicroUsd r of None \<Rightarrow> True | Some l \<Rightarrow> 0 \<le> l) \<and>
         ak_QuotaAction r \<in> {''warn'', ''block''}, CheckViolation),
      (org_exists db (ak_OrgID r), ForeignKeyViolation)])
     (\<lambda>r db. db\<lparr>api_keys := api_keys db @ [r]\<rparr>)
     (r\<lparr>ak_LastUsedAt := None, ak_RevokedAt := None\<rparr>)"

definition GetAPIKey :: "uuid \<Rightarrow> uuid \<Rightarrow> ApiKey act" where
  "GetAPIKey org i = db_read (\<lambda>db. first_row (filter (\<lambda>r. ak_OrgID r = org \<and> ak_ID r = i) (api_keys db)))"

definition GetAPIKeyByHash :: "string \<Rightarrow> ApiKey act" where
  "GetAPIKeyByHash h = db_read (\<lambda>db. first_row (filter (\<lambda>r. ak_KeyHash r = h) (api_keys db)))"

definition ListAPIKeys :: "uuid \<Rightarrow> ApiKey list act" where
  "ListAPIKeys org = db_read (\<lambda>db.
     Inr (SliceStable (newest_first ak_CreatedAt ak_ID) (filter (\<lambda>r. ak_OrgID r = org) (api_keys db))))"

definition RevokeAPIKey_row :: "uuid \<Rightarrow> uuid \<Rightarrow> time \<Rightarrow> ApiKey act" where
  "RevokeAPIKey_row org i t = update_returning api_keys (\<lambda>rs db. db\<lparr>api_keys := rs\<rparr>)
     (\<lambda>r. ak_OrgID r = org \<and> ak_ID r = i) (\<lambda>r. r\<lparr>ak_Status := ''revoked'', ak_RevokedAt := Some t\<rparr>)"

definition TouchAPIKeyLastUsed :: "uuid \<Rightarrow> uuid \<Rightarrow> time \<Rightarrow> unit act" where
  "TouchAPIKeyLastUsed org i t = db_exec (\<lambda>db. Inr ((), db\<lparr>api_keys :=
     update_rows (\<lambda>r. ak_OrgID r = org \<and> ak_ID r = i) (ak_LastUsedAt_update (\<lambda>_. Some t)) (api_keys db)\<rparr>))"

section \<open>Costs already incurred\<close>

definition in_window :: "time \<Rightarrow> time \<Rightarrow> time \<Rightarrow> bool" where
  "in_window s e t \<longleftrightarrow> s \<le> t \<and> t < e"

text \<open>\<^verbatim>\<open>SUM(total_cost_micro)\<close> over an organisation's records of a window.\<close>

definition org_cost :: "database \<Rightarrow> uuid \<Rightarrow> time \<Rightarrow> time \<Rightarrow> int" where
  "org_cost db org s e = sum_list (map cr_TotalCostMicro
     (filter (\<lambda>cr. cr_OrgID cr = org \<and> in_window s e (cr_CreatedAt cr)) (cost_records db)))"

text \<open>The same through the join with \<^verbatim>\<open>usage_records\<close>, restricted to one API key.\<close>

definition api_key_cost :: "database \<Rightarrow> uuid \<Rightarrow> uuid \<Rightarrow> time \<Rightarrow> time \<Rightarrow> int" where
  "api_key_cost db org key s e = sum_list
     [cr_TotalCostMicro cr. cr \<leftarrow> cost_records db,
        cr_OrgID cr = org \<and> in_window s e (cr_CreatedAt cr),
        ur \<leftarrow> usage_records db,
        ur_OrgID ur = cr_OrgID cr \<and> ur_ID ur = cr_UsageRecordID cr \<and> ur_ApiKeyID ur = key]"

definition GetBudgetUsedAmount :: "uuid \<Rightarrow> time \<Rightarrow> time \<Rightarrow> int act" where
  "GetBudgetUsedAmount org s e = db_read (\<lambda>db. pg_bigint (org_cost db org s e))"

definition GetAPIKeyCostUsedAmount :: "uuid \<Rightarrow> uuid \<Rightarrow> time \<Rightarrow> time \<Rightarrow> int act" where
  "GetAPIKeyCostUsedAmount org key s e = db_read (\<lambda>db. pg_bigint (api_key_cost db org key s e))"

section \<open>Budgets and alerts\<close>

definition CreateBudget_row :: "Budget \<Rightarrow> Budget act" where
  "CreateBudget_row r = sql_insert (\<lambda>db.
     [(\<not> list_ex (\<lambda>x. bg_ID x = bg_ID r) (budgets db), UniqueViolation),
      (bg_Name r \<noteq> [] \<and> bg_ScopeType r = ''org'' \<and> bg_ScopeID r = None \<and>
         bg_Period r \<in> {''daily'', ''monthly''} \<and> 0 \<le> bg_LimitMicroUsd r \<and>
         bg_Action r \<in> {''warn'', ''block''} \<and> bg_Status r \<in> {''active'', ''disabled''}, CheckViolation),
      (org_exists db (bg_OrgID r), ForeignKeyViolation)])
     (\<lambda>r db. db\<lparr>budgets := budgets db @ [r]\<rparr>) r"

definition GetBudget :: "uuid \<Rightarrow> uuid \<Rightarrow> Budget act" where
  "GetBudget org i = db_read (\<lambda>db. first_row (filter (\<lambda>r. bg_OrgID r = org \<and> bg_ID r = i) (budgets db)))"

definition ListBudgets :: "uuid \<Rightarrow> Budget list act" where
  "ListBudgets org = db_read (\<lambda>db.
     Inr (SliceStable (newest_first bg_CreatedAt bg_ID) (filter (\<lambda>r. bg_OrgID r = org) (budgets db))))"

definition CreateBudgetAlert :: "BudgetAlert \<Rightarrow> BudgetAlert act" where
  "CreateBudgetAlert r = sql_insert (\<lambda>db.
     [(\<not> list_ex (\<lambda>x. ba_ID x = ba_ID r \<or>
         ba_OrgID x = ba_OrgID r \<and> ba_BudgetID x = ba_BudgetID r) (budget_alerts db), UniqueViolation),
      (ba_WebhookUrl r \<noteq> [] \<and> ba_Status r \<in> {''active'', ''disabled''}, CheckViolation),
      (org_exists db (ba_OrgID r) \<and>
         list_ex (\<lambda>x. bg_OrgID x = ba_OrgID r \<and> bg_ID x = ba_BudgetID r) (budgets db), ForeignKeyViolation)])
     (\<lambda>r db. db\<lparr>budget_alerts := budget_alerts db @ [r]\<rparr>) r"

definition ListBudgetAlerts :: "uuid \<Rightarrow> BudgetAlert list act" where
  "ListBudgetAlerts org = db_read (\<lambda>db.
     Inr (SliceStable (newest_first ba_CreatedAt ba_ID) (filter (\<lambda>r. ba_OrgID r = org) (budget_alerts db))))"

definition ListActiveBudgetAlerts :: "uuid \<Rightarrow> BudgetAlert list act" where
  "ListActiveBudgetAlerts org = db_read (\<lambda>db.
     Inr (SliceStable (oldest_first ba_CreatedAt ba_ID)
       (filter (\<lambda>r. ba_OrgID r = org \<and> ba_Status r = ''active'') (budget_alerts db))))"

definition ListBudgetAlertDeliveries :: "uuid \<Rightarrow> int \<Rightarrow> BudgetAlertDelivery list act" where
  "ListBudgetAlertDeliveries org n = db_read (\<lambda>db.
     Inr (take (nat n) (SliceStable (newest_first bd_CreatedAt bd_ID)
       (filter (\<lambda>r. bd_OrgID r = org) (budget_alert_deliveries db)))))"

definition ListBudgetAlertDeliveriesByBudgetWindow :: "uuid \<Rightarrow> uuid \<Rightarrow> time \<Rightarrow> BudgetAlertDelivery list act" where
  "ListBudgetAlertDeliveriesByBudgetWindow org b s = db_read (\<lambda>db.
     Inr (SliceStable (\<lambda>x y. bd_Threshold x < bd_Threshold y)
       (filter (\<lambda>r. bd_OrgID r = org \<and> bd_BudgetID r = b \<and> bd_PeriodWindowStart r = s)
         (budget_alert_deliveries db))))"

definition InsertBudgetAlertDelivery :: "BudgetAlertDelivery \<Rightarrow> BudgetAlertDelivery act" where
  "InsertBudgetAlertDelivery r = sql_insert (\<lambda>db.
     [(\<not> list_ex (\<lambda>x. bd_ID x = bd_ID r \<or>
         bd_OrgID x = bd_OrgID r \<and> bd_BudgetID x = bd_BudgetID r \<and>
         bd_PeriodWindowStart x = bd_PeriodWindowStart r \<and> bd_Threshold x = bd_Threshold r)
         (budget_alert_deliveries db), UniqueViolation),
      (bd_Threshold r \<in> {80, 90, 100} \<and> bd_Period r \<in> {''daily'', ''monthly''} \<and>
         0 \<le> bd_UsedMicroUsd r \<and> 0 \<le> bd_LimitMicroUsd r \<and> bd_WebhookUrl r \<noteq> [] \<and>
         bd_Status r \<in> {''success'', ''failed''} \<and>
         (case bd_HttpStatus r of None \<Rightarrow> True | Some h \<Rightarrow> 100 \<le> h \<and> h \<le> 599) \<and>
         bd_PeriodWindowStart r < bd_PeriodWindowEnd r, CheckViolation),
      (org_exists db (bd_OrgID r) \<and>
         list_ex (\<lambda>x. ba_OrgID x = bd_OrgID r \<and> ba_ID x = bd_BudgetAlertID r) (budget_alerts db) \<and>
         list_ex (\<lambda>x. bg_OrgID x = bd_OrgID r \<and> bg_ID x = bd_BudgetID r) (budgets db), ForeignKeyViolation)])
     (\<lambda>r db. db\<lparr>budget_alert_deliveries := budget_alert_deliveries db @ [r]\<rparr>) r"

section \<open>Providers, models, prices\<close>

definition GetProvider :: "uuid \<Rightarrow> uuid \<Rightarrow> Provider act" where
  "GetProvider org i = db_read (\<lambda>db. first_row (filter (\<lambda>r. pr_OrgID r = org \<and> pr_ID r = i) (providers db)))"

definition GetModel :: "uuid \<Rightarrow> uuid \<Rightarrow> Model act" where
  "GetModel org i = db_read (\<lambda>db. first_row (filter (\<lambda>r. md_OrgID r = org \<and> md_ID r = i) (models db)))"

definition UpdateModelPricing_row :: "uuid \<Rightarrow> uuid \<Rightarrow> int \<Rightarrow> int \<Rightarrow> time \<Rightarrow> Model act" where
  "UpdateModelPricing_row org i pin pout t =
     (if pin < 0 \<or> pout < 0
      then db_exec (\<lambda>db. if list_ex (\<lambda>r. md_OrgID r = org \<and> md_ID r = i) (models db)
             then Inl CheckViolation else Inl NoRows)
      else update_returning models (\<lambda>rs db. db\<lparr>models := rs\<rparr>)
        (\<lambda>r. md_OrgID r = org \<and> md_ID r = i)
        (\<lambda>r. r\<lparr>md_InputPriceMicroUsdPer1kTokens := pin, md_OutputPriceMicroUsdPer1kTokens := pout,
                md_UpdatedAt := t\<rparr>))"

definition CreateModelPricingVersion :: "ModelPricingVersion \<Rightarrow> ModelPricingVersion act" where
  "CreateModelPricingVersion r = sql_insert (\<lambda>db.
     [(\<not> list_ex (\<lambda>x. pv_ID x = pv_ID r) (model_pricing_versions db), UniqueViolation),
      (\<not> list_ex (\<lambda>x. pv_OrgID x = pv_OrgID r \<and> pv_ModelID x = pv_ModelID r \<and>
          (pv_Version x = pv_Version r \<or> pv_Status x = ''active'' \<and> pv_Status r = ''active''))
          (model_pricing_versions db), UniqueViolation),
      (0 < pv_Version r \<and> 0 \<le> pv_InputPriceMicroUsdPer1kTokens r \<and>
         0 \<le> pv_OutputPriceMicroUsdPer1kTokens r \<and> pv_Status r \<in> {''active'', ''superseded''}, CheckViolation),
      (org_exists db (pv_OrgID r) \<and>
         list_ex (\<lambda>m. md_OrgID m = pv_OrgID r \<and> md_ID m = pv_ModelID r) (models db), ForeignKeyViolation)])
     (\<lambda>r db. db\<lparr>model_pricing_versions := model_pricing_versions db @ [r]\<rparr>)
     (r\<lparr>pv_EffectiveTo := None\<rparr>)"

definition active_version :: "uuid \<Rightarrow> uuid \<Rightarrow> ModelPricingVersion \<Rightarrow> bool" where
  "active_version org m r \<longleftrightarrow> pv_OrgID r = org \<and> pv_ModelID r = m \<and> pv_Status r = ''active''"

definition GetActiveModelPricingVersion_row :: "uuid \<Rightarrow> uuid \<Rightarrow> ModelPricingVersion act" where
  "GetActiveModelPricingVersion_row org m = db_read (\<lambda>db.
     first_row (filter (active_version org m) (model_pricing_versions db)))"

definition ListModelPricingVersions_rows :: "uuid \<Rightarrow> uuid \<Rightarrow> ModelPricingVersion list act" where
  "ListModelPricingVersions_rows org m = db_read (\<lambda>db.
     Inr (SliceStable (\<lambda>a b. pv_Version b < pv_Version a)
       (filter (\<lambda>r. pv_OrgID r = org \<and> pv_ModelID r = m) (model_pricing_versions db))))"

definition GetNextModelPricingVersionNumber :: "uuid \<Rightarrow> uuid \<Rightarrow> int act" where
  "GetNextModelPricingVersionNumber org m = db_read (\<lambda>db.
     let vs = map pv_Version (filter (\<lambda>r. pv_OrgID r = org \<and> pv_ModelID r = m) (model_pricing_versions db));
         next = (if vs = [] then 0 else fold max (tl vs) (hd vs)) + 1
     in if in_int32 next then Inr next else Inl NumericOutOfRange)"

definition SupersedeActiveModelPricingVersion :: "uuid \<Rightarrow> uuid \<Rightarrow> time \<Rightarrow> ModelPricingVersion act" where
  "SupersedeActiveModelPricingVersion org m t = db_exec (\<lambda>db.
     case filter (active_version org m) (model_pricing_versions db) of
       [] \<Rightarrow> Inl NoRows
     | r # _ \<Rightarrow>
        if t < pv_EffectiveFrom r then Inl CheckViolation
        else Inr (r\<lparr>pv_Status := ''superseded'', pv_EffectiveTo := Some t\<rparr>,
          db\<lparr>model_pricing_versions := update_rows (active_version org m)
            (\<lambda>r. r\<lparr>pv_Status := ''superseded'', pv_EffectiveTo := Some t\<rparr>) (model_pricing_versions db)\<rparr>))"

section \<open>Route policies\<close>

definition CreateRoutePolicy_row :: "RoutePolicy \<Rightarrow> RoutePolicy act" where
  "CreateRoutePolicy_row r = sql_insert (\<lambda>db.
     [(\<not> list_ex (\<lambda>x. rp_ID x = rp_ID r \<or>
         rp_OrgID x = rp_OrgID r \<and> rp_MatchModel x = rp_MatchModel r) (route_policies db), UniqueViolation),
      (rp_Name r \<noteq> [] \<and> rp_MatchModel r \<noteq> [] \<and>
         rp_Strategy r \<in> {''single'', ''fallback'', ''lowest_cost'', ''lowest_latency''} \<and>
         rp_Status r \<in> {''active'', ''disabled''}, CheckViolation),
      (org_exists db (rp_OrgID r), ForeignKeyViolation)])
     (\<lambda>r db. db\<lparr>route_policies := route_policies db @ [r]\<rparr>) r"

definition GetRoutePolicyByMatchModel :: "uuid \<Rightarrow> string \<Rightarrow> RoutePolicy act" where
  "GetRoutePolicyByMatchModel org m = db_read (\<lambda>db.
     first_row (filter (\<lambda>r. rp_OrgID r = org \<and> rp_MatchModel r = m \<and> rp_Status r = ''active'')
       (route_policies db)))"

definition ListRoutePolicies :: "uuid \<Rightarrow> RoutePolicy list act" where
  "ListRoutePolicies org = db_read (\<lambda>db.
     Inr (SliceStable (newest_first rp_CreatedAt rp_ID) (filter (\<lambda>r. rp_OrgID r = org) (route_policies db))))"

definition CreateRouteTarget :: "RouteTarget \<Rightarrow> RouteTarget act" where
  "CreateRouteTarget r = sql_insert (\<lambda>db.
     [(\<not> list_ex (\<lambda>x. rt_ID x = rt_ID r \<or> rt_OrgID x = rt_OrgID r \<and>
         rt_RoutePolicyID x = rt_RoutePolicyID r \<and> rt_Priority x = rt_Priority r)
         (route_targets db), UniqueViolation),
      (0 < rt_Priority r \<and> 0 < rt_Weight r, CheckViolation),
      (org_exists db (rt_OrgID r) \<and>
         list_ex (\<lambda>x. rp_OrgID x = rt_OrgID r \<and> rp_ID x = rt_RoutePolicyID r) (route_policies db) \<and>
         list_ex (\<lambda>x. pr_OrgID x = rt_OrgID r \<and> pr_ID x = rt_ProviderID r) (providers db) \<and>
         list_ex (\<lambda>x. md_OrgID x = rt_OrgID r \<and> md_ProviderID x = rt_ProviderID r \<and>
            md_ID x = rt_ModelID r) (models db), ForeignKeyViolation)])
     (\<lambda>r db. db\<lparr>route_targets := route_targets db @ [r]\<rparr>) r"

definition target_order :: "RouteTarget \<Rightarrow> RouteTarget \<Rightarrow> bool" where
  "target_order a b \<longleftrightarrow> rt_Priority a < rt_Priority b \<or> rt_Priority a = rt_Priority b \<and> rt_ID a < rt_ID b"

interpretation target_sql: comparator target_order
  by unfold_locales (auto simp: target_order_def)

definition ListRouteTargets :: "uuid \<Rightarrow> uuid \<Rightarrow> RouteTarget list act" where
  "ListRouteTargets org p = db_read (\<lambda>db.
     Inr (SliceStable target_order
       (filter (\<lambda>r. rt_OrgID r = org \<and> rt_RoutePolicyID r = p) (route_targets db))))"

section \<open>Request logs, usage, costs\<close>

definition fk_api_key :: "database \<Rightarrow> uuid \<Rightarrow> uuid option \<Rightarrow> bool" where
  "fk_api_key db org k \<longleftrightarrow> (case k of None \<Rightarrow> True
     | Some i \<Rightarrow> list_ex (\<lambda>x. ak_OrgID x = org \<and> ak_ID x = i) (api_keys db))"

definition fk_provider :: "database \<Rightarrow> uuid \<Rightarrow> uuid option \<Rightarrow> bool" where
  "fk_provider db org k \<longleftrightarrow> (case k of None \<Rightarrow> True
     | Some i \<Rightarrow> list_ex (\<lambda>x. pr_OrgID x = org \<and> pr_ID x = i) (providers db))"

definition fk_model :: "database \<Rightarrow> uuid \<Rightarrow> uuid option \<Rightarrow> uuid option \<Rightarrow> bool" where
  "fk_model db org p m \<longleftrightarrow> (case (p, m) of
       (Some pv, Some mv) \<Rightarrow>
          list_ex (\<lambda>x. md_OrgID x = org \<and> md_ProviderID x = pv \<and> md_ID x = mv) (models db)
     | _ \<Rightarrow> True)"

definition fk_route_policy :: "database \<Rightarrow> uuid \<Rightarrow> uuid option \<Rightarrow> bool" where
  "fk_route_policy db org k \<longleftrightarrow> (case k of None \<Rightarrow> True
     | Some i \<Rightarrow> list_ex (\<lambda>x. rp_OrgID x = org \<and> rp_ID x = i) (route_policies db))"

definition request_log_constraints :: "RequestLog \<Rightarrow> database \<Rightarrow> (bool \<times> err) list" where
  "request_log_constraints r db =
     [(\<not> list_ex (\<lambda>x. rl_ID x = rl_ID r) (request_logs db), UniqueViolation),
      (rl_Method r \<noteq> [] \<and> rl_Path r \<noteq> [] \<and>
         rl_Status r \<in> {''success'', ''error'', ''rate_limited'', ''budget_warned'', ''budget_blocked''} \<and>
         100 \<le> rl_StatusCode r \<and> rl_StatusCode r \<le> 599 \<and> 0 \<le> rl_LatencyMs r \<and>
         (case rl_ProviderLatencyMs r of None \<Rightarrow> True | Some l \<Rightarrow> 0 \<le> l) \<and>
         (rl_ProviderID r = None \<longleftrightarrow> rl_ModelID r = None) \<and>
         rl_StartedAt r \<le> rl_CompletedAt r, CheckViolation),
      (org_exists db (rl_OrgID r) \<and> fk_api_key db (rl_OrgID r) (rl_ApiKeyID r) \<and>
         fk_provider db (rl_OrgID r) (rl_ProviderID r) \<and>
         fk_model db (rl_OrgID r) (rl_ProviderID r) (rl_ModelID r) \<and>
         fk_route_policy db (rl_OrgID r) (rl_RoutePolicyID r), ForeignKeyViolation)]"

definition InsertRequestLog :: "RequestLog \<Rightarrow> RequestLog act" where
  "InsertRequestLog r = sql_insert (request_log_constraints r)
     (\<lambda>r db. db\<lparr>request_logs := request_logs db @ [r]\<rparr>) r"

definition usage_record_constraints :: "UsageRecord \<Rightarrow> database \<Rightarrow> (bool \<times> err) list" where
  "usage_record_constraints r db =
     [(\<not> list_ex (\<lambda>x. ur_ID x = ur_ID r \<or> ur_RequestLogID x = ur_RequestLogID r) (usage_records db), UniqueViolation),
      (0 \<le> ur_PromptTokens r \<and> 0 \<le> ur_CompletionTokens r \<and> 0 \<le> ur_TotalTokens r \<and>
         ur_TotalTokens r = ur_PromptTokens r + ur_CompletionTokens r, CheckViolation),
      (org_exists db (ur_OrgID r) \<and> fk_api_key db (ur_OrgID r) (Some (ur_ApiKeyID r)) \<and>
         fk_provider db (ur_OrgID r) (Some (ur_ProviderID r)) \<and>
         fk_model db (ur_OrgID r) (Some (ur_ProviderID r)) (Some (ur_ModelID r)) \<and>
         list_ex (\<lambda>l. rl_OrgID l = ur_OrgID r \<and> rl_ApiKeyID l = Some (ur_ApiKeyID r) \<and>
            rl_ProviderID l = Some (ur_ProviderID r) \<and> rl_ModelID l = Some (ur_ModelID r) \<and>
            rl_ID l = ur_RequestLogID r) (request_logs db), ForeignKeyViolation)]"

definition InsertUsageRecord :: "UsageRecord \<Rightarrow> UsageRecord act" where
  "InsertUsageRecord r = sql_insert (usage_record_constraints r)
     (\<lambda>r db. db\<lparr>usage_records := usage_records db @ [r]\<rparr>) r"

definition cost_record_constraints :: "CostRecord \<Rightarrow> database \<Rightarrow> (bool \<times> err) list" where
  "cost_record_constraints r db =
     [(\<not> list_ex (\<lambda>x. cr_ID x = cr_ID r \<or> cr_UsageRecordID x = cr_UsageRecordID r) (cost_records db), UniqueViolation),
      (cr_Currency r = ''USD'' \<and> 0 \<le> cr_InputCostMicro r \<and> 0 \<le> cr_OutputCostMicro r \<and>
         0 \<le> cr_TotalCostMicro r \<and>
         cr_TotalCostMicro r = cr_InputCostMicro r + cr_OutputCostMicro r, CheckViolation),
      (org_exists db (cr_OrgID r) \<and>
         list_ex (\<lambda>u. ur_OrgID u = cr_OrgID r \<and> ur_ProviderID u = cr_ProviderID r \<and>
            ur_ModelID u = cr_ModelID r \<and> ur_ID u = cr_UsageRecordID r) (usage_records db) \<and>
         (case cr_PricingVersionID r of None \<Rightarrow> True
          | Some v \<Rightarrow> list_ex (\<lambda>x. pv_OrgID x = cr_OrgID r \<and> pv_ID x = v) (model_pricing_versions db)),
         ForeignKeyViolation)]"

definition InsertCostRecord :: "CostRecord \<Rightarrow> CostRecord act" where
  "InsertCostRecord r = sql_insert (cost_record_constraints r)
     (\<lambda>r db. db\<lparr>cost_records := cost_records db @ [r]\<rparr>) r"

section \<open>Latency statistics\<close>

text \<open>
  \<^verbatim>\<open>percentile_cont(f)\<close>: linear interpolation at row number \<open>f * (n - 1)\<close> of the sorted values.
\<close>

definition percentile_cont :: "rat \<Rightarrow> int list \<Rightarrow> rat" where
  "percentile_cont f xs =
     (let ys = sort xs; rn = f * rat_of_nat (length ys - 1); lo = nat (floor rn); hi = nat (ceiling rn)
      in if ys = [] then 0
         else rat_of_int (ys ! lo) + (rn - rat_of_nat lo) * rat_of_int (ys ! hi - ys ! lo))"

record LatencyStatsRow =
  ls_ProviderID :: "uuid option"
  ls_ModelID :: "uuid option"
  ls_RequestCount :: int
  ls_P50LatencyMs :: rat
  ls_P95LatencyMs :: rat

definition ProviderModelLatencyStats :: "uuid \<Rightarrow> time \<Rightarrow> time \<Rightarrow> LatencyStatsRow list act" where
  "ProviderModelLatencyStats org s e = db_read (\<lambda>db.
     let rows = filter (\<lambda>r. rl_OrgID r = org \<and> in_window s e (rl_CompletedAt r) \<and>
           rl_ProviderID r \<noteq> None \<and> rl_ModelID r \<noteq> None \<and>
           rl_Status r \<in> {''success'', ''budget_warned''}) (request_logs db);
         keys = remdups (map (\<lambda>r. (rl_ProviderID r, rl_ModelID r)) rows)
     in Inr (map (\<lambda>(p, m).
          let ls = map rl_LatencyMs (filter (\<lambda>r. rl_ProviderID r = p \<and> rl_ModelID r = m) rows)
          in \<lparr>ls_ProviderID = p, ls_ModelID = m, ls_RequestCount = int (length ls),
              ls_P50LatencyMs = percentile_cont (1/2) ls, ls_P95LatencyMs = percentile_cont (95/100) ls\<rparr>) keys))"

section \<open>Content and anomaly policies\<close>

definition CreateContentPolicy_row :: "ContentPolicy \<Rightarrow> ContentPolicy act" where
  "CreateContentPolicy_row r = sql_insert (\<lambda>db.
     [(\<not> list_ex (\<lambda>x. cp_ID x = cp_ID r \<or> cp_OrgID x = cp_OrgID r \<and> cp_Name x = cp_Name r)
         (content_policies db), UniqueViolation),
      (cp_PiiAction r \<in> {''allow'', ''redact'', ''block''} \<and>
         cp_Status r \<in> {''active'', ''disabled''}, CheckViolation),
      (org_exists db (cp_OrgID r), ForeignKeyViolation)])
     (\<lambda>r db. db\<lparr>content_policies := content_policies db @ [r]\<rparr>) r"

definition ListContentPolicies_rows :: "uuid \<Rightarrow> ContentPolicy list act" where
  "ListContentPolicies_rows org = db_read (\<lambda>db.
     Inr (SliceStable (newest_first cp_CreatedAt cp_ID) (filter (\<lambda>r. cp_OrgID r = org) (content_policies db))))"

definition GetActiveContentPolicy :: "uuid \<Rightarrow> ContentPolicy act" where
  "GetActiveContentPolicy org = db_read (\<lambda>db.
     first_row (SliceStable (newest_first cp_CreatedAt cp_ID)
       (filter (\<lambda>r. cp_OrgID r = org \<and> cp_Status r = ''active'') (content_policies db))))"

definition CreateCostAnomalyPolicy :: "CostAnomalyPolicy \<Rightarrow> CostAnomalyPolicy act" where
  "CreateCostAnomalyPolicy r = sql_insert (\<lambda>db.
     [(\<not> list_ex (\<lambda>x. ap_ID x = ap_ID r) (cost_anomaly_policies db), UniqueViolation),
      (ap_Name r \<noteq> [] \<and>
         ap_RuleType r \<in> {''daily_cost'', ''api_key_cost_spike'', ''model_cost_spike'', ''error_rate_spike''} \<and>
         (case ap_ThresholdMicroUsd r of None \<Rightarrow> True | Some t \<Rightarrow> 0 \<le> t) \<and>
         (case ap_ThresholdBps r of None \<Rightarrow> True | Some t \<Rightarrow> 0 < t) \<and>
         0 < ap_SpikeMultiplierBps r \<and> 0 < ap_CurrentWindowMinutes r \<and>
         0 < ap_BaselineWindowMinutes r \<and> 0 < ap_MinRequests r \<and>
         ap_Action r \<in> {''notify'', ''downgrade'', ''block''} \<and>
         ap_Status r \<in> {''active'', ''disabled''}, CheckViolation),
      (ap_ScopeType r = ''org'' \<and> ap_ScopeID r = None \<and> ap_ModelAlias r = None \<or>
       ap_ScopeType r = ''api_key'' \<and> ap_ScopeID r \<noteq> None \<and> ap_ModelAlias r = None \<or>
       ap_ScopeType r = ''model'' \<and> ap_ScopeID r = None \<and> ap_ModelAlias r \<noteq> None, CheckViolation),
      (ap_RuleType r = ''daily_cost'' \<and> ap_ThresholdMicroUsd r \<noteq> None \<or>
       ap_RuleType r \<in> {''api_key_cost_spike'', ''model_cost_spike''} \<or>
       ap_RuleType r = ''error_rate_spike'' \<and> ap_ThresholdBps r \<noteq> None, CheckViolation),
      (ap_Action r \<noteq> ''downgrade'' \<or> ap_FallbackModel r \<noteq> None, CheckViolation),
      (org_exists db (ap_OrgID r) \<and> fk_api_key db (ap_OrgID r) (ap_ScopeID r), ForeignKeyViolation)])
     (\<lambda>r db. db\<lparr>cost_anomaly_policies := cost_anomaly_policies db @ [r]\<rparr>) r"

definition ListCostAnomalyPolicies :: "uuid \<Rightarrow> CostAnomalyPolicy list act" where
  "ListCostAnomalyPolicies org = db_read (\<lambda>db.
     Inr (SliceStable (newest_first ap_CreatedAt ap_ID)
       (filter (\<lambda>r. ap_OrgID r = org) (cost_anomaly_policies db))))"

definition ListActiveCostAnomalyPolicies :: "uuid \<Rightarrow> CostAnomalyPolicy list act" where
  "ListActiveCostAnomalyPolicies org = db_read (\<lambda>db.
     Inr (SliceStable (oldest_first ap_CreatedAt ap_ID)
       (filter (\<lambda>r. ap_OrgID r = org \<and> ap_Status r = ''active'') (cost_anomaly_policies db))))"

end
