(* ===== verification/Samples.thy ===== *)
theory Samples
  imports Queries
begin

text \<open>
  A small concrete organisation, used by the witnesses: one provider with one priced model, one
  API key with a daily quota, one blocking budget, and an environment in which no statement
  fails, the clock advances a second per interaction and the drawn identifiers do not repeat.
\<close>

definition demo_env :: environment where
  "demo_env = \<lparr>env_time = (\<lambda>n. 1779271200 * time_second + int n * time_second),
     env_uuid = (\<lambda>n. word_of_nat (1000 + n)), env_token = (\<lambda>n. ''token''),
     env_fault = (\<lambda>_. False), env_redis_fault = (\<lambda>_. False), env_sink_fault = (\<lambda>_. False),
     env_http = (\<lambda>_. Some 200)\<rparr>"

definition empty_db :: database where
  "empty_db = \<lparr>admin_audit_logs = [], admin_tokens = [], api_keys = [], budgets = [],
     budget_alerts = [], budget_alert_deliveries = [], cache_events = [], content_policies = [],
     cost_anomaly_policies = [], cost_limit_counters = [], cost_records = [],
     cost_reservations = [], magic_link_tokens = [], models = [], model_pricing_versions = [],
     org_memberships = [], organizations = [], providers = [], provider_secrets = [],
     request_logs = [], route_policies = [], route_targets = [], usage_records = [], users = [],
     user_sessions = []\<rparr>"

definition demo_t0 :: time where "demo_t0 = 1779148800 * time_second"

definition demo_org :: Organization where
  "demo_org = \<lparr>og_ID = 1, og_Name = ''Acme'', og_Slug = ''acme'', og_Status = ''active'',
     og_CreatedAt = demo_t0, og_UpdatedAt = demo_t0\<rparr>"

definition demo_key :: ApiKey where
  "demo_key = \<lparr>ak_ID = 2, ak_OrgID = 1, ak_Name = ''k'', ak_KeyPrefix = ''p'', ak_KeyHash = ''h'',
     ak_Scopes = [''chat.completions''], ak_Status = ''active'', ak_RpmLimit = 60,
     ak_ExpiresAt = None, ak_LastUsedAt = None, ak_CreatedAt = demo_t0, ak_RevokedAt = None,
     ak_DailyCostLimitMicroUsd = Some 500, ak_MonthlyCostLimitMicroUsd = None,
     ak_QuotaAction = ''block''\<rparr>"

definition demo_provider :: Provider where
  "demo_provider = \<lparr>pr_ID = 3, pr_OrgID = 1, pr_Name = ''mock'', pr_Type = ''mock'', pr_BaseUrl = None,
     pr_TimeoutMs = 1000, pr_Status = ''active'', pr_CreatedAt = demo_t0, pr_UpdatedAt = demo_t0,
     pr_LastHealthStatus = None, pr_LastHealthCheckedAt = None, pr_LastErrorCode = None,
     pr_LastErrorMessage = None\<rparr>"

definition demo_model :: Model where
  "demo_model = \<lparr>md_ID = 4, md_OrgID = 1, md_ProviderID = 3, md_ProviderModelName = ''m'',
     md_DisplayName = ''M'', md_InputPriceMicroUsdPer1kTokens = 150,
     md_OutputPriceMicroUsdPer1kTokens = 600, md_ContextWindow = None, md_Status = ''active'',
     md_CreatedAt = demo_t0, md_UpdatedAt = demo_t0\<rparr>"

definition demo_version :: ModelPricingVersion where
  "demo_version = \<lparr>pv_ID = 5, pv_OrgID = 1, pv_ModelID = 4, pv_Version = 1,
     pv_InputPriceMicroUsdPer1kTokens = 150, pv_OutputPriceMicroUsdPer1kTokens = 600,
     pv_Status = ''active'', pv_EffectiveFrom = demo_t0, pv_EffectiveTo = None, pv_CreatedAt = demo_t0\<rparr>"

definition demo_budget :: Budget where
  "demo_budget = \<lparr>bg_ID = 6, bg_OrgID = 1, bg_Name = ''b'', bg_ScopeType = ''org'', bg_ScopeID = None,
     bg_Period = ''daily'', bg_LimitMicroUsd = 1000, bg_Action = ''block'', bg_Status = ''active'',
     bg_CreatedAt = demo_t0, bg_UpdatedAt = demo_t0\<rparr>"

definition demo_db :: database where
  "demo_db = empty_db\<lparr>organizations := [demo_org], api_keys := [demo_key],
     providers := [demo_provider], models := [demo_model],
     model_pricing_versions := [demo_version], budgets := [demo_budget]\<rparr>"

definition world_of :: "database \<Rightarrow> world" where
  "world_of db = \<lparr>w_db = db, w_step = 0, w_redis = (\<lambda>_. None), w_events = [], w_analytics = [],
     w_sent = []\<rparr>"

lemmas demo_defs = demo_env_def empty_db_def demo_org_def demo_key_def demo_provider_def
  demo_model_def demo_version_def demo_budget_def demo_db_def world_of_def demo_t0_def

lemma healthy_demo [simp]: "healthy demo_env"
  by (simp add: healthy_def demo_env_def)

lemma world_of_db [simp]: "w_db (world_of db) = db"
  by (simp add: world_of_def)

end
