(* ===== verification/Costing.thy ===== *)
theory Costing
  imports Samples
begin

text \<open>
  \<^verbatim>\<open>internal/costing\<close>: the integer cost calculator and the versioned model prices. All money
  is in micro US dollars; prices are per thousand tokens and costs are truncated.
\<close>

section \<open>The calculator\<close>

record CalculateInput =
  ci_PromptTokens :: int
  ci_CompletionTokens :: int
  ci_InputPrice :: int
  ci_OutputPrice :: int

record PricingSnapshot =
  sn_InputPrice :: int
  sn_OutputPrice :: int
  sn_RoundingMode :: string

record CostCalculation =
  co_Currency :: string
  co_InputCostMicro :: int
  co_OutputCostMicro :: int
  co_TotalCostMicro :: int
  co_PricingSnapshot :: PricingSnapshot

abbreviation currencyUSD :: string where "currencyUSD \<equiv> ''USD''"

abbreviation RoundingModeTruncateToMicroUSD :: string where
  "RoundingModeTruncateToMicroUSD \<equiv> ''truncate_to_micro_usd''"

text \<open>The product and the quotient are computed on \<^verbatim>\<open>big.Int\<close>, without overflow.\<close>

definition costMicro :: "int \<Rightarrow> int \<Rightarrow> int outcome" where
  "costMicro tokens price =
     (let value = go_quo (tokens * price) 1000
      in if \<not> in_int64 value then Inl (ErrCostOverflow ''cost exceeds int64'') else Inr value)"

definition Calculate :: "CalculateInput \<Rightarrow> CostCalculation outcome" where
  "Calculate i =
     (if ci_PromptTokens i < 0 then Inl (ErrInvalidCostInput ''prompt tokens must be non-negative'')
      else if ci_CompletionTokens i < 0 then Inl (ErrInvalidCostInput ''completion tokens must be non-negative'')
      else if ci_InputPrice i < 0 then Inl (ErrInvalidCostInput ''input price must be non-negative'')
      else if ci_OutputPrice i < 0 then Inl (ErrInvalidCostInput ''output price must be non-negative'')
      else case costMicro (ci_PromptTokens i) (ci_InputPrice i) of
        Inl e \<Rightarrow> Inl e
      | Inr ic \<Rightarrow> (case costMicro (ci_CompletionTokens i) (ci_OutputPrice i) of
          Inl e \<Rightarrow> Inl e
        | Inr oc \<Rightarrow>
            if ic > wrap64 (max_int64 - oc) then Inl (ErrCostOverflow ''total cost exceeds int64'')
            else Inr \<lparr>co_Currency = currencyUSD, co_InputCostMicro = ic, co_OutputCostMicro = oc,
                      co_TotalCostMicro = wrap64 (ic + oc),
                      co_PricingSnapshot = \<lparr>sn_InputPrice = ci_InputPrice i,
                        sn_OutputPrice = ci_OutputPrice i,
                        sn_RoundingMode = RoundingModeTruncateToMicroUSD\<rparr>\<rparr>))"

definition valid_input :: "CalculateInput \<Rightarrow> bool" where
  "valid_input i \<longleftrightarrow> 0 \<le> ci_PromptTokens i \<and> 0 \<le> ci_CompletionTokens i \<and>
     0 \<le> ci_InputPrice i \<and> 0 \<le> ci_OutputPrice i"

text \<open>What a call should cost: each side truncated to a whole micro dollar.\<close>

definition input_cost :: "CalculateInput \<Rightarrow> int" where
  "input_cost i = ci_PromptTokens i * ci_InputPrice i div 1000"

definition output_cost :: "CalculateInput \<Rightarrow> int" where
  "output_cost i = ci_CompletionTokens i * ci_OutputPrice i div 1000"

lemma costs_nonneg: "valid_input i \<Longrightarrow> 0 \<le> input_cost i \<and> 0 \<le> output_cost i"
  by (simp add: valid_input_def input_cost_def output_cost_def pos_imp_zdiv_nonneg_iff)

lemma costMicro_nonneg:
  "0 \<le> t \<Longrightarrow> 0 \<le> p \<Longrightarrow> costMicro t p =
     (if t * p div 1000 \<le> max_int64 then Inr (t * p div 1000) else Inl (ErrCostOverflow ''cost exceeds int64''))"
  using pos_imp_zdiv_nonneg_iff [of 1000 "t * p"] zero_le_mult_iff [of t p]
  by (auto simp: costMicro_def Let_def go_quo_nonneg width_defs)

lemma Calculate_Inr:
  "Calculate i = Inr c \<longleftrightarrow>
     valid_input i \<and> input_cost i + output_cost i \<le> max_int64 \<and>
     c = \<lparr>co_Currency = currencyUSD, co_InputCostMicro = input_cost i,
          co_OutputCostMicro = output_cost i,
          co_TotalCostMicro = input_cost i + output_cost i,
          co_PricingSnapshot = \<lparr>sn_InputPrice = ci_InputPrice i, sn_OutputPrice = ci_OutputPrice i,
             sn_RoundingMode = RoundingModeTruncateToMicroUSD\<rparr>\<rparr>"
proof (cases "valid_input i")
  case False
  then show ?thesis by (auto simp: Calculate_def valid_input_def)
next
  case True
  note nn = costs_nonneg [OF True]
  have "wrap64 (max_int64 - output_cost i) = max_int64 - output_cost i" if "output_cost i \<le> max_int64"
    using nn that by (intro wrap64_id) (simp add: width_defs)
  moreover have "wrap64 (input_cost i + output_cost i) = input_cost i + output_cost i"
    if "input_cost i + output_cost i \<le> max_int64"
    using nn that by (intro wrap64_id) (simp add: width_defs)
  ultimately show ?thesis
    using True nn
    by (auto simp: Calculate_def costMicro_nonneg valid_input_def
        input_cost_def [symmetric] output_cost_def [symmetric])
qed

lemma Calculate_total_mono:
  assumes "Calculate i = Inr c" and "Calculate j = Inr d"
    and "ci_PromptTokens i \<le> ci_PromptTokens j" "ci_CompletionTokens i \<le> ci_CompletionTokens j"
    and "ci_InputPrice i \<le> ci_InputPrice j" "ci_OutputPrice i \<le> ci_OutputPrice j"
  shows "co_TotalCostMicro c \<le> co_TotalCostMicro d"
proof -
  have "valid_input i" "valid_input j" using assms(1,2) by (simp_all add: Calculate_Inr)
  then have "input_cost i \<le> input_cost j" "output_cost i \<le> output_cost j"
    using assms(3-6)
    by (auto simp: input_cost_def output_cost_def valid_input_def intro!: zdiv_mono1 mult_mono)
  then show ?thesis using assms(1,2) by (simp add: Calculate_Inr)
qed



text \<open>
  truncation loses less than two micro dollars per call and never overcharges: a thousand
  times the total is at most the exact price of the tokens, and less than 2000 below it.
\<close>

theorem calculate_truncation:
  assumes "Calculate i = Inr c"
  shows "1000 * co_TotalCostMicro c \<le>
      ci_PromptTokens i * ci_InputPrice i + ci_CompletionTokens i * ci_OutputPrice i \<and>
    ci_PromptTokens i * ci_InputPrice i + ci_CompletionTokens i * ci_OutputPrice i
      < 1000 * co_TotalCostMicro c + 2000"
proof -
  have "1000 * (a div 1000 + b div 1000) \<le> a + b \<and> a + b < 1000 * (a div 1000 + b div 1000) + 2000"
    for a b :: int
    using mult_div_mod_eq [of 1000 a] mult_div_mod_eq [of 1000 b]
      pos_mod_sign [of 1000 a] pos_mod_bound [of 1000 a] pos_mod_sign [of 1000 b] pos_mod_bound [of 1000 b]
    by auto
  then show ?thesis
    using assms by (simp add: Calculate_Inr input_cost_def output_cost_def)
qed

theorem calculate_truncation_witness:
  "(1000 :: int) * 424 \<le> 1500 * 150 + 333 * 600 \<and> (1500 :: int) * 150 + 333 * 600 < 1000 * 424 + 2000"
proof -
  let ?i = "\<lparr>ci_PromptTokens = 1500, ci_CompletionTokens = 333, ci_InputPrice = 150, ci_OutputPrice = 600\<rparr>"
  let ?c = "\<lparr>co_Currency = ''USD'', co_InputCostMicro = 225, co_OutputCostMicro = 199,
        co_TotalCostMicro = 424, co_PricingSnapshot = \<lparr>sn_InputPrice = 150, sn_OutputPrice = 600,
        sn_RoundingMode = ''truncate_to_micro_usd''\<rparr>\<rparr>"
  have "Calculate ?i = Inr ?c"
    by (simp add: Calculate_Inr valid_input_def input_cost_def output_cost_def max_int64_def)
  from calculate_truncation [OF this] show ?thesis by simp
qed

section \<open>Price versions\<close>

abbreviation PricingStatusActive :: string where "PricingStatusActive \<equiv> ''active''"

abbreviation PricingStatusSuperseded :: string where "PricingStatusSuperseded \<equiv> ''superseded''"

record UpdateModelPricingParams =
  up_OrgID :: uuid
  up_ModelID :: uuid
  up_InputPrice :: int
  up_OutputPrice :: int

record UpdateModelPricingResult =
  ures_Model :: Model
  ures_PreviousVersion :: ModelPricingVersion
  ures_PricingVersion :: ModelPricingVersion

text \<open>\<^verbatim>\<open>errors.Is(err, pgx.ErrNoRows)\<close> turned into the package's sentinel.\<close>

definition no_rows_as :: "err \<Rightarrow> 'a act \<Rightarrow> 'a act" where
  "no_rows_as e m = andThen (attempt m) (\<lambda>r.
     case r of Inl NoRows \<Rightarrow> fail e | Inl x \<Rightarrow> fail x | Inr a \<Rightarrow> ret a)"

lemma no_rows_as_apply [act_simps]:
  "no_rows_as e m E w = (case m E w of (Inl x, w') \<Rightarrow> (Inl (if x = NoRows then e else x), w') | (Inr a, w') \<Rightarrow> (Inr a, w'))"
  by (auto simp: no_rows_as_def act_simps split: prod.splits sum.splits err.splits)

lemma no_rows_as_Inr [act_inr]: "no_rows_as e m E w = (Inr a, w') \<longleftrightarrow> m E w = (Inr a, w')"
  by (auto simp: no_rows_as_apply split: prod.splits sum.splits)

lemma keeps_no_rows_as [keeps_rules]: "keeps I m \<Longrightarrow> keeps I (no_rows_as e m)"
  by (auto simp: keeps_def no_rows_as_apply split: prod.splits sum.splits) (metis snd_conv)+

definition CreateInitialVersionWithQueries :: "Model \<Rightarrow> time \<Rightarrow> ModelPricingVersion act" where
  "CreateInitialVersionWithQueries model effectiveFrom =
     (if md_OrgID model = uuid_Nil \<or> md_ID model = uuid_Nil
      then fail (ErrInvalidCostInput ''model identity is required'')
      else andThen (if time_IsZero effectiveFrom then clock_now else ret effectiveFrom) (\<lambda>from.
        andThen new_uuid (\<lambda>i.
        CreateModelPricingVersion
          \<lparr>pv_ID = i, pv_OrgID = md_OrgID model, pv_ModelID = md_ID model, pv_Version = 1,
           pv_InputPriceMicroUsdPer1kTokens = md_InputPriceMicroUsdPer1kTokens model,
           pv_OutputPriceMicroUsdPer1kTokens = md_OutputPriceMicroUsdPer1kTokens model,
           pv_Status = PricingStatusActive, pv_EffectiveFrom = from, pv_EffectiveTo = None,
           pv_CreatedAt = from\<rparr>)))"

definition CreateInitialVersion :: "Model \<Rightarrow> time \<Rightarrow> ModelPricingVersion act" where
  "CreateInitialVersion model effectiveFrom = CreateInitialVersionWithQueries model effectiveFrom"

definition update_pricing_tx :: "UpdateModelPricingParams \<Rightarrow> time \<Rightarrow> UpdateModelPricingResult act" where
  "update_pricing_tx p now =
     andThen (no_rows_as ErrModelPricingNotFound (GetModel (up_OrgID p) (up_ModelID p))) (\<lambda>model.
     andThen (GetNextModelPricingVersionNumber (up_OrgID p) (up_ModelID p)) (\<lambda>nextVersion.
     andThen (no_rows_as ErrModelPricingNotFound
       (SupersedeActiveModelPricingVersion (up_OrgID p) (up_ModelID p) now)) (\<lambda>previous.
     andThen (UpdateModelPricing_row (up_OrgID p) (up_ModelID p) (up_InputPrice p) (up_OutputPrice p) now)
       (\<lambda>updatedModel.
     andThen new_uuid (\<lambda>i.
     andThen (CreateModelPricingVersion
       \<lparr>pv_ID = i, pv_OrgID = up_OrgID p, pv_ModelID = md_ID model, pv_Version = nextVersion,
        pv_InputPriceMicroUsdPer1kTokens = up_InputPrice p,
        pv_OutputPriceMicroUsdPer1kTokens = up_OutputPrice p,
        pv_Status = PricingStatusActive, pv_EffectiveFrom = now, pv_EffectiveTo = None,
        pv_CreatedAt = now\<rparr>) (\<lambda>version.
     ret \<lparr>ures_Model = updatedModel, ures_PreviousVersion = previous, ures_PricingVersion = version\<rparr>))))))"

definition UpdateModelPricing :: "UpdateModelPricingParams \<Rightarrow> UpdateModelPricingResult act" where
  "UpdateModelPricing p =
     (if up_OrgID p = uuid_Nil then fail (ErrInvalidCostInput ''org_id is required'')
      else if up_ModelID p = uuid_Nil then fail (ErrInvalidCostInput ''model_id is required'')
      else if up_InputPrice p < 0 \<or> up_OutputPrice p < 0
      then fail (ErrInvalidCostInput ''model prices must be non-negative'')
      else andThen clock_now (\<lambda>now. ExecTx (update_pricing_tx p now)))"

definition ListModelPricingVersions :: "uuid \<Rightarrow> uuid \<Rightarrow> ModelPricingVersion list act" where
  "ListModelPricingVersions orgID modelID =
     andThen (no_rows_as ErrModelPricingNotFound (GetModel orgID modelID)) (\<lambda>_.
       ListModelPricingVersions_rows orgID modelID)"

definition GetActiveModelPricingVersion :: "uuid \<Rightarrow> uuid \<Rightarrow> ModelPricingVersion act" where
  "GetActiveModelPricingVersion orgID modelID =
     no_rows_as ErrModelPricingNotFound (GetActiveModelPricingVersion_row orgID modelID)"

text \<open>
  The price table is consistent: a model has at most one active version, version numbers do
  not repeat, and the active version carries the prices stored on the model.
\<close>

definition version_key :: "ModelPricingVersion \<Rightarrow> uuid \<times> uuid \<times> int" where
  "version_key v = (pv_OrgID v, pv_ModelID v, pv_Version v)"

definition prices_match :: "Model \<Rightarrow> ModelPricingVersion \<Rightarrow> bool" where
  "prices_match m v \<longleftrightarrow>
     pv_InputPriceMicroUsdPer1kTokens v = md_InputPriceMicroUsdPer1kTokens m \<and>
     pv_OutputPriceMicroUsdPer1kTokens v = md_OutputPriceMicroUsdPer1kTokens m"

definition pricing_ok :: "database \<Rightarrow> bool" where
  "pricing_ok db \<longleftrightarrow>
     distinct (map version_key (model_pricing_versions db)) \<and>
     distinct (map (\<lambda>v. (pv_OrgID v, pv_ModelID v))
       (filter (\<lambda>v. pv_Status v = PricingStatusActive) (model_pricing_versions db))) \<and>
     (\<forall>v \<in> set (model_pricing_versions db). \<forall>m \<in> set (models db).
        active_version (md_OrgID m) (md_ID m) v \<longrightarrow> prices_match m v)"

definition supersede :: "time \<Rightarrow> ModelPricingVersion \<Rightarrow> ModelPricingVersion" where
  "supersede t v = v\<lparr>pv_Status := PricingStatusSuperseded, pv_EffectiveTo := Some t\<rparr>"

definition reprice :: "UpdateModelPricingParams \<Rightarrow> time \<Rightarrow> Model \<Rightarrow> Model" where
  "reprice p t m = m\<lparr>md_InputPriceMicroUsdPer1kTokens := up_InputPrice p,
     md_OutputPriceMicroUsdPer1kTokens := up_OutputPrice p, md_UpdatedAt := t\<rparr>"

lemma supersede_simps [simp]:
  "version_key (supersede t v) = version_key v" "pv_Status (supersede t v) = ''superseded''"
  "pv_OrgID (supersede t v) = pv_OrgID v" "pv_ModelID (supersede t v) = pv_ModelID v"
  "\<not> active_version org m (supersede t v)"
  by (simp_all add: supersede_def version_key_def active_version_def)

lemma reprice_simps [simp]:
  "md_OrgID (reprice p t m) = md_OrgID m" "md_ID (reprice p t m) = md_ID m"
  by (simp_all add: reprice_def)

text \<open>The net effect of the transaction: old version closed, model repriced, new version added.\<close>

lemma Supersede_Inr:
  "SupersedeActiveModelPricingVersion org m t E w = (Inr x, w') \<Longrightarrow>
     \<exists>v. v \<in> set (model_pricing_versions (w_db w)) \<and> active_version org m v \<and> x = supersede t v \<and>
       w' = (tick w)\<lparr>w_db := (w_db w)\<lparr>model_pricing_versions :=
          update_rows (active_version org m) (supersede t) (model_pricing_versions (w_db w))\<rparr>\<rparr>"
  by (auto simp: SupersedeActiveModelPricingVersion_def act_inr supersede_def [abs_def]
      filter_eq_Cons_iff split: list.splits if_splits)

lemma UpdateModelPricing_row_Inr:
  "UpdateModelPricing_row (up_OrgID p) (up_ModelID p) (up_InputPrice p) (up_OutputPrice p) t E w = (Inr x, w') \<Longrightarrow>
     w' = (tick w)\<lparr>w_db := (w_db w)\<lparr>models :=
       update_rows (\<lambda>m. md_OrgID m = up_OrgID p \<and> md_ID m = up_ModelID p) (reprice p t) (models (w_db w))\<rparr>\<rparr>"
  by (auto simp: UpdateModelPricing_row_def act_inr reprice_def [abs_def] split: if_splits)

lemma CreateModelPricingVersion_Inr:
  "CreateModelPricingVersion v E w = (Inr x, w') \<Longrightarrow>
     x = v\<lparr>pv_EffectiveTo := None\<rparr> \<and>
     w' = (tick w)\<lparr>w_db := (w_db w)\<lparr>model_pricing_versions :=
        model_pricing_versions (w_db w) @ [x]\<rparr>\<rparr> \<and>
     (\<forall>y \<in> set (model_pricing_versions (w_db w)). version_key y \<noteq> version_key x)"
  by (auto simp: CreateModelPricingVersion_def act_inr list_ex_iff version_key_def)

lemma version_keys_update_rows:
  "version_key ` set (update_rows P (supersede t) vs) = version_key ` set vs"
  using map_update_rows [of version_key "supersede t" P vs] by (metis list.set_map supersede_simps(1))

lemma update_pricing_tx_effect:
  assumes "update_pricing_tx p now E w = (Inr u, w2)"
  obtains v where "ures_PricingVersion u = v"
    "w_db w2 = (w_db w)\<lparr>
       models := update_rows (\<lambda>m. md_OrgID m = up_OrgID p \<and> md_ID m = up_ModelID p) (reprice p now) (models (w_db w)),
       model_pricing_versions := update_rows (active_version (up_OrgID p) (up_ModelID p)) (supersede now)
         (model_pricing_versions (w_db w)) @ [v]\<rparr>"
    "active_version (up_OrgID p) (up_ModelID p) v" "pv_EffectiveFrom v = now"
    "pv_InputPriceMicroUsdPer1kTokens v = up_InputPrice p"
    "pv_OutputPriceMicroUsdPer1kTokens v = up_OutputPrice p"
    "version_key v \<notin> version_key ` set (model_pricing_versions (w_db w))"
proof -
  from assms obtain model w1 nv w3 prev w4 um w5 i w6 v where
    gm: "GetModel (up_OrgID p) (up_ModelID p) E w = (Inr model, w1)" and
    nx: "GetNextModelPricingVersionNumber (up_OrgID p) (up_ModelID p) E w1 = (Inr nv, w3)" and
    su: "SupersedeActiveModelPricingVersion (up_OrgID p) (up_ModelID p) now E w3 = (Inr prev, w4)" and
    um: "UpdateModelPricing_row (up_OrgID p) (up_ModelID p) (up_InputPrice p) (up_OutputPrice p) now E w4 = (Inr um, w5)" and
    id: "new_uuid E w5 = (Inr i, w6)" and
    cv: "CreateModelPricingVersion
       \<lparr>pv_ID = i, pv_OrgID = up_OrgID p, pv_ModelID = md_ID model, pv_Version = nv,
        pv_InputPriceMicroUsdPer1kTokens = up_InputPrice p,
        pv_OutputPriceMicroUsdPer1kTokens = up_OutputPrice p,
        pv_Status = PricingStatusActive, pv_EffectiveFrom = now, pv_EffectiveTo = None,
        pv_CreatedAt = now\<rparr> E w6 = (Inr v, w2)" and
    u: "u = \<lparr>ures_Model = um, ures_PreviousVersion = prev, ures_PricingVersion = v\<rparr>"
    by (auto simp: update_pricing_tx_def andThen_Inr no_rows_as_Inr ret_Inr)
  have w1: "w_db w1 = w_db w" and model: "md_ID model = up_ModelID p"
    using gm by (auto simp: GetModel_def act_inr dest!: first_row_Inr)
  have w3: "w_db w3 = w_db w1" using nx by (auto simp: GetNextModelPricingVersionNumber_def act_inr)
  have w6: "w_db w6 = w_db w5" using id by (simp add: act_inr)
  show ?thesis
  proof (rule that [of v])
    show "w_db w2 = (w_db w)\<lparr>
       models := update_rows (\<lambda>m. md_OrgID m = up_OrgID p \<and> md_ID m = up_ModelID p) (reprice p now) (models (w_db w)),
       model_pricing_versions := update_rows (active_version (up_OrgID p) (up_ModelID p)) (supersede now)
         (model_pricing_versions (w_db w)) @ [v]\<rparr>"
      using Supersede_Inr [OF su] UpdateModelPricing_row_Inr [OF um] CreateModelPricingVersion_Inr [OF cv] w1 w3 w6
      by auto
    have "model_pricing_versions (w_db w6) =
        update_rows (active_version (up_OrgID p) (up_ModelID p)) (supersede now) (model_pricing_versions (w_db w))"
      using Supersede_Inr [OF su] UpdateModelPricing_row_Inr [OF um] w1 w3 w6 by auto
    moreover have "version_key v \<notin> version_key ` set (model_pricing_versions (w_db w6))"
      using CreateModelPricingVersion_Inr [OF cv] by auto
    ultimately show "version_key v \<notin> version_key ` set (model_pricing_versions (w_db w))"
      by (simp add: version_keys_update_rows)
  qed (use CreateModelPricingVersion_Inr [OF cv] u model in \<open>auto simp: active_version_def\<close>)
qed

lemma filter_active_update_rows:
  "filter (active_version org m) (update_rows (active_version org m) (supersede t) vs) = []"
  by (induction vs) auto

lemma filter_status_update_rows:
  "filter (\<lambda>v. pv_Status v = ''active'') (update_rows (active_version org m) (supersede t) vs)
    = filter (\<lambda>v. pv_Status v = ''active'' \<and> \<not> active_version org m v) vs"
  by (induction vs) auto

lemma filter_other_update_rows:
  assumes "\<And>v. Q v \<Longrightarrow> \<not> active_version org m v" and "\<And>v. active_version org m v \<Longrightarrow> \<not> Q (supersede t v)"
  shows "filter Q (update_rows (active_version org m) (supersede t) vs) = filter Q vs"
  using assms by (induction vs) auto

lemma pricing_ok_update:
  assumes ok: "pricing_ok db" and v: "active_version org m v"
    and price: "pv_InputPriceMicroUsdPer1kTokens v = up_InputPrice p" "pv_OutputPriceMicroUsdPer1kTokens v = up_OutputPrice p"
    and fresh: "version_key v \<notin> version_key ` set (model_pricing_versions db)"
    and p: "up_OrgID p = org" "up_ModelID p = m"
  shows "pricing_ok (db\<lparr>
       models := update_rows (\<lambda>x. md_OrgID x = org \<and> md_ID x = m) (reprice p t) (models db),
       model_pricing_versions := update_rows (active_version org m) (supersede t)
         (model_pricing_versions db) @ [v]\<rparr>)" (is "pricing_ok ?db")
proof -
  let ?vs = "model_pricing_versions db" and ?key = "\<lambda>v. (pv_OrgID v, pv_ModelID v)"
  let ?us = "update_rows (active_version org m) (supersede t) ?vs"
  let ?act = "\<lambda>v. pv_Status v = PricingStatusActive"
  have act: "filter ?act ?us = filter (\<lambda>v. ?key v \<noteq> (org, m)) (filter ?act ?vs)"
    by (auto simp: filter_status_update_rows active_version_def intro!: filter_cong)
  have keys: "map version_key ?us = map version_key ?vs"
    by (rule map_update_rows) simp
  have "distinct (map version_key (?us @ [v]))"
    using ok fresh keys by (simp add: pricing_ok_def version_keys_update_rows)
  moreover have "distinct (map ?key (filter ?act (?us @ [v])))"
    using ok v by (auto simp: pricing_ok_def act active_version_def distinct_map intro: inj_on_subset)
  moreover have "prices_match x y" if "y \<in> set (?us @ [v])" "active_version (md_OrgID x) (md_ID x) y"
    "x \<in> set (update_rows (\<lambda>x. md_OrgID x = org \<and> md_ID x = m) (reprice p t) (models db))" for x y
    using that ok v price by (auto simp: update_rows_def pricing_ok_def prices_match_def reprice_def
        active_version_def supersede_def split: if_splits)
  ultimately show ?thesis by (simp add: pricing_ok_def)
qed

text \<open>
  Repricing a model is atomic and keeps the price table consistent. Whatever statement
  fails, a failed call changes nothing; a successful call leaves exactly one active version for
  the model, the returned one, carrying the new prices from the instant of the call, and keeps
  the versions of every other model.
\<close>

lemma update_pricing_consistent:
  assumes ok: "pricing_ok (w_db w)" and run: "UpdateModelPricing p E w = (r, w')"
  shows "pricing_ok (w_db w') \<and>
    (case r of
       Inl e \<Rightarrow> w_db w' = w_db w
     | Inr u \<Rightarrow>
         filter (active_version (up_OrgID p) (up_ModelID p)) (model_pricing_versions (w_db w'))
           = [ures_PricingVersion u] \<and>
         pv_InputPriceMicroUsdPer1kTokens (ures_PricingVersion u) = up_InputPrice p \<and>
         pv_OutputPriceMicroUsdPer1kTokens (ures_PricingVersion u) = up_OutputPrice p \<and>
         pv_EffectiveFrom (ures_PricingVersion u) = env_time E (w_step w) \<and>
         (\<forall>org m. (org, m) \<noteq> (up_OrgID p, up_ModelID p) \<longrightarrow>
            filter (\<lambda>v. pv_OrgID v = org \<and> pv_ModelID v = m) (model_pricing_versions (w_db w'))
            = filter (\<lambda>v. pv_OrgID v = org \<and> pv_ModelID v = m) (model_pricing_versions (w_db w))))"
proof (cases "up_OrgID p = uuid_Nil \<or> up_ModelID p = uuid_Nil \<or> up_InputPrice p < 0 \<or> up_OutputPrice p < 0")
  case True
  then show ?thesis using ok run by (auto simp: UpdateModelPricing_def act_simps split: if_splits)
next
  case False
  let ?tx = "update_pricing_tx p (env_time E (w_step w))"
  have run': "ExecTx ?tx E (tick w) = (r, w')"
    using False run by (simp add: UpdateModelPricing_def act_simps)
  show ?thesis
  proof (cases rule: ExecTx_cases [of ?tx E "tick w"])
    case aborted
    then show ?thesis using ok run' by auto
  next
    case (committed u w2)
    then have tx: "?tx E (tick (tick w)) = (Inr u, w2)" and r: "r = Inr u" "w' = tick w2"
      using run' by auto
    from tx show ?thesis
    proof (rule update_pricing_tx_effect)
      fix v
      assume eff: "ures_PricingVersion u = v"
        "w_db w2 = (w_db (tick (tick w)))\<lparr>
          models := update_rows (\<lambda>m. md_OrgID m = up_OrgID p \<and> md_ID m = up_ModelID p)
            (reprice p (env_time E (w_step w))) (models (w_db (tick (tick w)))),
          model_pricing_versions := update_rows (active_version (up_OrgID p) (up_ModelID p))
            (supersede (env_time E (w_step w))) (model_pricing_versions (w_db (tick (tick w)))) @ [v]\<rparr>"
        "active_version (up_OrgID p) (up_ModelID p) v" "pv_EffectiveFrom v = env_time E (w_step w)"
        "pv_InputPriceMicroUsdPer1kTokens v = up_InputPrice p"
        "pv_OutputPriceMicroUsdPer1kTokens v = up_OutputPrice p"
        "version_key v \<notin> version_key ` set (model_pricing_versions (w_db (tick (tick w))))"
      then have "pricing_ok (w_db w')"
        using ok r pricing_ok_update by simp
      with eff show ?thesis
        using r by (auto simp: filter_active_update_rows active_version_def
            intro!: filter_other_update_rows)
    qed
  qed
qed

lemma update_pricing_demo:
  "let p = \<lparr>up_OrgID = 1, up_ModelID = 4, up_InputPrice = 200, up_OutputPrice = 700\<rparr>;
       (r, w') = UpdateModelPricing p demo_env (world_of demo_db)
   in is_ok r \<and> pricing_ok demo_db \<and> pricing_ok (w_db w') \<and>
      map pv_Version (filter (active_version 1 4) (model_pricing_versions (w_db w'))) = [2]"
proof -
  let ?p = "\<lparr>up_OrgID = 1, up_ModelID = 4, up_InputPrice = 200, up_OutputPrice = 700\<rparr>"
  let ?run = "UpdateModelPricing ?p demo_env (world_of demo_db)"
  have ok: "pricing_ok (w_db (world_of demo_db))"
    by (simp add: demo_defs pricing_ok_def version_key_def prices_match_def active_version_def)
  have val: "is_ok (fst ?run) \<and>
      map pv_Version (filter (active_version 1 4) (model_pricing_versions (w_db (snd ?run)))) = [2]"
    by code_simp
  have "pricing_ok (w_db (snd ?run))"
    using update_pricing_consistent [OF ok, of ?p demo_env "fst ?run" "snd ?run"] by simp
  then show ?thesis using ok val by (simp add: case_prod_beta Let_def)
qed

end
