(* ===== verification/Reservations.thy ===== *)
theory Reservations
  imports Costing
begin

text \<open>
  \<^verbatim>\<open>internal/limits/reservation_service.go\<close>: cost reservations. Before a provider is called, the
  estimated cost is reserved against every blocking limit (organisation budgets and the quota of
  the API key); afterwards the reservation is settled with the actual cost or released. Each
  limit has one counter row per period window; \<^verbatim>\<open>SELECT ... FOR UPDATE\<close> serialises the
  transactions that touch it, so a transaction is one atomic step here.
\<close>

section \<open>Data\<close>

abbreviation ScopeTypeOrg :: string where "ScopeTypeOrg \<equiv> ''org''"
abbreviation ScopeTypeAPIKey :: string where "ScopeTypeAPIKey \<equiv> ''api_key''"
abbreviation PeriodDaily :: string where "PeriodDaily \<equiv> ''daily''"
abbreviation PeriodMonthly :: string where "PeriodMonthly \<equiv> ''monthly''"
abbreviation ActionBlock :: string where "ActionBlock \<equiv> ''block''"
abbreviation ActionWarn :: string where "ActionWarn \<equiv> ''warn''"

record ReserveInput =
  ri_RequestID :: uuid
  ri_OrgID :: uuid
  ri_APIKeyID :: uuid
  ri_EstimatedCostMicroUSD :: int

record ReserveResult =
  rr_Allowed :: bool
  rr_BlockedScope :: string
  rr_Period :: string
  rr_LimitMicroUSD :: int
  rr_UsedMicroUSD :: int
  rr_ReservedMicroUSD :: int

definition allowed_result :: ReserveResult where
  "allowed_result = \<lparr>rr_Allowed = True, rr_BlockedScope = [], rr_Period = [], rr_LimitMicroUSD = 0,
     rr_UsedMicroUSD = 0, rr_ReservedMicroUSD = 0\<rparr>"

record limit_constraint =
  cs_ScopeType :: string
  cs_ScopeID :: uuid
  cs_Period :: string
  cs_LimitMicroUSD :: int

record counterState =
  st_ID :: uuid
  st_SettledMicroUSD :: int
  st_ReservedMicroUSD :: int

section \<open>Period windows\<close>

definition periodWindow :: "time \<Rightarrow> string \<Rightarrow> (time \<times> time) outcome" where
  "periodWindow now period =
     (if period = PeriodDaily then
        (let start = time_Date (time_Year now) (time_Month now) (time_Day now)
         in Inr (start, AddDate start 0 0 1))
      else if period = PeriodMonthly then
        (let start = time_Date (time_Year now) (time_Month now) 1
         in Inr (start, AddDate start 0 1 0))
      else Inl (ErrMsg ''unsupported cost reservation period''))"

section \<open>Loading the limits\<close>

definition min_list1 :: "int list \<Rightarrow> int" where
  "min_list1 xs = fold min (tl xs) (hd xs)"

text \<open>The strictest active blocking budget per period, \<^verbatim>\<open>GROUP BY period ORDER BY period\<close>.\<close>

definition blocking_budgets :: "database \<Rightarrow> uuid \<Rightarrow> Budget list" where
  "blocking_budgets db orgID = filter (\<lambda>b. bg_OrgID b = orgID \<and> bg_ScopeType b = ''org'' \<and>
     bg_Status b = ''active'' \<and> bg_Action b = ''block'') (budgets db)"

definition budget_limits :: "database \<Rightarrow> uuid \<Rightarrow> (string \<times> int) list" where
  "budget_limits db orgID =
     map (\<lambda>p. (p, min_list1 (map bg_LimitMicroUsd (filter (\<lambda>b. bg_Period b = p) (blocking_budgets db orgID)))))
       (sort (remdups (map bg_Period (blocking_budgets db orgID))))"

definition api_key_constraints :: "uuid \<Rightarrow> int option \<Rightarrow> int option \<Rightarrow> string \<Rightarrow> limit_constraint list" where
  "api_key_constraints apiKeyID dailyLimit monthlyLimit quotaAction =
     (if quotaAction = ActionBlock then
        (case dailyLimit of None \<Rightarrow> [] | Some l \<Rightarrow>
           [\<lparr>cs_ScopeType = ScopeTypeAPIKey, cs_ScopeID = apiKeyID, cs_Period = PeriodDaily, cs_LimitMicroUSD = l\<rparr>]) @
        (case monthlyLimit of None \<Rightarrow> [] | Some l \<Rightarrow>
           [\<lparr>cs_ScopeType = ScopeTypeAPIKey, cs_ScopeID = apiKeyID, cs_Period = PeriodMonthly, cs_LimitMicroUSD = l\<rparr>])
      else [])"

definition loadBlockingConstraints :: "uuid \<Rightarrow> uuid \<Rightarrow> limit_constraint list act" where
  "loadBlockingConstraints orgID apiKeyID =
     andThen (db_read (\<lambda>db. Inr (budget_limits db orgID))) (\<lambda>rows.
     let items = map (\<lambda>(period, limit).
           \<lparr>cs_ScopeType = ScopeTypeOrg, cs_ScopeID = orgID, cs_Period = period, cs_LimitMicroUSD = limit\<rparr>) rows
     in andThen (GetAPIKey orgID apiKeyID) (\<lambda>k.
        ret (items @ api_key_constraints apiKeyID (ak_DailyCostLimitMicroUsd k)
               (ak_MonthlyCostLimitMicroUsd k) (ak_QuotaAction k))))"

section \<open>Counters\<close>

type_synonym counter_key = "uuid \<times> string \<times> uuid \<times> string \<times> time"

definition counter_key :: "CostLimitCounter \<Rightarrow> counter_key" where
  "counter_key c = (cc_OrgID c, cc_ScopeType c, cc_ScopeID c, cc_Period c, cc_WindowStart c)"

definition reservation_key :: "CostReservation \<Rightarrow> counter_key" where
  "reservation_key r = (rs_OrgID r, rs_ScopeType r, rs_ScopeID r, rs_Period r, rs_WindowStart r)"

text \<open>
  The cost a new counter starts from: \<^verbatim>\<open>cost_records LEFT JOIN usage_records\<close> over the window,
  restricted to the API key unless the scope is the organisation.
\<close>

definition initial_settled :: "database \<Rightarrow> uuid \<Rightarrow> string \<Rightarrow> uuid \<Rightarrow> time \<Rightarrow> time \<Rightarrow> int" where
  "initial_settled db orgID scope apiKeyID s e = sum_list
     [cr_TotalCostMicro cr. cr \<leftarrow> cost_records db,
        cr_OrgID cr = orgID \<and> in_window s e (cr_CreatedAt cr),
        ur \<leftarrow> (let us = filter (\<lambda>u. ur_OrgID u = cr_OrgID cr \<and> ur_ID u = cr_UsageRecordID cr) (usage_records db)
              in if us = [] then [None] else map Some us),
        scope = ''org'' \<or> (case ur of None \<Rightarrow> False | Some u \<Rightarrow> ur_ApiKeyID u = apiKeyID)]"

text \<open>\<^verbatim>\<open>INSERT INTO cost_limit_counters ... ON CONFLICT (key) DO NOTHING\<close>.\<close>

definition insert_counter :: "CostLimitCounter \<Rightarrow> uuid \<Rightarrow> unit act" where
  "insert_counter c apiKeyID = db_exec (\<lambda>db.
     case pg_bigint (initial_settled db (cc_OrgID c) (cc_ScopeType c) apiKeyID (cc_WindowStart c) (cc_WindowEnd c)) of
       Inl e \<Rightarrow> Inl e
     | Inr settled \<Rightarrow>
         let row = c\<lparr>cc_SettledMicroUsd := settled, cc_ReservedMicroUsd := 0\<rparr>
         in if \<not> (cc_ScopeType c \<in> {''org'', ''api_key''} \<and> cc_Period c \<in> {''daily'', ''monthly''} \<and>
                  0 \<le> settled \<and> cc_WindowStart c < cc_WindowEnd c) then Inl CheckViolation
            else if list_ex (\<lambda>x. counter_key x = counter_key c) (cost_limit_counters db) then Inr ((), db)
            else if list_ex (\<lambda>x. cc_ID x = cc_ID c) (cost_limit_counters db) then Inl UniqueViolation
            else if \<not> org_exists db (cc_OrgID c) then Inl ForeignKeyViolation
            else Inr ((), db\<lparr>cost_limit_counters := cost_limit_counters db @ [row]\<rparr>))"

definition select_counter :: "counter_key \<Rightarrow> counterState act" where
  "select_counter k = db_read (\<lambda>db.
     case first_row (filter (\<lambda>c. counter_key c = k) (cost_limit_counters db)) of
       Inl e \<Rightarrow> Inl e
     | Inr c \<Rightarrow> Inr \<lparr>st_ID = cc_ID c, st_SettledMicroUSD = cc_SettledMicroUsd c,
                      st_ReservedMicroUSD = cc_ReservedMicroUsd c\<rparr>)"

definition item_key :: "uuid \<Rightarrow> limit_constraint \<Rightarrow> time \<Rightarrow> counter_key" where
  "item_key orgID item windowStart = (orgID, cs_ScopeType item, cs_ScopeID item, cs_Period item, windowStart)"

definition ensureAndLockCounter ::
  "uuid \<Rightarrow> uuid \<Rightarrow> limit_constraint \<Rightarrow> time \<Rightarrow> time \<Rightarrow> time \<Rightarrow> counterState act" where
  "ensureAndLockCounter orgID apiKeyID item windowStart windowEnd now =
     andThen new_uuid (\<lambda>i.
     andThen (insert_counter \<lparr>cc_ID = i, cc_OrgID = orgID, cc_ScopeType = cs_ScopeType item,
        cc_ScopeID = cs_ScopeID item, cc_Period = cs_Period item, cc_WindowStart = windowStart,
        cc_WindowEnd = windowEnd, cc_SettledMicroUsd = 0, cc_ReservedMicroUsd = 0,
        cc_CreatedAt = now, cc_UpdatedAt = now\<rparr> apiKeyID) (\<lambda>_.
     select_counter (item_key orgID item windowStart)))"

text \<open>An \<^verbatim>\<open>UPDATE\<close> of counters; PostgreSQL refuses a \<^verbatim>\<open>bigint\<close> out of range or a failed check.\<close>

definition counter_in_range :: "CostLimitCounter \<Rightarrow> bool" where
  "counter_in_range c \<longleftrightarrow> in_int64 (cc_SettledMicroUsd c) \<and> in_int64 (cc_ReservedMicroUsd c)"

definition update_counters :: "(CostLimitCounter \<Rightarrow> bool) \<Rightarrow> (CostLimitCounter \<Rightarrow> CostLimitCounter) \<Rightarrow> unit act" where
  "update_counters P f = db_exec (\<lambda>db.
     let cs = update_rows P f (cost_limit_counters db)
     in if list_ex (\<lambda>c. P c \<and> \<not> counter_in_range (f c)) (cost_limit_counters db) then Inl NumericOutOfRange
        else if list_ex (\<lambda>c. P c \<and> (cc_SettledMicroUsd (f c) < 0 \<or> cc_ReservedMicroUsd (f c) < 0))
               (cost_limit_counters db) then Inl CheckViolation
        else Inr ((), db\<lparr>cost_limit_counters := cs\<rparr>))"

definition reserve_on_counter :: "uuid \<Rightarrow> int \<Rightarrow> time \<Rightarrow> unit act" where
  "reserve_on_counter i amount now = update_counters (\<lambda>c. cc_ID c = i)
     (\<lambda>c. c\<lparr>cc_ReservedMicroUsd := cc_ReservedMicroUsd c + amount, cc_UpdatedAt := now\<rparr>)"

definition reservation_constraints :: "CostReservation \<Rightarrow> database \<Rightarrow> (bool \<times> err) list" where
  "reservation_constraints r db =
     [(\<not> list_ex (\<lambda>x. rs_ID x = rs_ID r \<or>
         rs_RequestID x = rs_RequestID r \<and> rs_ScopeType x = rs_ScopeType r \<and> rs_ScopeID x = rs_ScopeID r \<and>
         rs_Period x = rs_Period r \<and> rs_WindowStart x = rs_WindowStart r) (cost_reservations db), UniqueViolation),
      (rs_ScopeType r \<in> {''org'', ''api_key''} \<and> rs_Period r \<in> {''daily'', ''monthly''} \<and>
         0 \<le> rs_ReservedMicroUsd r \<and> 0 \<le> rs_SettledMicroUsd r \<and>
         rs_Status r \<in> {''reserved'', ''settled'', ''released''} \<and>
         rs_WindowStart r < rs_WindowEnd r, CheckViolation),
      (org_exists db (rs_OrgID r) \<and> fk_api_key db (rs_OrgID r) (Some (rs_ApiKeyID r)), ForeignKeyViolation)]"

definition insert_reservation :: "CostReservation \<Rightarrow> CostReservation act" where
  "insert_reservation r = sql_insert (reservation_constraints r)
     (\<lambda>r db. db\<lparr>cost_reservations := cost_reservations db @ [r]\<rparr>) r"

section \<open>Reserve\<close>

definition blocked_result :: "limit_constraint \<Rightarrow> counterState \<Rightarrow> int \<Rightarrow> ReserveResult" where
  "blocked_result item state used =
     \<lparr>rr_Allowed = False, rr_BlockedScope = cs_ScopeType item, rr_Period = cs_Period item,
      rr_LimitMicroUSD = cs_LimitMicroUSD item, rr_UsedMicroUSD = used,
      rr_ReservedMicroUSD = st_ReservedMicroUSD state\<rparr>"

text \<open>
  One iteration of the loop over the constraints: \<open>None\<close> continues, \<open>Some\<close> returns the request as
  blocked. A blocked request returns without committing: the deferred rollback undoes what
  earlier iterations reserved.
\<close>

definition reserve_on_limit ::
  "ReserveInput \<Rightarrow> time \<Rightarrow> limit_constraint \<Rightarrow> time \<Rightarrow> time \<Rightarrow> counterState \<Rightarrow> ReserveResult option act" where
  "reserve_on_limit input now item windowStart windowEnd state =
    (let used = wrap64 (st_SettledMicroUSD state + st_ReservedMicroUSD state);
         remaining = wrap64 (cs_LimitMicroUSD item - used)
     in if remaining \<le> 0 then ret (Some (blocked_result item state used))
        else if ri_EstimatedCostMicroUSD input > remaining \<and> used > 0
        then ret (Some (blocked_result item state used))
        else let reservationAmount =
               (if ri_EstimatedCostMicroUSD input > remaining then remaining
                else ri_EstimatedCostMicroUSD input)
        in if reservationAmount = 0 then ret None
           else andThen (reserve_on_counter (st_ID state) reservationAmount now) (\<lambda>_.
             andThen new_uuid (\<lambda>i.
             andThen (insert_reservation
               \<lparr>rs_ID = i, rs_RequestID = ri_RequestID input, rs_OrgID = ri_OrgID input,
                rs_ApiKeyID = ri_APIKeyID input, rs_ScopeType = cs_ScopeType item,
                rs_ScopeID = cs_ScopeID item, rs_Period = cs_Period item,
                rs_WindowStart = windowStart, rs_WindowEnd = windowEnd,
                rs_ReservedMicroUsd = reservationAmount, rs_SettledMicroUsd = 0,
                rs_Status = ''reserved'', rs_CreatedAt = now, rs_UpdatedAt = now\<rparr>) (\<lambda>_.
             ret None))))"

definition reserve_one :: "ReserveInput \<Rightarrow> time \<Rightarrow> limit_constraint \<Rightarrow> ReserveResult option act" where
  "reserve_one input now item =
     andThen (lift (periodWindow now (cs_Period item))) (\<lambda>(windowStart, windowEnd).
     andThen (ensureAndLockCounter (ri_OrgID input) (ri_APIKeyID input) item windowStart windowEnd now)
       (reserve_on_limit input now item windowStart windowEnd))"

fun reserve_loop :: "ReserveInput \<Rightarrow> time \<Rightarrow> limit_constraint list \<Rightarrow> (bool \<times> ReserveResult) act" where
  "reserve_loop input now [] = ret (True, allowed_result)"
| "reserve_loop input now (item # items) =
     andThen (reserve_one input now item) (\<lambda>r. case r of
         Some blocked \<Rightarrow> ret (False, blocked)
       | None \<Rightarrow> reserve_loop input now items)"

definition reserve_body :: "ReserveInput \<Rightarrow> (bool \<times> ReserveResult) act" where
  "reserve_body input =
     andThen (loadBlockingConstraints (ri_OrgID input) (ri_APIKeyID input)) (\<lambda>constraints.
       if constraints = [] then ret (True, allowed_result)
       else andThen clock_now (\<lambda>now. reserve_loop input now constraints))"

definition Reserve :: "ReserveInput \<Rightarrow> ReserveResult act" where
  "Reserve input =
     (if ri_RequestID input = uuid_Nil then fail (ErrMsg ''request_id is required'')
      else if ri_OrgID input = uuid_Nil then fail (ErrMsg ''org_id is required'')
      else if ri_APIKeyID input = uuid_Nil then fail (ErrMsg ''api_key_id is required'')
      else if ri_EstimatedCostMicroUSD input < 0
      then fail (ErrMsg ''estimated_cost_micro_usd must be non-negative'')
      else with_tx (reserve_body input))"

section \<open>Settle and release\<close>

definition is_outstanding :: "uuid \<Rightarrow> CostReservation \<Rightarrow> bool" where
  "is_outstanding requestID r \<longleftrightarrow> rs_RequestID r = requestID \<and> rs_Status r = ''reserved''"

definition select_reservations :: "uuid \<Rightarrow> CostReservation list act" where
  "select_reservations requestID = db_read (\<lambda>db. Inr (filter (is_outstanding requestID) (cost_reservations db)))"

definition settle_counter :: "int \<Rightarrow> int \<Rightarrow> time \<Rightarrow> CostLimitCounter \<Rightarrow> CostLimitCounter" where
  "settle_counter held actual now c =
     c\<lparr>cc_ReservedMicroUsd := max (cc_ReservedMicroUsd c - held) 0,
       cc_SettledMicroUsd := cc_SettledMicroUsd c + actual, cc_UpdatedAt := now\<rparr>"

definition release_counter :: "int \<Rightarrow> time \<Rightarrow> CostLimitCounter \<Rightarrow> CostLimitCounter" where
  "release_counter held now c =
     c\<lparr>cc_ReservedMicroUsd := max (cc_ReservedMicroUsd c - held) 0, cc_UpdatedAt := now\<rparr>"

fun settle_loop :: "CostReservation list \<Rightarrow> int \<Rightarrow> time \<Rightarrow> unit act" where
  "settle_loop [] actual now = ret ()"
| "settle_loop (r # rs) actual now =
     andThen (update_counters (\<lambda>c. counter_key c = reservation_key r)
       (settle_counter (rs_ReservedMicroUsd r) actual now)) (\<lambda>_. settle_loop rs actual now)"

fun release_loop :: "CostReservation list \<Rightarrow> time \<Rightarrow> unit act" where
  "release_loop [] now = ret ()"
| "release_loop (r # rs) now =
     andThen (update_counters (\<lambda>c. counter_key c = reservation_key r)
       (release_counter (rs_ReservedMicroUsd r) now)) (\<lambda>_. release_loop rs now)"

definition mark_settled :: "uuid \<Rightarrow> int \<Rightarrow> time \<Rightarrow> unit act" where
  "mark_settled requestID actual now = db_exec (\<lambda>db. Inr ((), db\<lparr>cost_reservations :=
     update_rows (is_outstanding requestID)
       (\<lambda>r. r\<lparr>rs_Status := ''settled'', rs_SettledMicroUsd := actual, rs_UpdatedAt := now\<rparr>) (cost_reservations db)\<rparr>))"

definition mark_released :: "uuid \<Rightarrow> time \<Rightarrow> unit act" where
  "mark_released requestID now = db_exec (\<lambda>db. Inr ((), db\<lparr>cost_reservations :=
     update_rows (is_outstanding requestID)
       (\<lambda>r. r\<lparr>rs_Status := ''released'', rs_UpdatedAt := now\<rparr>) (cost_reservations db)\<rparr>))"

definition SettleTx :: "uuid \<Rightarrow> int \<Rightarrow> time \<Rightarrow> unit act" where
  "SettleTx requestID actual now =
     (if requestID = uuid_Nil then fail (ErrMsg ''request_id is required'')
      else if actual < 0 then fail (ErrMsg ''actual_cost_micro_usd must be non-negative'')
      else andThen (select_reservations requestID) (\<lambda>reservations.
        andThen (settle_loop reservations actual now) (\<lambda>_. mark_settled requestID actual now)))"

definition ReleaseTx :: "uuid \<Rightarrow> time \<Rightarrow> unit act" where
  "ReleaseTx requestID now =
     (if requestID = uuid_Nil then fail (ErrMsg ''request_id is required'')
      else andThen (select_reservations requestID) (\<lambda>reservations.
        andThen (release_loop reservations now) (\<lambda>_. mark_released requestID now)))"

definition Settle :: "uuid \<Rightarrow> int \<Rightarrow> unit act" where
  "Settle requestID actual =
     (if actual < 0 then fail (ErrMsg ''actual_cost_micro_usd must be non-negative'')
      else ExecTx (andThen clock_now (SettleTx requestID actual)))"

definition Release :: "uuid \<Rightarrow> unit act" where
  "Release requestID = ExecTx (andThen clock_now (ReleaseTx requestID))"

section \<open>The windows of a limit\<close>

lemma periodWindow_eq: "periodWindow now p =
  (if p = PeriodDaily then Inr (day_window now) else if p = PeriodMonthly then Inr (month_window now)
   else Inl (ErrMsg ''unsupported cost reservation period''))"
  by (simp add: periodWindow_def day_window_def month_window_def Let_def)

interpretation limit_window: period_windows periodWindow
  by unfold_locales
    (auto simp: periodWindow_eq dest: day_window_contains month_window_contains
       intro: day_window_const month_window_const split: if_splits)

section \<open>The ledger\<close>

text \<open>
  The reservations that are still outstanding on a counter, and the invariant of the two tables:
  counters are identified by their key, and a counter's \<^verbatim>\<open>reserved_micro_usd\<close> is the sum of the
  outstanding reservations on it.
\<close>

definition is_pending :: "counter_key \<Rightarrow> CostReservation \<Rightarrow> bool" where
  "is_pending k r \<longleftrightarrow> reservation_key r = k \<and> rs_Status r = ''reserved''"

definition held :: "CostReservation list \<Rightarrow> counter_key \<Rightarrow> int" where
  "held rs k = sum_list (map rs_ReservedMicroUsd (filter (is_pending k) rs))"

definition counter_ok :: "CostReservation list \<Rightarrow> CostLimitCounter \<Rightarrow> bool" where
  "counter_ok rs c \<longleftrightarrow> cc_ReservedMicroUsd c = held rs (counter_key c) \<and>
     0 \<le> cc_SettledMicroUsd c \<and> counter_in_range c"

text \<open>The unique key of \<^verbatim>\<open>cost_reservations\<close>.\<close>

definition reservation_slot :: "CostReservation \<Rightarrow> uuid \<times> string \<times> uuid \<times> string \<times> time" where
  "reservation_slot r = (rs_RequestID r, rs_ScopeType r, rs_ScopeID r, rs_Period r, rs_WindowStart r)"

definition ledger_ok :: "database \<Rightarrow> bool" where
  "ledger_ok db \<longleftrightarrow>
     distinct (map reservation_slot (cost_reservations db)) \<and>
     distinct (map counter_key (cost_limit_counters db)) \<and>
     distinct (map cc_ID (cost_limit_counters db)) \<and>
     list_all (counter_ok (cost_reservations db)) (cost_limit_counters db) \<and>
     list_all (\<lambda>r. 0 \<le> rs_ReservedMicroUsd r \<and>
       (rs_Status r = ''reserved'' \<longrightarrow>
          reservation_key r \<in> counter_key ` set (cost_limit_counters db))) (cost_reservations db)"

subsection \<open>Closing a request\<close>

text \<open>
  Settling and releasing are the same walk: each outstanding reservation of the request is taken
  off its counter, which may be charged, and leaves the state \<^verbatim>\<open>reserved\<close>. The walk is stated once,
  over the counter update and the reservation update.
\<close>

definition close_counter :: "(CostReservation \<Rightarrow> CostLimitCounter \<Rightarrow> CostLimitCounter) \<Rightarrow>
    CostReservation list \<Rightarrow> CostLimitCounter \<Rightarrow> CostLimitCounter" where
  "close_counter step rs c = fold (\<lambda>r c. if counter_key c = reservation_key r then step r c else c) rs c"

definition close_request :: "(CostReservation \<Rightarrow> CostLimitCounter \<Rightarrow> CostLimitCounter) \<Rightarrow>
    (CostReservation \<Rightarrow> CostReservation) \<Rightarrow> uuid \<Rightarrow> database \<Rightarrow> database" where
  "close_request step mark requestID db = db\<lparr>
     cost_limit_counters := map (close_counter step (filter (is_outstanding requestID) (cost_reservations db)))
       (cost_limit_counters db),
     cost_reservations := update_rows (is_outstanding requestID) mark (cost_reservations db)\<rparr>"

text \<open>The contract of the two updates; \<open>charge\<close> is what a closed reservation adds to the settled cost.\<close>

locale closing =
  fixes step :: "CostReservation \<Rightarrow> CostLimitCounter \<Rightarrow> CostLimitCounter"
    and mark :: "CostReservation \<Rightarrow> CostReservation"
    and charge :: int
  assumes step_key: "counter_key (step r c) = counter_key c"
    and step_ID: "cc_ID (step r c) = cc_ID c"
    and step_reserved: "cc_ReservedMicroUsd (step r c) = max (cc_ReservedMicroUsd c - rs_ReservedMicroUsd r) 0"
    and step_settled: "cc_SettledMicroUsd (step r c) = cc_SettledMicroUsd c + charge"
    and mark_key: "reservation_key (mark r) = reservation_key r"
    and mark_slot: "reservation_slot (mark r) = reservation_slot r"
    and mark_reserved: "rs_ReservedMicroUsd (mark r) = rs_ReservedMicroUsd r"
    and mark_status: "rs_Status (mark r) \<noteq> ''reserved''"
    and charge_nonneg: "0 \<le> charge"
begin

abbreviation taken :: "CostReservation list \<Rightarrow> counter_key \<Rightarrow> int" where
  "taken rs k \<equiv> sum_list (map rs_ReservedMicroUsd (filter (\<lambda>r. reservation_key r = k) rs))"

lemma close_counter_key [simp]: "counter_key (close_counter step rs c) = counter_key c"
  by (induction rs arbitrary: c) (auto simp: close_counter_def step_key)

lemma close_counter_ID [simp]: "cc_ID (close_counter step rs c) = cc_ID c"
  by (induction rs arbitrary: c) (auto simp: close_counter_def step_ID)

lemma taken_nonneg: "\<forall>r \<in> set rs. 0 \<le> rs_ReservedMicroUsd r \<Longrightarrow> 0 \<le> taken rs k"
  by (auto intro!: sum_list_nonneg)

text \<open>As long as the counter holds what is taken off it, \<^verbatim>\<open>GREATEST(..., 0)\<close> never cuts.\<close>

lemma close_counter_reserved:
  assumes "\<forall>r \<in> set rs. 0 \<le> rs_ReservedMicroUsd r" and "taken rs (counter_key c) \<le> cc_ReservedMicroUsd c"
  shows "cc_ReservedMicroUsd (close_counter step rs c) = cc_ReservedMicroUsd c - taken rs (counter_key c)"
  using assms
proof (induction rs arbitrary: c)
  case Nil
  then show ?case by (simp add: close_counter_def)
next
  case (Cons r rs)
  have pos: "0 \<le> taken rs (counter_key c)"
    using Cons.prems(1) by (intro taken_nonneg) simp
  show ?case
  proof (cases "counter_key c = reservation_key r")
    case True
    then show ?thesis
      using Cons.IH [of "step r c"] Cons.prems pos
      by (simp add: close_counter_def step_key step_reserved)
  next
    case False
    then show ?thesis
      using Cons.IH [of c] Cons.prems by (auto simp: close_counter_def)
  qed
qed

lemma close_counter_settled:
  "cc_SettledMicroUsd (close_counter step rs c) =
     cc_SettledMicroUsd c + charge * int (length (filter (\<lambda>r. reservation_key r = counter_key c) rs))"
proof (induction rs arbitrary: c)
  case Nil
  then show ?case by (simp add: close_counter_def)
next
  case (Cons r rs)
  then show ?case
    by (auto simp: close_counter_def step_key step_settled algebra_simps)
qed

text \<open>What a request holds on a counter is part of what the counter holds.\<close>

lemma held_split:
  "held rs k = taken (filter (is_outstanding q) rs) k + held (update_rows (is_outstanding q) mark rs) k"
  by (induction rs)
    (auto simp: held_def is_pending_def is_outstanding_def mark_status mark_key mark_reserved)

lemma held_update_nonneg:
  "\<forall>r \<in> set rs. 0 \<le> rs_ReservedMicroUsd r \<Longrightarrow> 0 \<le> held (update_rows (is_outstanding q) mark rs) k"
  unfolding held_def by (rule sum_list_nonneg) (auto simp: update_rows_def mark_reserved)

lemma close_counter_ok:
  assumes ok: "counter_ok rs c" and pos: "\<forall>r \<in> set rs. 0 \<le> rs_ReservedMicroUsd r"
    and range: "counter_in_range (close_counter step (filter (is_outstanding q) rs) c)"
  shows "counter_ok (update_rows (is_outstanding q) mark rs) (close_counter step (filter (is_outstanding q) rs) c)"
proof -
  let ?k = "counter_key c"
  have split: "held rs ?k = taken (filter (is_outstanding q) rs) ?k + held (update_rows (is_outstanding q) mark rs) ?k"
    by (rule held_split)
  have "cc_ReservedMicroUsd (close_counter step (filter (is_outstanding q) rs) c)
      = cc_ReservedMicroUsd c - taken (filter (is_outstanding q) rs) ?k"
    using pos held_update_nonneg [OF pos, of q ?k] split ok
    by (intro close_counter_reserved) (auto simp: counter_ok_def)
  moreover have "0 \<le> cc_SettledMicroUsd (close_counter step (filter (is_outstanding q) rs) c)"
    using ok charge_nonneg by (simp add: close_counter_settled counter_ok_def)
  ultimately show ?thesis
    using ok range split by (simp add: counter_ok_def)
qed

theorem close_request_ledger_ok:
  assumes ok: "ledger_ok db"
    and range: "list_all counter_in_range (cost_limit_counters (close_request step mark q db))"
  shows "ledger_ok (close_request step mark q db)"
proof -
  let ?rs = "cost_reservations db" and ?cs = "cost_limit_counters db"
  have pos: "\<forall>r \<in> set ?rs. 0 \<le> rs_ReservedMicroUsd r"
    using ok by (auto simp: ledger_ok_def list_all_iff)
  have keys: "map counter_key (map (close_counter step f) ?cs) = map counter_key ?cs"
    "map cc_ID (map (close_counter step f) ?cs) = map cc_ID ?cs"
    "counter_key ` close_counter step f ` set ?cs = counter_key ` set ?cs" for f
    by (auto simp: image_image)
  have "list_all (counter_ok (update_rows (is_outstanding q) mark ?rs))
      (map (close_counter step (filter (is_outstanding q) ?rs)) ?cs)"
    using ok range pos
    by (auto simp: ledger_ok_def list_all_iff close_request_def intro!: close_counter_ok)
  moreover have "list_all (\<lambda>r. 0 \<le> rs_ReservedMicroUsd r \<and>
      (rs_Status r = ''reserved'' \<longrightarrow> reservation_key r \<in> counter_key ` set ?cs))
      (update_rows (is_outstanding q) mark ?rs)"
    using ok by (auto simp: ledger_ok_def list_all_iff update_rows_def mark_reserved mark_status)
  ultimately show ?thesis
    using ok map_update_rows [of reservation_slot mark, OF mark_slot]
    unfolding ledger_ok_def close_request_def by (simp add: keys del: map_map)
qed

text \<open>Nothing stops the walk in a database whose counters have room for the charges.\<close>

definition has_room :: "CostReservation list \<Rightarrow> CostLimitCounter \<Rightarrow> bool" where
  "has_room rs c \<longleftrightarrow> 0 \<le> cc_ReservedMicroUsd c \<and> counter_in_range c \<and> 0 \<le> cc_SettledMicroUsd c \<and>
     cc_SettledMicroUsd c + charge * int (length (filter (\<lambda>r. reservation_key r = counter_key c) rs)) \<le> max_int64"

lemma has_room_step:
  assumes "has_room (r # rs) c" and "0 \<le> rs_ReservedMicroUsd r"
  shows "counter_key c = reservation_key r \<Longrightarrow> has_room rs (step r c)"
    and "counter_key c \<noteq> reservation_key r \<Longrightarrow> has_room rs c"
proof -
  assume key: "counter_key c = reservation_key r"
  define n where "n = charge * int (length (filter (\<lambda>x. reservation_key x = reservation_key r) rs))"
  have "0 \<le> n" using charge_nonneg by (simp add: n_def)
  moreover have "cc_SettledMicroUsd c + charge + n \<le> max_int64"
    using assms(1) key by (simp add: has_room_def n_def algebra_simps)
  ultimately show "has_room rs (step r c)"
    using assms key charge_nonneg unfolding has_room_def
    by (auto simp: step_key step_reserved step_settled counter_in_range_def width_defs n_def [symmetric])
next
  assume "counter_key c \<noteq> reservation_key r"
  then show "has_room rs c" using assms by (auto simp: has_room_def)
qed

text \<open>A closed request has no outstanding reservation; closing it again changes nothing.\<close>

lemma close_request_none_outstanding:
  "filter (is_outstanding q) (cost_reservations (close_request step mark q db)) = []"
  by (auto simp: close_request_def update_rows_def is_outstanding_def mark_status filter_empty_conv)

end

lemma close_request_nothing:
  assumes "filter (is_outstanding q) (cost_reservations db) = []"
  shows "close_request step mark q db = db"
proof -
  have "update_rows (is_outstanding q) mark (cost_reservations db) = cost_reservations db"
    using assms by (auto simp: update_rows_def filter_empty_conv intro!: map_idI)
  moreover have "close_counter step [] = (\<lambda>c. c)"
    by (simp add: close_counter_def fun_eq_iff)
  ultimately show ?thesis
    using assms by (simp add: close_request_def)
qed

subsection \<open>Settle and release as closings\<close>

abbreviation settle_step :: "int \<Rightarrow> time \<Rightarrow> CostReservation \<Rightarrow> CostLimitCounter \<Rightarrow> CostLimitCounter" where
  "settle_step actual now r \<equiv> settle_counter (rs_ReservedMicroUsd r) actual now"

abbreviation release_step :: "time \<Rightarrow> CostReservation \<Rightarrow> CostLimitCounter \<Rightarrow> CostLimitCounter" where
  "release_step now r \<equiv> release_counter (rs_ReservedMicroUsd r) now"

abbreviation settle_mark :: "int \<Rightarrow> time \<Rightarrow> CostReservation \<Rightarrow> CostReservation" where
  "settle_mark actual now r \<equiv> r\<lparr>rs_Status := ''settled'', rs_SettledMicroUsd := actual, rs_UpdatedAt := now\<rparr>"

abbreviation release_mark :: "time \<Rightarrow> CostReservation \<Rightarrow> CostReservation" where
  "release_mark now r \<equiv> r\<lparr>rs_Status := ''released'', rs_UpdatedAt := now\<rparr>"

lemma closing_settle: "0 \<le> actual \<Longrightarrow> closing (settle_step actual now) (settle_mark actual now) actual"
  by unfold_locales (auto simp: settle_counter_def counter_key_def reservation_key_def reservation_slot_def)

interpretation settling: closing "settle_step (int a) now" "settle_mark (int a) now" "int a" for a now
  by (rule closing_settle) simp

interpretation releasing: closing "release_step now" "release_mark now" 0 for now
  by unfold_locales (auto simp: release_counter_def counter_key_def reservation_key_def reservation_slot_def)

lemma update_counters_Inr [act_inr]:
  "update_counters P f E w = (Inr x, w') \<longleftrightarrow>
     \<not> env_fault E (w_step w) \<and>
     list_all (\<lambda>c. P c \<longrightarrow> counter_in_range (f c) \<and> 0 \<le> cc_SettledMicroUsd (f c) \<and> 0 \<le> cc_ReservedMicroUsd (f c))
       (cost_limit_counters (w_db w)) \<and>
     w' = (tick w)\<lparr>w_db := (w_db w)\<lparr>cost_limit_counters := update_rows P f (cost_limit_counters (w_db w))\<rparr>\<rparr>"
  by (auto simp: update_counters_def act_inr Let_def list_ex_iff list_all_iff not_less split: if_splits)

text \<open>The loop of \<^verbatim>\<open>SettleTx\<close> and \<^verbatim>\<open>ReleaseTx\<close> over the counters, for any update.\<close>

fun counter_loop :: "(CostReservation \<Rightarrow> CostLimitCounter \<Rightarrow> CostLimitCounter) \<Rightarrow> CostReservation list \<Rightarrow> unit act" where
  "counter_loop step [] = ret ()"
| "counter_loop step (r # rs) =
     andThen (update_counters (\<lambda>c. counter_key c = reservation_key r) (step r)) (\<lambda>_. counter_loop step rs)"

lemma settle_loop_eq: "settle_loop rs actual now = counter_loop (settle_step actual now) rs"
  by (induction rs) simp_all

lemma release_loop_eq: "release_loop rs now = counter_loop (release_step now) rs"
  by (induction rs) simp_all

lemma counter_loop_db:
  assumes "counter_loop step rs E w = (Inr x, w')"
  shows "w_db w' = (w_db w)\<lparr>cost_limit_counters := map (close_counter step rs) (cost_limit_counters (w_db w))\<rparr>"
  using assms
proof (induction rs arbitrary: w)
  case Nil
  have "close_counter step [] = (\<lambda>c. c)" by (simp add: close_counter_def fun_eq_iff)
  then show ?case using Nil by (simp add: act_inr)
next
  case (Cons r rs)
  have "close_counter step (r # rs) c =
      close_counter step rs (if counter_key c = reservation_key r then step r c else c)" for c
    by (simp add: close_counter_def)
  then show ?case
    using Cons by (auto simp: act_inr update_rows_def)
qed

lemma counter_loop_range:
  assumes "counter_loop step rs E w = (Inr x, w')"
    and "list_all counter_in_range (cost_limit_counters (w_db w))"
  shows "list_all counter_in_range (cost_limit_counters (w_db w'))"
  using assms
proof (induction rs arbitrary: w)
  case Nil
  then show ?case by (simp add: act_inr)
next
  case (Cons r rs)
  let ?w1 = "(tick w)\<lparr>w_db := (w_db w)\<lparr>cost_limit_counters :=
      update_rows (\<lambda>c. counter_key c = reservation_key r) (step r) (cost_limit_counters (w_db w))\<rparr>\<rparr>"
  have "counter_loop step rs E ?w1 = (Inr x, w')"
    and "list_all counter_in_range (cost_limit_counters (w_db ?w1))"
    using Cons.prems by (auto simp: act_inr list_all_iff update_rows_def)
  then show ?case by (rule Cons.IH)
qed

lemma SettleTx_Inr:
  assumes "SettleTx q actual now E w = (Inr x, w')"
  shows "q \<noteq> uuid_Nil" and "0 \<le> actual"
    and "w_db w' = close_request (settle_step actual now) (settle_mark actual now) q (w_db w)"
    and "list_all counter_in_range (cost_limit_counters (w_db w)) \<Longrightarrow>
      list_all counter_in_range (cost_limit_counters (w_db w'))"
proof -
  have tx: "q \<noteq> uuid_Nil \<and> 0 \<le> actual \<and> andThen (select_reservations q) (\<lambda>reservations.
      andThen (settle_loop reservations actual now) (\<lambda>_. mark_settled q actual now)) E w = (Inr x, w')"
    using assms by (auto simp: SettleTx_def act_inr split: if_splits)
  then show "q \<noteq> uuid_Nil" "0 \<le> actual" by auto
  obtain w1 where loop: "counter_loop (settle_step actual now)
        (filter (is_outstanding q) (cost_reservations (w_db w))) E (tick w) = (Inr (), w1)"
    and db: "w_db w' = (w_db w1)\<lparr>cost_reservations :=
        update_rows (is_outstanding q) (settle_mark actual now) (cost_reservations (w_db w1))\<rparr>"
    using tx by (auto simp: act_inr select_reservations_def mark_settled_def settle_loop_eq)
  show "w_db w' = close_request (settle_step actual now) (settle_mark actual now) q (w_db w)"
    using db counter_loop_db [OF loop] by (simp add: close_request_def)
  show "list_all counter_in_range (cost_limit_counters (w_db w'))"
    if "list_all counter_in_range (cost_limit_counters (w_db w))"
    using counter_loop_range [OF loop] that db by simp
qed

lemma ReleaseTx_Inr:
  assumes "ReleaseTx q now E w = (Inr x, w')"
  shows "q \<noteq> uuid_Nil"
    and "w_db w' = close_request (release_step now) (release_mark now) q (w_db w)"
    and "list_all counter_in_range (cost_limit_counters (w_db w)) \<Longrightarrow>
      list_all counter_in_range (cost_limit_counters (w_db w'))"
proof -
  have tx: "q \<noteq> uuid_Nil \<and> andThen (select_reservations q) (\<lambda>reservations.
      andThen (release_loop reservations now) (\<lambda>_. mark_released q now)) E w = (Inr x, w')"
    using assms by (auto simp: ReleaseTx_def act_inr split: if_splits)
  then show "q \<noteq> uuid_Nil" by auto
  obtain w1 where loop: "counter_loop (release_step now)
        (filter (is_outstanding q) (cost_reservations (w_db w))) E (tick w) = (Inr (), w1)"
    and db: "w_db w' = (w_db w1)\<lparr>cost_reservations :=
        update_rows (is_outstanding q) (release_mark now) (cost_reservations (w_db w1))\<rparr>"
    using tx by (auto simp: act_inr select_reservations_def mark_released_def release_loop_eq)
  show "w_db w' = close_request (release_step now) (release_mark now) q (w_db w)"
    using db counter_loop_db [OF loop] by (simp add: close_request_def)
  show "list_all counter_in_range (cost_limit_counters (w_db w'))"
    if "list_all counter_in_range (cost_limit_counters (w_db w))"
    using counter_loop_range [OF loop] that db by simp
qed

lemma ledger_range: "ledger_ok db \<Longrightarrow> list_all counter_in_range (cost_limit_counters db)"
  by (auto simp: ledger_ok_def counter_ok_def list_all_iff)

lemma keeps_SettleTx: "keeps_ok ledger_ok (SettleTx q actual now)"
proof (rule keeps_okI)
  fix E x and w w' :: world
  assume ok: "ledger_ok (w_db w)" and run: "SettleTx q actual now E w = (Inr x, w')"
  note facts = SettleTx_Inr [OF run]
  show "ledger_ok (w_db w')"
    using closing.close_request_ledger_ok [OF closing_settle [OF facts(2)] ok, of now q]
      facts(3) facts(4) [OF ledger_range [OF ok]] by simp
qed

lemma keeps_ReleaseTx: "keeps_ok ledger_ok (ReleaseTx q now)"
proof (rule keeps_okI)
  fix E x and w w' :: world
  assume ok: "ledger_ok (w_db w)" and run: "ReleaseTx q now E w = (Inr x, w')"
  note facts = ReleaseTx_Inr [OF run]
  show "ledger_ok (w_db w')"
    using releasing.close_request_ledger_ok [OF ok, of now q]
      facts(2) facts(3) [OF ledger_range [OF ok]] by simp
qed

lemma keeps_Settle: "keeps ledger_ok (Settle q actual)"
  unfolding Settle_def
  by (intro keeps_if keeps_fail keeps_ExecTx_ok keeps_ok_andThen keeps_SettleTx keeps_imp_ok [OF keeps_clock])

lemma keeps_Release: "keeps ledger_ok (Release q)"
  unfolding Release_def
  by (intro keeps_ExecTx_ok keeps_ok_andThen keeps_ReleaseTx keeps_imp_ok [OF keeps_clock])

subsection \<open>Reserving on a counter\<close>

definition counter_for :: "database \<Rightarrow> counter_key \<Rightarrow> CostLimitCounter option" where
  "counter_for db k = List.find (\<lambda>c. counter_key c = k) (cost_limit_counters db)"

definition counter_total :: "CostLimitCounter \<Rightarrow> int" where
  "counter_total c = cc_SettledMicroUsd c + cc_ReservedMicroUsd c"

text \<open>
  What a limit has used in a window: the counter's total, or the recorded cost from which the
  counter will be created.
\<close>

definition limit_used :: "database \<Rightarrow> ReserveInput \<Rightarrow> limit_constraint \<Rightarrow> time \<Rightarrow> time \<Rightarrow> int" where
  "limit_used db input item s e =
     (case counter_for db (item_key (ri_OrgID input) item s) of
        Some c \<Rightarrow> counter_total c
      | None \<Rightarrow> initial_settled db (ri_OrgID input) (cs_ScopeType item) (ri_APIKeyID input) s e)"

definition counters_fit :: "database \<Rightarrow> bool" where
  "counters_fit db \<longleftrightarrow> list_all (\<lambda>c. counter_total c \<le> max_int64) (cost_limit_counters db)"

text \<open>The admission rule: something is left, and the estimate fits unless nothing was used yet.\<close>

definition admits :: "int \<Rightarrow> int \<Rightarrow> int \<Rightarrow> bool" where
  "admits limit used estimate \<longleftrightarrow> used < limit \<and> (used + estimate \<le> limit \<or> used = 0)"

lemma counter_for_Some: "counter_for db k = Some c \<Longrightarrow> c \<in> set (cost_limit_counters db) \<and> counter_key c = k"
  by (auto simp: counter_for_def dest: find_Some_in)

lemma counter_for_None: "counter_for db k = None \<longleftrightarrow> k \<notin> counter_key ` set (cost_limit_counters db)"
  by (auto simp: counter_for_def find_None_iff)

lemma find_distinct_key:
  "distinct (map f xs) \<Longrightarrow> x \<in> set xs \<Longrightarrow> f x = k \<Longrightarrow> List.find (\<lambda>y. f y = k) xs = Some x"
  by (induction xs) (auto simp: rev_image_eqI)

lemma counter_for_unique:
  "ledger_ok db \<Longrightarrow> c \<in> set (cost_limit_counters db) \<Longrightarrow> counter_for db (counter_key c) = Some c"
  by (auto simp: counter_for_def ledger_ok_def intro!: find_distinct_key)

lemma held_none: "ledger_ok db \<Longrightarrow> k \<notin> counter_key ` set (cost_limit_counters db) \<Longrightarrow>
    held (cost_reservations db) k = 0"
  unfolding held_def ledger_ok_def list_all_iff
  by (subst filter_False) (auto simp: is_pending_def)

lemma held_nonneg: "ledger_ok db \<Longrightarrow> 0 \<le> held (cost_reservations db) k"
  unfolding held_def by (rule sum_list_nonneg) (auto simp: ledger_ok_def list_all_iff)

lemma counter_total_nonneg:
  "ledger_ok db \<Longrightarrow> c \<in> set (cost_limit_counters db) \<Longrightarrow> 0 \<le> counter_total c"
  using held_nonneg [of db "counter_key c"]
  by (auto simp: ledger_ok_def counter_ok_def counter_total_def list_all_iff)

text \<open>The new counter of \<^verbatim>\<open>ensureAndLockCounter\<close>.\<close>

lemma ledger_ok_new_counter:
  assumes ok: "ledger_ok db" and key: "counter_for db (counter_key c) = None"
    and ID: "cc_ID c \<notin> cc_ID ` set (cost_limit_counters db)"
    and c: "cc_ReservedMicroUsd c = 0" "0 \<le> cc_SettledMicroUsd c" "in_int64 (cc_SettledMicroUsd c)"
  shows "ledger_ok (db\<lparr>cost_limit_counters := cost_limit_counters db @ [c]\<rparr>)"
proof -
  have "held (cost_reservations db) (counter_key c) = 0"
    using ok key by (intro held_none) (simp_all add: counter_for_None)
  then have "counter_ok (cost_reservations db) c"
    using c by (simp add: counter_ok_def counter_in_range_def in_int64_def)
  then show ?thesis
    using ok key ID by (auto simp: ledger_ok_def counter_for_None list_all_iff)
qed

lemma insert_counter_Inr:
  fixes apiKeyID :: uuid
  assumes "insert_counter c apiKeyID E w = (Inr x, w')"
  defines "v \<equiv> initial_settled (w_db w) (cc_OrgID c) (cc_ScopeType c) apiKeyID (cc_WindowStart c) (cc_WindowEnd c)"
  shows "w_db w' = w_db w \<or>
    in_int64 v \<and> 0 \<le> v \<and> counter_for (w_db w) (counter_key c) = None \<and>
    cc_ID c \<notin> cc_ID ` set (cost_limit_counters (w_db w)) \<and>
    w_db w' = (w_db w)\<lparr>cost_limit_counters := cost_limit_counters (w_db w) @
      [c\<lparr>cc_SettledMicroUsd := v, cc_ReservedMicroUsd := 0\<rparr>]\<rparr>"
  using assms(1) unfolding insert_counter_def db_exec_Inr v_def [symmetric]
  by (cases "in_int64 v") (auto simp: Let_def pg_bigint_def counter_for_None list_ex_iff split: if_splits)

lemma select_counter_Inr:
  assumes "select_counter k E w = (Inr st, w')"
  obtains c where "c \<in> set (cost_limit_counters (w_db w))" "counter_key c = k" "w_db w' = w_db w"
    "st = \<lparr>st_ID = cc_ID c, st_SettledMicroUSD = cc_SettledMicroUsd c, st_ReservedMicroUSD = cc_ReservedMicroUsd c\<rparr>"
  using assms by (auto simp: select_counter_def act_inr split: sum.splits dest!: first_row_Inr)

lemma ensureAndLockCounter_Inr:
  assumes ok: "ledger_ok (w_db w)"
    and run: "ensureAndLockCounter orgID apiKeyID item s e now E w = (Inr st, w')"
  obtains c where "counter_for (w_db w') (item_key orgID item s) = Some c"
    and "st = \<lparr>st_ID = cc_ID c, st_SettledMicroUSD = cc_SettledMicroUsd c, st_ReservedMicroUSD = cc_ReservedMicroUsd c\<rparr>"
    and "ledger_ok (w_db w')"
    and "w_db w' = w_db w \<or> counter_for (w_db w) (item_key orgID item s) = None \<and>
      w_db w' = (w_db w)\<lparr>cost_limit_counters := cost_limit_counters (w_db w) @ [c]\<rparr> \<and>
      counter_total c = initial_settled (w_db w) orgID (cs_ScopeType item) apiKeyID s e \<and>
      counter_total c \<le> max_int64"
proof -
  let ?k = "item_key orgID item s"
  let ?v = "initial_settled (w_db w) orgID (cs_ScopeType item) apiKeyID s e"
  define new where "new = (\<lambda>v. \<lparr>cc_ID = env_uuid E (w_step w), cc_OrgID = orgID, cc_ScopeType = cs_ScopeType item,
        cc_ScopeID = cs_ScopeID item, cc_Period = cs_Period item, cc_WindowStart = s,
        cc_WindowEnd = e, cc_SettledMicroUsd = v, cc_ReservedMicroUsd = 0,
        cc_CreatedAt = now, cc_UpdatedAt = now\<rparr>)"
  have key: "counter_key (new v) = ?k" for v by (simp add: new_def counter_key_def item_key_def)
  obtain w1 where ins: "insert_counter (new 0) apiKeyID E (tick w) = (Inr (), w1)"
    and sel: "select_counter ?k E w1 = (Inr st, w')"
    using run by (auto simp: ensureAndLockCounter_def act_inr new_def)
  obtain c where c: "c \<in> set (cost_limit_counters (w_db w'))" "counter_key c = ?k"
    and db1: "w_db w' = w_db w1"
    and st: "st = \<lparr>st_ID = cc_ID c, st_SettledMicroUSD = cc_SettledMicroUsd c, st_ReservedMicroUSD = cc_ReservedMicroUsd c\<rparr>"
    using sel by (metis select_counter_Inr)
  have "w_db w' = w_db w \<or> in_int64 ?v \<and> 0 \<le> ?v \<and> counter_for (w_db w) ?k = None \<and>
      cc_ID (new ?v) \<notin> cc_ID ` set (cost_limit_counters (w_db w)) \<and>
      w_db w' = (w_db w)\<lparr>cost_limit_counters := cost_limit_counters (w_db w) @ [new ?v]\<rparr>"
    using insert_counter_Inr [OF ins] key [of 0] by (simp add: db1 new_def)
  then show thesis
  proof (elim disjE conjE)
    assume same: "w_db w' = w_db w"
    show thesis
      using that [of c] same c st ok counter_for_unique [OF ok, of c] by simp
  next
    assume v: "in_int64 ?v" "0 \<le> ?v" and none: "counter_for (w_db w) ?k = None"
      and ID: "cc_ID (new ?v) \<notin> cc_ID ` set (cost_limit_counters (w_db w))"
      and db': "w_db w' = (w_db w)\<lparr>cost_limit_counters := cost_limit_counters (w_db w) @ [new ?v]\<rparr>"
    have "c \<notin> set (cost_limit_counters (w_db w))"
      using c(2) none by (metis counter_for_None imageI)
    then have eq: "c = new ?v"
      using c db' by auto
    have ok': "ledger_ok (w_db w')"
      unfolding db' using ok none key [of ?v] ID v
      by (intro ledger_ok_new_counter) (auto simp: new_def)
    have "counter_total c = ?v" "?v \<le> max_int64"
      using v eq by (auto simp: counter_total_def width_defs new_def)
    then show thesis
      using that [of c] st ok' none db' eq counter_for_unique [OF ok' c(1)] c(2) by simp
  qed
qed

text \<open>A reservation placed on the counter found.\<close>

lemma held_append: "held (rs @ [r]) k = held rs k + (if is_pending k r then rs_ReservedMicroUsd r else 0)"
  by (simp add: held_def)

definition place :: "CostLimitCounter \<Rightarrow> int \<Rightarrow> time \<Rightarrow> CostReservation \<Rightarrow> database \<Rightarrow> database" where
  "place c amount now r db = db\<lparr>
     cost_limit_counters := update_rows (\<lambda>x. cc_ID x = cc_ID c)
       (\<lambda>x. x\<lparr>cc_ReservedMicroUsd := cc_ReservedMicroUsd x + amount, cc_UpdatedAt := now\<rparr>) (cost_limit_counters db),
     cost_reservations := cost_reservations db @ [r]\<rparr>"

lemma ledger_IDs: "ledger_ok db \<Longrightarrow> c \<in> set (cost_limit_counters db) \<Longrightarrow> x \<in> set (cost_limit_counters db) \<Longrightarrow>
    cc_ID x = cc_ID c \<longleftrightarrow> x = c"
  by (auto simp: ledger_ok_def distinct_map inj_on_def)

lemma ledger_keys: "ledger_ok db \<Longrightarrow> c \<in> set (cost_limit_counters db) \<Longrightarrow> x \<in> set (cost_limit_counters db) \<Longrightarrow>
    counter_key x = counter_key c \<longleftrightarrow> x = c"
  by (auto simp: ledger_ok_def distinct_map inj_on_def)

lemma place_counters:
  assumes "ledger_ok db" and "c \<in> set (cost_limit_counters db)"
  shows "cost_limit_counters (place c amount now r db) =
    map (\<lambda>x. if x = c then c\<lparr>cc_ReservedMicroUsd := cc_ReservedMicroUsd c + amount, cc_UpdatedAt := now\<rparr> else x)
      (cost_limit_counters db)"
  using ledger_IDs [OF assms] by (auto simp: place_def update_rows_def)

lemma ledger_ok_place:
  assumes ok: "ledger_ok db" and c: "c \<in> set (cost_limit_counters db)"
    and r: "reservation_key r = counter_key c" "rs_Status r = ''reserved''" "rs_ReservedMicroUsd r = amount"
    and slot: "reservation_slot r \<notin> reservation_slot ` set (cost_reservations db)"
    and amount: "0 \<le> amount" "in_int64 (cc_ReservedMicroUsd c + amount)"
  shows "ledger_ok (place c amount now r db)"
proof -
  let ?c' = "c\<lparr>cc_ReservedMicroUsd := cc_ReservedMicroUsd c + amount, cc_UpdatedAt := now\<rparr>"
  let ?cs = "map (\<lambda>x. if x = c then ?c' else x) (cost_limit_counters db)"
  have keys: "map counter_key ?cs = map counter_key (cost_limit_counters db)"
    "map cc_ID ?cs = map cc_ID (cost_limit_counters db)"
    by (auto simp: counter_key_def)
  have "counter_ok (cost_reservations db @ [r]) x" if "x \<in> set ?cs" for x
  proof -
    have old: "y \<in> set (cost_limit_counters db) \<Longrightarrow> counter_ok (cost_reservations db) y" for y
      using ok by (auto simp: ledger_ok_def list_all_iff)
    consider "x = ?c'" | "x \<in> set (cost_limit_counters db)" "x \<noteq> c" using \<open>x \<in> set ?cs\<close> by (auto split: if_splits)
    then show ?thesis
    proof cases
      case 1
      then show ?thesis
        using old [OF c] r amount
        by (auto simp: counter_ok_def held_append is_pending_def counter_key_def counter_in_range_def)
    next
      case 2
      then show ?thesis
        using old [OF 2(1)] ledger_keys [OF ok c 2(1)] r
        by (auto simp: counter_ok_def held_append is_pending_def)
    qed
  qed
  moreover have "counter_key ` set ?cs = counter_key ` set (cost_limit_counters db)"
    using arg_cong [OF keys(1), of set] by (simp only: set_map)
  ultimately show ?thesis
    using ok c r slot amount unfolding ledger_ok_def place_counters [OF ok c] keys
    by (auto simp: place_def list_all_iff)
qed

lemma counters_fitD: "counters_fit db \<Longrightarrow> c \<in> set (cost_limit_counters db) \<Longrightarrow> counter_total c \<le> max_int64"
  by (auto simp: counters_fit_def list_all_iff)

lemma counter_for_append:
  "counter_for (db\<lparr>cost_limit_counters := cost_limit_counters db @ [c]\<rparr>) k =
     (case counter_for db k of Some x \<Rightarrow> Some x | None \<Rightarrow> if counter_key c = k then Some c else None)"
proof -
  have "List.find P (xs @ [c]) = (case List.find P xs of Some x \<Rightarrow> Some x | None \<Rightarrow> if P c then Some c else None)"
    for P and xs :: "CostLimitCounter list"
    by (induction xs) auto
  then show ?thesis by (simp add: counter_for_def)
qed

lemma counter_for_place:
  assumes ok: "ledger_ok db" and c: "counter_for db k = Some c"
  shows "counter_for (place c amount now r db) k' = (if k' = k
     then Some (c\<lparr>cc_ReservedMicroUsd := cc_ReservedMicroUsd c + amount, cc_UpdatedAt := now\<rparr>)
     else counter_for db k')"
proof -
  let ?c' = "c\<lparr>cc_ReservedMicroUsd := cc_ReservedMicroUsd c + amount, cc_UpdatedAt := now\<rparr>"
  have key: "counter_key ?c' = counter_key c" by (simp add: counter_key_def)
  have mem: "c \<in> set (cost_limit_counters db)" "counter_key c = k" using counter_for_Some [OF c] by auto
  have "List.find (\<lambda>x. counter_key x = k') (map (\<lambda>x. if x = c then ?c' else x) xs) =
      map_option (\<lambda>x. if x = c then ?c' else x) (List.find (\<lambda>x. counter_key x = k') xs)" for xs
    by (induction xs) (auto simp: key)
  then have "counter_for (place c amount now r db) k' =
      map_option (\<lambda>x. if x = c then ?c' else x) (counter_for db k')"
    by (simp add: counter_for_def place_counters [OF ok mem(1)])
  moreover have "counter_for db k' \<noteq> Some c" if "k' \<noteq> k"
    using that mem(2) counter_for_Some by blast
  ultimately show ?thesis
    using c by (cases "counter_for db k'") auto
qed

text \<open>
  What one iteration may change: the counter of its own key, and the tables of the ledger.
\<close>

definition same_elsewhere :: "counter_key \<Rightarrow> database \<Rightarrow> database \<Rightarrow> bool" where
  "same_elsewhere k db db' \<longleftrightarrow> (\<forall>k'. k' \<noteq> k \<longrightarrow> counter_for db' k' = counter_for db k') \<and>
     cost_records db' = cost_records db \<and> usage_records db' = usage_records db"

lemma same_elsewhere_used:
  assumes same: "same_elsewhere k db db'" and other: "item_key (ri_OrgID input) item s \<noteq> k"
  shows "limit_used db' input item s e = limit_used db input item s e"
proof -
  have "counter_for db' (item_key (ri_OrgID input) item s) = counter_for db (item_key (ri_OrgID input) item s)"
    using same other unfolding same_elsewhere_def by blast
  moreover have tables: "cost_records db' = cost_records db" "usage_records db' = usage_records db"
    using same by (simp_all add: same_elsewhere_def)
  moreover have "initial_settled db' org sc key s e = initial_settled db org sc key s e" for org sc key
    unfolding initial_settled_def tables ..
  ultimately show ?thesis by (simp add: limit_used_def split: option.split)
qed

lemma same_elsewhere_trans:
  "same_elsewhere k db db1 \<Longrightarrow> same_elsewhere k db1 db2 \<Longrightarrow> same_elsewhere k db db2"
  by (simp add: same_elsewhere_def)

lemma ensure_used:
  assumes ok: "ledger_ok (w_db w)" "counters_fit (w_db w)"
    and run: "ensureAndLockCounter (ri_OrgID input) (ri_APIKeyID input) item s e now E w = (Inr st, w')"
  obtains c where "counter_for (w_db w') (item_key (ri_OrgID input) item s) = Some c"
    and "st = \<lparr>st_ID = cc_ID c, st_SettledMicroUSD = cc_SettledMicroUsd c, st_ReservedMicroUSD = cc_ReservedMicroUsd c\<rparr>"
    and "ledger_ok (w_db w')" "counters_fit (w_db w')"
    and "counter_total c = limit_used (w_db w) input item s e"
    and "same_elsewhere (item_key (ri_OrgID input) item s) (w_db w) (w_db w')"
proof -
  let ?k = "item_key (ri_OrgID input) item s"
  obtain c where c: "counter_for (w_db w') ?k = Some c"
    "st = \<lparr>st_ID = cc_ID c, st_SettledMicroUSD = cc_SettledMicroUsd c, st_ReservedMicroUSD = cc_ReservedMicroUsd c\<rparr>"
    "ledger_ok (w_db w')" and cases: "w_db w' = w_db w \<or> counter_for (w_db w) ?k = None \<and>
      w_db w' = (w_db w)\<lparr>cost_limit_counters := cost_limit_counters (w_db w) @ [c]\<rparr> \<and>
      counter_total c = initial_settled (w_db w) (ri_OrgID input) (cs_ScopeType item) (ri_APIKeyID input) s e \<and>
      counter_total c \<le> max_int64"
    by (rule ensureAndLockCounter_Inr [OF ok(1) run])
  have "counters_fit (w_db w')"
    using cases ok(2) by (auto simp: counters_fit_def)
  moreover have "counter_total c = limit_used (w_db w) input item s e"
    using cases c(1) by (auto simp: limit_used_def)
  moreover have "same_elsewhere ?k (w_db w) (w_db w')"
    using cases counter_for_Some [OF c(1)]
    by (auto simp: same_elsewhere_def counter_for_append split: option.splits)
  ultimately show thesis using that c by blast
qed

lemma place_Inr:
  assumes "reserve_on_counter (cc_ID c) amount now E w = (Inr x, w1)"
    and "insert_reservation r E w2 = (Inr y, w3)" and "w_db w2 = w_db w1"
  shows "w_db w3 = place c amount now r (w_db w)"
    and "c \<in> set (cost_limit_counters (w_db w)) \<Longrightarrow> in_int64 (cc_ReservedMicroUsd c + amount)"
    and "reservation_slot r \<notin> reservation_slot ` set (cost_reservations (w_db w))"
  using assms by (auto simp: reserve_on_counter_def insert_reservation_def act_inr place_def
      list_all_iff list_ex_iff counter_in_range_def reservation_constraints_def reservation_slot_def)

lemma place_seq_Inr:
  assumes "andThen (reserve_on_counter (cc_ID c) amount now) (\<lambda>_. andThen new_uuid (\<lambda>i.
       andThen (insert_reservation (r i)) (\<lambda>_. ret None))) E w = (Inr res, w')"
    and "c \<in> set (cost_limit_counters (w_db w))"
  obtains i where "res = None" "w_db w' = place c amount now (r i) (w_db w)"
    "in_int64 (cc_ReservedMicroUsd c + amount)"
    "reservation_slot (r i) \<notin> reservation_slot ` set (cost_reservations (w_db w))"
proof -
  obtain w1 i y where run: "reserve_on_counter (cc_ID c) amount now E w = (Inr (), w1)"
    "insert_reservation (r i) E (tick w1) = (Inr y, w')" and "res = None"
    using assms(1) by (auto simp: act_inr)
  then show thesis
    using that place_Inr [OF run] assms(2) by simp
qed

definition limit_ok :: "limit_constraint \<Rightarrow> bool" where
  "limit_ok item \<longleftrightarrow> 0 \<le> cs_LimitMicroUSD item \<and> cs_LimitMicroUSD item \<le> max_int64"

lemma counters_fit_place:
  assumes ok: "ledger_ok db" and c: "c \<in> set (cost_limit_counters db)"
    and fit: "counters_fit db" "counter_total c + amount \<le> max_int64"
  shows "counters_fit (place c amount now r db)"
  using fit unfolding counters_fit_def place_counters [OF ok c]
  by (auto simp: list_all_iff counter_total_def)

definition reservation_of :: "ReserveInput \<Rightarrow> time \<Rightarrow> limit_constraint \<Rightarrow> time \<Rightarrow> time \<Rightarrow> int \<Rightarrow> uuid \<Rightarrow> CostReservation" where
  "reservation_of input now item s e amount i =
     \<lparr>rs_ID = i, rs_RequestID = ri_RequestID input, rs_OrgID = ri_OrgID input,
      rs_ApiKeyID = ri_APIKeyID input, rs_ScopeType = cs_ScopeType item,
      rs_ScopeID = cs_ScopeID item, rs_Period = cs_Period item,
      rs_WindowStart = s, rs_WindowEnd = e, rs_ReservedMicroUsd = amount, rs_SettledMicroUsd = 0,
      rs_Status = ''reserved'', rs_CreatedAt = now, rs_UpdatedAt = now\<rparr>"

text \<open>The three ways an iteration ends, for a counter whose total does not overflow.\<close>

lemma reserve_on_limit_cases:
  fixes item :: limit_constraint
  defines "limit \<equiv> cs_LimitMicroUSD item"
  assumes c: "c \<in> set (cost_limit_counters (w_db w))" "0 \<le> counter_total c" "counter_total c \<le> max_int64"
    and limit: "limit_ok item" and est: "0 \<le> ri_EstimatedCostMicroUSD input"
    and st: "st = \<lparr>st_ID = cc_ID c, st_SettledMicroUSD = cc_SettledMicroUsd c, st_ReservedMicroUSD = cc_ReservedMicroUsd c\<rparr>"
    and run: "reserve_on_limit input now item s e st E w = (Inr res, w')"
  obtains (blocked) "\<not> admits limit (counter_total c) (ri_EstimatedCostMicroUSD input)"
      "res = Some (blocked_result item st (counter_total c))" "w_db w' = w_db w"
    | (zero) "admits limit (counter_total c) (ri_EstimatedCostMicroUSD input)"
      "ri_EstimatedCostMicroUSD input = 0" "res = None" "w_db w' = w_db w"
    | (placed) i amount where "admits limit (counter_total c) (ri_EstimatedCostMicroUSD input)"
      "0 < amount" "amount = min (ri_EstimatedCostMicroUSD input) (limit - counter_total c)" "res = None"
      "w_db w' = place c amount now (reservation_of input now item s e amount i) (w_db w)"
      "in_int64 (cc_ReservedMicroUsd c + amount)"
      "reservation_slot (reservation_of input now item s e amount i) \<notin> reservation_slot ` set (cost_reservations (w_db w))"
proof -
  let ?u = "counter_total c" and ?est = "ri_EstimatedCostMicroUSD input"
  let ?stop = "limit - ?u \<le> 0 \<or> limit - ?u < ?est \<and> 0 < ?u"
  define amount where "amount = (if limit - ?u < ?est then limit - ?u else ?est)"
  have wrap: "wrap64 (st_SettledMicroUSD st + st_ReservedMicroUSD st) = ?u"
    "wrap64 (cs_LimitMicroUSD item - ?u) = limit - ?u"
    using c limit st unfolding limit_def
    by (auto simp: counter_total_def limit_ok_def width_defs intro!: wrap64_id)
  have rest: "(if ?stop then ret (Some (blocked_result item st ?u)) else if amount = 0 then ret None
     else andThen (reserve_on_counter (cc_ID c) amount now) (\<lambda>_. andThen new_uuid (\<lambda>i.
       andThen (insert_reservation (reservation_of input now item s e amount i)) (\<lambda>_. ret None)))) E w = (Inr res, w')"
    using run st unfolding reserve_on_limit_def Let_def wrap amount_def reservation_of_def
    by (simp split: if_splits)
  consider "?stop" | "\<not> ?stop" "amount = 0" | "\<not> ?stop" "amount \<noteq> 0" by blast
  then show thesis
  proof cases
    case 1
    then show ?thesis
      using rest c est by (intro blocked) (auto simp: act_simps admits_def)
  next
    case 2
    then show ?thesis
      using rest c est by (intro zero) (auto simp: act_simps admits_def amount_def split: if_splits)
  next
    case 3
    with rest have "andThen (reserve_on_counter (cc_ID c) amount now) (\<lambda>_. andThen new_uuid (\<lambda>i.
        andThen (insert_reservation (reservation_of input now item s e amount i)) (\<lambda>_. ret None))) E w = (Inr res, w')"
      by (simp only: if_False)
    then obtain i where "res = None" "in_int64 (cc_ReservedMicroUsd c + amount)"
      "w_db w' = place c amount now (reservation_of input now item s e amount i) (w_db w)"
      "reservation_slot (reservation_of input now item s e amount i) \<notin> reservation_slot ` set (cost_reservations (w_db w))"
      using c(1) by (auto elim: place_seq_Inr)
    then show ?thesis
      using 3 c est
      by (intro placed [of amount i]) (auto simp: admits_def amount_def min_def split: if_splits)
  qed
qed

text \<open>One iteration against its specification.\<close>

lemma reserve_one_Inr:
  assumes ok: "ledger_ok (w_db w)" "counters_fit (w_db w)" "limit_ok item"
    and est: "0 \<le> ri_EstimatedCostMicroUSD input"
    and run: "reserve_one input now item E w = (Inr res, w')"
  obtains s e where "periodWindow now (cs_Period item) = Inr (s, e)"
    and "ledger_ok (w_db w')" "counters_fit (w_db w')"
    and "same_elsewhere (item_key (ri_OrgID input) item s) (w_db w) (w_db w')"
    and "res = None \<longleftrightarrow> admits (cs_LimitMicroUSD item) (limit_used (w_db w) input item s e) (ri_EstimatedCostMicroUSD input)"
    and "res = None \<Longrightarrow> \<exists>c. counter_for (w_db w') (item_key (ri_OrgID input) item s) = Some c \<and>
      counter_total c = min (limit_used (w_db w) input item s e + ri_EstimatedCostMicroUSD input) (cs_LimitMicroUSD item)"
    and "\<And>b. res = Some b \<Longrightarrow> \<not> rr_Allowed b"
proof -
  obtain s e st w1 where win: "periodWindow now (cs_Period item) = Inr (s, e)"
    and ens: "ensureAndLockCounter (ri_OrgID input) (ri_APIKeyID input) item s e now E w = (Inr st, w1)"
    and lim: "reserve_on_limit input now item s e st E w1 = (Inr res, w')"
    using run by (auto simp: reserve_one_def act_inr)
  let ?k = "item_key (ri_OrgID input) item s" and ?l = "cs_LimitMicroUSD item"
  let ?u = "limit_used (w_db w) input item s e" and ?est = "ri_EstimatedCostMicroUSD input"
  obtain c where c: "counter_for (w_db w1) ?k = Some c"
    and st: "st = \<lparr>st_ID = cc_ID c, st_SettledMicroUSD = cc_SettledMicroUsd c, st_ReservedMicroUSD = cc_ReservedMicroUsd c\<rparr>"
    and ok1: "ledger_ok (w_db w1)" "counters_fit (w_db w1)"
    and used: "counter_total c = ?u" and same: "same_elsewhere ?k (w_db w) (w_db w1)"
    by (rule ensure_used [OF ok(1,2) ens])
  note mem = counter_for_Some [OF c]
  have u: "0 \<le> counter_total c" "counter_total c \<le> max_int64" "c \<in> set (cost_limit_counters (w_db w1))"
    using counter_total_nonneg [OF ok1(1), of c] counters_fitD [OF ok1(2), of c] mem by auto
  show thesis
  proof (rule reserve_on_limit_cases [OF u(3,1,2) ok(3) est st lim])
    assume "\<not> admits ?l (counter_total c) ?est" "res = Some (blocked_result item st (counter_total c))"
      "w_db w' = w_db w1"
    then show thesis
      using that [OF win] ok1 same used by (simp add: blocked_result_def)
  next
    assume "admits ?l (counter_total c) ?est" "?est = 0" "res = None" "w_db w' = w_db w1"
    then show thesis
      using that [OF win] ok1 same c used by (simp add: admits_def)
  next
    fix i amount
    assume placed: "admits ?l (counter_total c) ?est" "0 < amount" "amount = min ?est (?l - counter_total c)"
      "res = None" "in_int64 (cc_ReservedMicroUsd c + amount)"
      "reservation_slot (reservation_of input now item s e amount i) \<notin> reservation_slot ` set (cost_reservations (w_db w1))"
      and db: "w_db w' = place c amount now (reservation_of input now item s e amount i) (w_db w1)"
    let ?c' = "c\<lparr>cc_ReservedMicroUsd := cc_ReservedMicroUsd c + amount, cc_UpdatedAt := now\<rparr>"
    have "reservation_key (reservation_of input now item s e amount i) = counter_key c"
      using mem by (simp add: reservation_of_def reservation_key_def item_key_def)
    then have "ledger_ok (w_db w')"
      unfolding db using ok1 u(3) placed by (intro ledger_ok_place) (auto simp: reservation_of_def)
    moreover have "counters_fit (w_db w')"
      unfolding db using ok1 u(3) placed(3) ok(3) by (intro counters_fit_place) (auto simp: limit_ok_def)
    moreover have after: "counter_for (w_db w') k' = (if k' = ?k then Some ?c' else counter_for (w_db w1) k')" for k'
      unfolding db by (rule counter_for_place [OF ok1(1) c])
    moreover have "same_elsewhere ?k (w_db w1) (w_db w')"
      using after by (auto simp: same_elsewhere_def db place_def)
    moreover have "counter_total ?c' = min (?u + ?est) ?l"
      using used placed(3) by (auto simp: counter_total_def)
    ultimately show thesis
      using that [OF win] placed used same_elsewhere_trans [OF same] by simp
  qed
qed

text \<open>Two limits of one request have different counters.\<close>

definition limit_slot :: "limit_constraint \<Rightarrow> string \<times> string" where
  "limit_slot item = (cs_ScopeType item, cs_Period item)"

lemma item_key_slot: "limit_slot a \<noteq> limit_slot b \<Longrightarrow> item_key orgID a s \<noteq> item_key orgID b t"
  by (auto simp: item_key_def limit_slot_def)

text \<open>
  The loop: a request goes through exactly when every limit admits it on what was used before
  the call, and then every counter stands at that plus the estimate, capped at the limit.
\<close>

definition admitted_by :: "database \<Rightarrow> ReserveInput \<Rightarrow> time \<Rightarrow> limit_constraint \<Rightarrow> bool" where
  "admitted_by db input now item = (case periodWindow now (cs_Period item) of
     Inl _ \<Rightarrow> False
   | Inr (s, e) \<Rightarrow> admits (cs_LimitMicroUSD item) (limit_used db input item s e) (ri_EstimatedCostMicroUSD input))"

definition reserved_on :: "database \<Rightarrow> database \<Rightarrow> ReserveInput \<Rightarrow> time \<Rightarrow> limit_constraint \<Rightarrow> bool" where
  "reserved_on db db' input now item = (case periodWindow now (cs_Period item) of
     Inl _ \<Rightarrow> False
   | Inr (s, e) \<Rightarrow> (case counter_for db' (item_key (ri_OrgID input) item s) of
       None \<Rightarrow> False
     | Some c \<Rightarrow> counter_total c =
         min (limit_used db input item s e + ri_EstimatedCostMicroUSD input) (cs_LimitMicroUSD item)))"

lemma admitted_by_frame:
  "same_elsewhere (item_key (ri_OrgID input) b s) db db' \<Longrightarrow> limit_slot a \<noteq> limit_slot b \<Longrightarrow>
     admitted_by db' input now a = admitted_by db input now a"
  by (auto simp: admitted_by_def same_elsewhere_used item_key_slot split: sum.splits)

lemma reserved_on_frame:
  "same_elsewhere (item_key (ri_OrgID input) b s) db db1 \<Longrightarrow> limit_slot a \<noteq> limit_slot b \<Longrightarrow>
     reserved_on db1 db' input now a = reserved_on db db' input now a"
  by (auto simp: reserved_on_def same_elsewhere_used item_key_slot split: sum.splits option.splits)

definition untouched :: "ReserveInput \<Rightarrow> limit_constraint list \<Rightarrow> database \<Rightarrow> database \<Rightarrow> bool" where
  "untouched input items db db' \<longleftrightarrow>
     (\<forall>k. (\<forall>item \<in> set items. \<forall>s. k \<noteq> item_key (ri_OrgID input) item s) \<longrightarrow> counter_for db' k = counter_for db k)"

definition loop_spec :: "ReserveInput \<Rightarrow> time \<Rightarrow> limit_constraint list \<Rightarrow> database \<Rightarrow> bool \<Rightarrow> database \<Rightarrow> bool" where
  "loop_spec input now items db allowed db' \<longleftrightarrow>
     (allowed \<longleftrightarrow> (\<forall>item \<in> set items. admitted_by db input now item)) \<and>
     (allowed \<longrightarrow> (\<forall>item \<in> set items. reserved_on db db' input now item) \<and> untouched input items db db')"

lemma reserve_loop_step:
  assumes ok: "ledger_ok (w_db w)" "counters_fit (w_db w)" "0 \<le> ri_EstimatedCostMicroUSD input" "limit_ok a"
    and run: "reserve_loop input now (a # items) E w = (Inr (commit, res), w')"
  obtains (stop) "\<not> admitted_by (w_db w) input now a" "\<not> commit" "\<not> rr_Allowed res" "ledger_ok (w_db w')"
    | (go) w1 s where "admitted_by (w_db w) input now a" "reserved_on (w_db w) (w_db w1) input now a"
      "same_elsewhere (item_key (ri_OrgID input) a s) (w_db w) (w_db w1)" "ledger_ok (w_db w1)"
      "counters_fit (w_db w1)" "reserve_loop input now items E w1 = (Inr (commit, res), w')"
proof -
  obtain r w1 where one: "reserve_one input now a E w = (Inr r, w1)"
    and rest: "(case r of Some b \<Rightarrow> ret (False, b) | None \<Rightarrow> reserve_loop input now items) E w1
      = (Inr (commit, res), w')"
    using run by (auto simp: act_inr)
  from ok(1,2,4,3) one show thesis
  proof (rule reserve_one_Inr)
    fix s e
    assume spec: "periodWindow now (cs_Period a) = Inr (s, e)" "ledger_ok (w_db w1)" "counters_fit (w_db w1)"
      "same_elsewhere (item_key (ri_OrgID input) a s) (w_db w) (w_db w1)"
      "r = None \<longleftrightarrow> admits (cs_LimitMicroUSD a) (limit_used (w_db w) input a s e) (ri_EstimatedCostMicroUSD input)"
      "r = None \<Longrightarrow> \<exists>c. counter_for (w_db w1) (item_key (ri_OrgID input) a s) = Some c \<and>
        counter_total c = min (limit_used (w_db w) input a s e + ri_EstimatedCostMicroUSD input) (cs_LimitMicroUSD a)"
      "\<And>b. r = Some b \<Longrightarrow> \<not> rr_Allowed b"
    show thesis
    proof (cases r)
      case (Some b)
      then show ?thesis
        using spec rest by (intro stop) (auto simp: admitted_by_def act_inr)
    next
      case None
      then show ?thesis
        using spec rest by (intro go [of w1 s]) (auto simp: admitted_by_def reserved_on_def)
    qed
  qed
qed

lemma loop_spec_Cons:
  assumes "admitted_by db input now a" and here: "reserved_on db db1 input now a"
    and same: "same_elsewhere (item_key (ri_OrgID input) a s) db db1"
    and new: "limit_slot a \<notin> limit_slot ` set items"
    and spec: "loop_spec input now items db1 allowed db'"
  shows "loop_spec input now (a # items) db allowed db'"
proof -
  have other: "i \<in> set items \<Longrightarrow> limit_slot i \<noteq> limit_slot a" for i
    using new by (metis imageI)
  have "i \<in> set items \<Longrightarrow> admitted_by db1 input now i = admitted_by db input now i"
    "i \<in> set items \<Longrightarrow> reserved_on db1 db' input now i = reserved_on db db' input now i" for i
    using other admitted_by_frame [OF same] reserved_on_frame [OF same] by auto
  moreover have "reserved_on db db' input now a \<and> untouched input (a # items) db db'"
    if out: "untouched input items db1 db'"
  proof
    have "counter_for db' (item_key (ri_OrgID input) a t) = counter_for db1 (item_key (ri_OrgID input) a t)" for t
      using out other item_key_slot unfolding untouched_def by metis
    then show "reserved_on db db' input now a"
      using here by (auto simp: reserved_on_def split: sum.splits)
    show "untouched input (a # items) db db'"
      using out same unfolding untouched_def same_elsewhere_def by (metis list.set_intros)
  qed
  ultimately show ?thesis
    using assms(1) spec by (auto simp: loop_spec_def)
qed

lemma reserve_loop_Inr:
  assumes "ledger_ok (w_db w)" "counters_fit (w_db w)" and "0 \<le> ri_EstimatedCostMicroUSD input"
    and "\<forall>item \<in> set items. limit_ok item" and "distinct (map limit_slot items)"
    and "reserve_loop input now items E w = (Inr (commit, res), w')"
  shows "commit = rr_Allowed res \<and> ledger_ok (w_db w') \<and>
    loop_spec input now items (w_db w) (rr_Allowed res) (w_db w')"
  using assms
proof (induction items arbitrary: w)
  case Nil
  then show ?case by (simp add: act_inr allowed_result_def loop_spec_def untouched_def)
next
  case (Cons a items)
  from Cons.prems have "limit_ok a" by simp
  from Cons.prems(1-3) this Cons.prems(6) show ?case
  proof (cases rule: reserve_loop_step)
    case stop
    then show ?thesis by (auto simp: loop_spec_def)
  next
    case (go w1 s)
    then have "commit = rr_Allowed res \<and> ledger_ok (w_db w') \<and>
        loop_spec input now items (w_db w1) (rr_Allowed res) (w_db w')"
      using Cons.prems by (intro Cons.IH) auto
    then show ?thesis
      using go Cons.prems(5) by (auto intro!: loop_spec_Cons [of "w_db w" input now a "w_db w1" s])
  qed
qed

subsection \<open>The limits of a request\<close>

definition key_row :: "database \<Rightarrow> uuid \<Rightarrow> uuid \<Rightarrow> ApiKey outcome" where
  "key_row db orgID apiKeyID = first_row (filter (\<lambda>r. ak_OrgID r = orgID \<and> ak_ID r = apiKeyID) (api_keys db))"

definition limits_of :: "database \<Rightarrow> uuid \<Rightarrow> uuid \<Rightarrow> limit_constraint list" where
  "limits_of db orgID apiKeyID = map (\<lambda>(period, limit).
       \<lparr>cs_ScopeType = ScopeTypeOrg, cs_ScopeID = orgID, cs_Period = period, cs_LimitMicroUSD = limit\<rparr>)
       (budget_limits db orgID) @
     (case key_row db orgID apiKeyID of
        Inl _ \<Rightarrow> []
      | Inr k \<Rightarrow> api_key_constraints apiKeyID (ak_DailyCostLimitMicroUsd k)
          (ak_MonthlyCostLimitMicroUsd k) (ak_QuotaAction k))"

lemma key_row_in: "key_row db orgID apiKeyID = Inr k \<Longrightarrow> k \<in> set (api_keys db)"
  unfolding key_row_def by (drule first_row_Inr) simp

text \<open>What the columns of the schema hold: non-negative 64-bit limits.\<close>

definition columns_ok :: "database \<Rightarrow> bool" where
  "columns_ok db \<longleftrightarrow>
     list_all (\<lambda>b. 0 \<le> bg_LimitMicroUsd b \<and> bg_LimitMicroUsd b \<le> max_int64) (budgets db) \<and>
     list_all (\<lambda>k. pred_option (\<lambda>l. 0 \<le> l \<and> l \<le> max_int64) (ak_DailyCostLimitMicroUsd k) \<and>
       pred_option (\<lambda>l. 0 \<le> l \<and> l \<le> max_int64) (ak_MonthlyCostLimitMicroUsd k)) (api_keys db)"

lemma min_list1_in: "xs \<noteq> [] \<Longrightarrow> min_list1 xs \<in> set xs"
proof -
  have "fold min ys x \<in> insert x (set ys)" for x and ys :: "int list"
    by (induction ys arbitrary: x) (force simp: min_def)+
  then show "xs \<noteq> [] \<Longrightarrow> min_list1 xs \<in> set xs"
    by (cases xs) (auto simp: min_list1_def)
qed

lemma min_list1_le: "x \<in> set xs \<Longrightarrow> min_list1 xs \<le> x"
proof -
  have "fold min ys x \<le> x \<and> (\<forall>y \<in> set ys. fold min ys x \<le> y)" for x and ys :: "int list"
    by (induction ys arbitrary: x) (force simp: min_def)+
  then show "x \<in> set xs \<Longrightarrow> min_list1 xs \<le> x"
    by (cases xs) (auto simp: min_list1_def)
qed

lemma limits_of_ok: "columns_ok db \<Longrightarrow> item \<in> set (limits_of db orgID apiKeyID) \<Longrightarrow> limit_ok item"
proof -
  assume cols: "columns_ok db" and item: "item \<in> set (limits_of db orgID apiKeyID)"
  have "0 \<le> l \<and> l \<le> max_int64" if "(p, l) \<in> set (budget_limits db orgID)" for p l
  proof -
    let ?bs = "filter (\<lambda>b. bg_Period b = p) (blocking_budgets db orgID)"
    have "map bg_LimitMicroUsd ?bs \<noteq> []" and l: "l = min_list1 (map bg_LimitMicroUsd ?bs)"
      using that by (auto simp: budget_limits_def filter_empty_conv)
    then have "l \<in> bg_LimitMicroUsd ` set (budgets db)"
      using min_list1_in [of "map bg_LimitMicroUsd ?bs"] by (auto simp: blocking_budgets_def)
    then show ?thesis using cols by (auto simp: columns_ok_def list_all_iff)
  qed
  moreover have "limit_ok item" if "key_row db orgID apiKeyID = Inr k"
    "item \<in> set (api_key_constraints apiKeyID (ak_DailyCostLimitMicroUsd k) (ak_MonthlyCostLimitMicroUsd k) (ak_QuotaAction k))"
    for k
    using that cols key_row_in [OF that(1)]
    by (cases "ak_DailyCostLimitMicroUsd k"; cases "ak_MonthlyCostLimitMicroUsd k")
      (auto simp: limit_ok_def api_key_constraints_def columns_ok_def list_all_iff split: if_splits)
  ultimately show "limit_ok item"
    using item by (cases "key_row db orgID apiKeyID") (auto simp: limits_of_def limit_ok_def)
qed

lemma limits_of_distinct: "distinct (map limit_slot (limits_of db orgID apiKeyID))"
  by (auto simp: limits_of_def limit_slot_def budget_limits_def api_key_constraints_def
      distinct_map inj_on_def comp_def split: option.splits sum.splits)

lemma loadBlockingConstraints_Inr:
  "loadBlockingConstraints orgID apiKeyID E w = (Inr items, w') \<Longrightarrow>
     items = limits_of (w_db w) orgID apiKeyID \<and> w' = tick (tick w)"
  by (auto simp: loadBlockingConstraints_def act_inr GetAPIKey_def limits_of_def key_row_def Let_def)

subsection \<open>Every transaction keeps the ledger\<close>

lemma reservation_of_fields:
  "reservation_key (reservation_of input now item s e amount i) = item_key (ri_OrgID input) item s"
  "rs_Status (reservation_of input now item s e amount i) = ''reserved''"
  "rs_ReservedMicroUsd (reservation_of input now item s e amount i) = amount"
  by (simp_all add: reservation_of_def reservation_key_def item_key_def)

lemma reserve_on_limit_ledger:
  assumes ok: "ledger_ok (w_db w)" and est: "0 \<le> ri_EstimatedCostMicroUSD input"
    and c: "counter_for (w_db w) (item_key (ri_OrgID input) item s) = Some c"
    and st: "st = \<lparr>st_ID = cc_ID c, st_SettledMicroUSD = cc_SettledMicroUsd c, st_ReservedMicroUSD = cc_ReservedMicroUsd c\<rparr>"
    and run: "reserve_on_limit input now item s e st E w = (Inr res, w')"
  shows "ledger_ok (w_db w')"
proof -
  note mem = counter_for_Some [OF c]
  let ?used = "wrap64 (st_SettledMicroUSD st + st_ReservedMicroUSD st)"
  let ?rem = "wrap64 (cs_LimitMicroUSD item - ?used)"
  define amount where "amount = (if ri_EstimatedCostMicroUSD input > ?rem then ?rem else ri_EstimatedCostMicroUSD input)"
  consider "w' = w" | "0 < amount" "andThen (reserve_on_counter (cc_ID c) amount now) (\<lambda>_. andThen new_uuid (\<lambda>i.
      andThen (insert_reservation (reservation_of input now item s e amount i)) (\<lambda>_. ret None))) E w = (Inr res, w')"
    using run st est unfolding reserve_on_limit_def Let_def amount_def reservation_of_def
    by (simp add: ret_Inr split: if_splits)
  then show ?thesis
  proof cases
    case 2
    then obtain i where "w_db w' = place c amount now (reservation_of input now item s e amount i) (w_db w)"
      "in_int64 (cc_ReservedMicroUsd c + amount)"
      "reservation_slot (reservation_of input now item s e amount i) \<notin> reservation_slot ` set (cost_reservations (w_db w))"
      using mem by (auto elim: place_seq_Inr)
    then show ?thesis
      using ok mem 2(1) by (auto intro!: ledger_ok_place simp: reservation_of_fields)
  qed (use ok in simp)
qed

lemma keeps_reserve_one:
  assumes "0 \<le> ri_EstimatedCostMicroUSD input"
  shows "keeps_ok ledger_ok (reserve_one input now item)"
proof (rule keeps_okI)
  fix E res and w w' :: world
  assume ok: "ledger_ok (w_db w)" and run: "reserve_one input now item E w = (Inr res, w')"
  obtain s e st w1 where
    ens: "ensureAndLockCounter (ri_OrgID input) (ri_APIKeyID input) item s e now E w = (Inr st, w1)"
    and lim: "reserve_on_limit input now item s e st E w1 = (Inr res, w')"
    using run by (auto simp: reserve_one_def act_inr)
  from ok ens show "ledger_ok (w_db w')"
    by (rule ensureAndLockCounter_Inr) (metis assms lim reserve_on_limit_ledger)
qed

lemma keeps_reserve_loop:
  "0 \<le> ri_EstimatedCostMicroUSD input \<Longrightarrow> keeps_ok ledger_ok (reserve_loop input now items)"
  by (induction items)
    (auto intro!: keeps_ok_andThen keeps_reserve_one intro: keeps_imp_ok [OF keeps_ret] split: option.splits)

lemma keeps_load: "keeps I (loadBlockingConstraints orgID apiKeyID)"
  unfolding loadBlockingConstraints_def GetAPIKey_def by (intro keeps_rules)

lemma keeps_Reserve: "keeps ledger_ok (Reserve input)"
proof -
  have "keeps ledger_ok (with_tx (reserve_body input))" if "0 \<le> ri_EstimatedCostMicroUSD input"
    unfolding reserve_body_def using that
    by (intro keeps_with_tx_ok keeps_ok_andThen)
      (auto intro!: keeps_ok_andThen keeps_reserve_loop intro: keeps_imp_ok [OF keeps_load]
         keeps_imp_ok [OF keeps_ret] keeps_imp_ok [OF keeps_clock])
  then show ?thesis
    unfolding Reserve_def by (intro keeps_if keeps_fail) simp
qed

text \<open>
  The reservation protocol as a transition system: any number of gateway processes reserve,
  settle and release in any order, each call against its own environment, so each may fail at
  any statement.
\<close>

inductive cost_step :: "database \<Rightarrow> database \<Rightarrow> bool" where
  reserve: "Reserve input E w = (r, w') \<Longrightarrow> cost_step (w_db w) (w_db w')"
| settle: "Settle q actual E w = (u, w') \<Longrightarrow> cost_step (w_db w) (w_db w')"
| release: "Release q E w = (u, w') \<Longrightarrow> cost_step (w_db w) (w_db w')"

inductive_cases cost_stepE: "cost_step db db'"

inductive cost_reachable :: "database \<Rightarrow> database \<Rightarrow> bool" for db0 where
  start: "cost_reachable db0 db0"
| step: "cost_reachable db0 db \<Longrightarrow> cost_step db db' \<Longrightarrow> cost_reachable db0 db'"

lemma cost_step_ledger: "cost_step db db' \<Longrightarrow> ledger_ok db \<Longrightarrow> ledger_ok db'"
  by (erule cost_stepE) (auto dest: keepsD [OF keeps_Reserve] keepsD [OF keeps_Settle] keepsD [OF keeps_Release])

subsection \<open>A request is charged once\<close>

definition outstanding_on :: "database \<Rightarrow> uuid \<Rightarrow> counter_key \<Rightarrow> CostReservation list" where
  "outstanding_on db q k = filter (\<lambda>r. reservation_key r = k) (filter (is_outstanding q) (cost_reservations db))"

definition request_share :: "database \<Rightarrow> uuid \<Rightarrow> counter_key \<Rightarrow> int" where
  "request_share db q k = sum_list (map rs_ReservedMicroUsd (outstanding_on db q k))"

lemma distinct_const_length: "distinct (map f xs) \<Longrightarrow> \<forall>x \<in> set xs. f x = a \<Longrightarrow> length xs \<le> 1"
  by (cases xs; cases "tl xs") auto

lemma outstanding_once: "ledger_ok db \<Longrightarrow> length (outstanding_on db q k) \<le> 1"
proof -
  assume "ledger_ok db"
  then have "distinct (map reservation_slot (outstanding_on db q k))"
    by (simp add: ledger_ok_def outstanding_on_def distinct_map_filter)
  moreover have "\<forall>r \<in> set (outstanding_on db q k). reservation_slot r = (q, snd k)"
    by (auto simp: outstanding_on_def is_outstanding_def reservation_slot_def reservation_key_def)
  ultimately show ?thesis by (rule distinct_const_length)
qed

lemma update_counters_healthy:
  "healthy E \<Longrightarrow> list_all (\<lambda>c. P c \<longrightarrow> counter_in_range (f c) \<and> 0 \<le> cc_SettledMicroUsd (f c) \<and> 0 \<le> cc_ReservedMicroUsd (f c))
       (cost_limit_counters (w_db w)) \<Longrightarrow>
     update_counters P f E w =
       (Inr (), (tick w)\<lparr>w_db := (w_db w)\<lparr>cost_limit_counters := update_rows P f (cost_limit_counters (w_db w))\<rparr>\<rparr>)"
  by (simp add: update_counters_Inr)

context closing begin

lemma counter_loop_total:
  assumes "healthy E" and "\<forall>r \<in> set rs. 0 \<le> rs_ReservedMicroUsd r"
    and "list_all (has_room rs) (cost_limit_counters (w_db w))"
  shows "\<exists>w'. counter_loop step rs E w = (Inr (), w')"
  using assms
proof (induction rs arbitrary: w)
  case Nil
  then show ?case by (simp add: act_simps)
next
  case (Cons r rs)
  let ?P = "\<lambda>c. counter_key c = reservation_key r"
  let ?w1 = "(tick w)\<lparr>w_db := (w_db w)\<lparr>cost_limit_counters := update_rows ?P (step r) (cost_limit_counters (w_db w))\<rparr>\<rparr>"
  have hit: "has_room rs (step r c)" if "c \<in> set (cost_limit_counters (w_db w))" "?P c" for c
    using has_room_step(1) [of r rs c] Cons.prems that by (auto simp: list_all_iff)
  have miss: "has_room rs c" if "c \<in> set (cost_limit_counters (w_db w))" "\<not> ?P c" for c
    using has_room_step(2) [of r rs c] Cons.prems that by (auto simp: list_all_iff)
  have "update_counters ?P (step r) E w = (Inr (), ?w1)"
    using Cons.prems(1) hit by (intro update_counters_healthy) (auto simp: list_all_iff has_room_def)
  moreover have "\<exists>w'. counter_loop step rs E ?w1 = (Inr (), w')"
    using Cons.prems(1,2) hit miss by (intro Cons.IH) (auto simp: list_all_iff update_rows_def)
  ultimately show ?case by (auto simp: act_simps)
qed

text \<open>The effect on the counter of a key: the request's share is taken off, the charge added once.\<close>

lemma close_request_effect:
  assumes ok: "ledger_ok db" and c: "counter_for db k = Some c"
  obtains c' where "counter_for (close_request step mark q db) k = Some c'"
    "cc_ReservedMicroUsd c' = cc_ReservedMicroUsd c - request_share db q k"
    "cc_SettledMicroUsd c' = cc_SettledMicroUsd c + (if outstanding_on db q k = [] then 0 else charge)"
proof -
  let ?rs = "filter (is_outstanding q) (cost_reservations db)"
  let ?c' = "close_counter step ?rs c"
  have mem: "c \<in> set (cost_limit_counters db)" "counter_key c = k" using counter_for_Some [OF c] by auto
  have "List.find (\<lambda>x. counter_key x = k) (map (close_counter step ?rs) cs) =
      map_option (close_counter step ?rs) (List.find (\<lambda>x. counter_key x = k) cs)" for cs
    by (induction cs) auto
  then have find: "counter_for (close_request step mark q db) k = Some ?c'"
    using c by (simp add: counter_for_def close_request_def)
  have "0 \<le> held (update_rows (is_outstanding q) mark (cost_reservations db)) k"
    using ok by (intro held_update_nonneg) (auto simp: ledger_ok_def list_all_iff)
  then have "taken ?rs (counter_key c) \<le> cc_ReservedMicroUsd c"
    using held_split [of "cost_reservations db" k q] ok mem
    by (auto simp: ledger_ok_def list_all_iff counter_ok_def)
  then have "cc_ReservedMicroUsd ?c' = cc_ReservedMicroUsd c - request_share db q k"
    using ok mem by (subst close_counter_reserved)
      (auto simp: ledger_ok_def list_all_iff request_share_def outstanding_on_def)
  moreover have "length (outstanding_on db q k) = (if outstanding_on db q k = [] then 0 else 1)"
    using outstanding_once [OF ok, of q k] by (cases "outstanding_on db q k") auto
  then have "cc_SettledMicroUsd ?c' = cc_SettledMicroUsd c + (if outstanding_on db q k = [] then 0 else charge)"
    using mem by (auto simp: close_counter_settled outstanding_on_def)
  ultimately show thesis using that find by blast
qed

lemma has_room_ledger:
  assumes ok: "ledger_ok db" and fit: "list_all (\<lambda>c. cc_SettledMicroUsd c + charge \<le> max_int64) (cost_limit_counters db)"
  shows "list_all (has_room (filter (is_outstanding q) (cost_reservations db))) (cost_limit_counters db)"
proof -
  have "has_room (filter (is_outstanding q) (cost_reservations db)) c" if c: "c \<in> set (cost_limit_counters db)" for c
  proof -
    have "counter_ok (cost_reservations db) c" "cc_SettledMicroUsd c + charge \<le> max_int64"
      using ok fit c by (auto simp: ledger_ok_def list_all_iff)
    moreover have "charge * int (length (outstanding_on db q (counter_key c))) \<le> charge"
      using outstanding_once [OF ok, of q "counter_key c"] charge_nonneg
      by (cases "outstanding_on db q (counter_key c)") auto
    ultimately show ?thesis
      using held_nonneg [OF ok, of "counter_key c"]
      by (auto simp: has_room_def counter_ok_def outstanding_on_def)
  qed
  then show ?thesis by (simp add: list_all_iff)
qed

end

lemma SettleTx_total:
  assumes E: "healthy E" and ok: "ledger_ok (w_db w)" and q: "q \<noteq> uuid_Nil" and a: "0 \<le> actual"
    and fit: "list_all (\<lambda>c. cc_SettledMicroUsd c + actual \<le> max_int64) (cost_limit_counters (w_db w))"
  shows "\<exists>w'. SettleTx q actual now E w = (Inr (), w')"
proof -
  let ?rs = "filter (is_outstanding q) (cost_reservations (w_db w))"
  have "\<forall>r \<in> set ?rs. 0 \<le> rs_ReservedMicroUsd r"
    using ok by (auto simp: ledger_ok_def list_all_iff)
  then obtain w1 where "counter_loop (settle_step actual now) ?rs E (tick w) = (Inr (), w1)"
    using closing.counter_loop_total [OF closing_settle [OF a] E, of ?rs "tick w" now]
      closing.has_room_ledger [OF closing_settle [OF a] ok fit] by auto
  then show ?thesis
    using q a E by (simp add: SettleTx_def select_reservations_def mark_settled_def act_simps settle_loop_eq)
qed

lemma ReleaseTx_total:
  assumes E: "healthy E" and ok: "ledger_ok (w_db w)" and q: "q \<noteq> uuid_Nil"
  shows "\<exists>w'. ReleaseTx q now E w = (Inr (), w')"
proof -
  let ?rs = "filter (is_outstanding q) (cost_reservations (w_db w))"
  have fit: "list_all (\<lambda>c. cc_SettledMicroUsd c + 0 \<le> max_int64) (cost_limit_counters (w_db w))"
    using ledger_range [OF ok] by (simp add: list_all_iff counter_in_range_def width_defs)
  have "\<forall>r \<in> set ?rs. 0 \<le> rs_ReservedMicroUsd r"
    using ok by (auto simp: ledger_ok_def list_all_iff)
  then obtain w1 where "counter_loop (release_step now) ?rs E (tick w) = (Inr (), w1)"
    using releasing.counter_loop_total [OF E, of ?rs "tick w" now] releasing.has_room_ledger [OF ok fit] by auto
  then show ?thesis
    using q E by (simp add: ReleaseTx_def select_reservations_def mark_released_def act_simps release_loop_eq)
qed

lemma Settle_healthy:
  assumes "healthy E" and "ledger_ok (w_db w)" and "q \<noteq> uuid_Nil" and a: "0 \<le> actual"
    and "list_all (\<lambda>c. cc_SettledMicroUsd c + actual \<le> max_int64) (cost_limit_counters (w_db w))"
  obtains w' now where "Settle q actual E w = (Inr (), w')"
    "w_db w' = close_request (settle_step actual now) (settle_mark actual now) q (w_db w)"
proof -
  let ?now = "env_time E (Suc (w_step w))"
  obtain w1 where run: "SettleTx q actual ?now E (tick (tick w)) = (Inr (), w1)"
    using SettleTx_total [of E "tick (tick w)" q actual ?now] assms by auto
  then have "Settle q actual E w = (Inr (), tick w1)"
    using assms(1) a unfolding Settle_def by (auto simp: act_simps intro: ExecTx_healthy)
  then show thesis using that SettleTx_Inr(3) [OF run] by simp
qed

lemma Release_healthy:
  assumes "healthy E" and "ledger_ok (w_db w)" and "q \<noteq> uuid_Nil"
  obtains w' now where "Release q E w = (Inr (), w')"
    "w_db w' = close_request (release_step now) (release_mark now) q (w_db w)"
proof -
  let ?now = "env_time E (Suc (w_step w))"
  obtain w1 where run: "ReleaseTx q ?now E (tick (tick w)) = (Inr (), w1)"
    using ReleaseTx_total [of E "tick (tick w)" q ?now] assms by auto
  then have "Release q E w = (Inr (), tick w1)"
    using assms(1) unfolding Release_def by (auto simp: act_simps intro: ExecTx_healthy)
  then show thesis using that ReleaseTx_Inr(2) [OF run] by simp
qed

lemma Settle_Inr:
  assumes "Settle q actual E w = (Inr x, w')"
  obtains now where "0 \<le> actual" "q \<noteq> uuid_Nil"
    "w_db w' = close_request (settle_step actual now) (settle_mark actual now) q (w_db w)"
proof -
  have "0 \<le> actual" and "ExecTx (andThen clock_now (SettleTx q actual)) E w = (Inr x, w')"
    using assms by (auto simp: Settle_def act_inr split: if_splits)
  then obtain w2 where "andThen clock_now (SettleTx q actual) E (tick w) = (Inr x, w2)" "w' = tick w2"
    by (elim ExecTx_Inr)
  then show thesis
    using that SettleTx_Inr by (auto simp: act_inr)
qed

lemma Release_Inr:
  assumes "Release q E w = (Inr x, w')"
  obtains now where "q \<noteq> uuid_Nil" "w_db w' = close_request (release_step now) (release_mark now) q (w_db w)"
proof -
  obtain w2 where "andThen clock_now (ReleaseTx q) E (tick w) = (Inr x, w2)" "w' = tick w2"
    using assms unfolding Release_def by (elim ExecTx_Inr)
  then show thesis
    using that ReleaseTx_Inr by (auto simp: act_inr)
qed

lemma Reserve_eval:
  assumes E: "healthy E" and ids: "ri_RequestID input \<noteq> uuid_Nil" "ri_OrgID input \<noteq> uuid_Nil"
      "ri_APIKeyID input \<noteq> uuid_Nil" "0 \<le> ri_EstimatedCostMicroUSD input"
    and key: "key_row (w_db w) (ri_OrgID input) (ri_APIKeyID input) = Inr k"
    and some: "limits_of (w_db w) (ri_OrgID input) (ri_APIKeyID input) \<noteq> []"
    and loop: "reserve_loop input (env_time E (w_step w + 3)) (limits_of (w_db w) (ri_OrgID input) (ri_APIKeyID input))
      E (tick (tick (tick (tick w)))) = (Inr (True, r), w2)"
  shows "Reserve input E w = (Inr r, tick w2)"
proof -
  have "loadBlockingConstraints (ri_OrgID input) (ri_APIKeyID input) E (tick w) =
      (Inr (limits_of (w_db w) (ri_OrgID input) (ri_APIKeyID input)), tick (tick (tick w)))"
    using E key by (simp add: loadBlockingConstraints_def GetAPIKey_def limits_of_def key_row_def act_simps)
  then have "reserve_body input E (tick w) = (Inr (True, r), w2)"
    using some loop by (simp add: reserve_body_def act_simps numeral_3_eq_3)
  then show ?thesis
    using E ids by (simp add: Reserve_def with_tx_healthy)
qed

lemma Reserve_Inr:
  assumes run: "Reserve input E w = (Inr r, w')"
    and ok: "ledger_ok (w_db w)" "counters_fit (w_db w)" "columns_ok (w_db w)"
  defines "now \<equiv> env_time E (w_step w + 3)"
    and "items \<equiv> limits_of (w_db w) (ri_OrgID input) (ri_APIKeyID input)"
  shows "loop_spec input now items (w_db w) (rr_Allowed r) (w_db w')"
    and "rr_Allowed r \<or> w_db w' = w_db w"
proof -
  have est: "0 \<le> ri_EstimatedCostMicroUSD input" and tx: "with_tx (reserve_body input) E w = (Inr r, w')"
    using run by (auto simp: Reserve_def act_inr split: if_splits)
  obtain commit w2 where body: "reserve_body input E (tick w) = (Inr (commit, r), w2)"
    and w': "if commit then w' = tick w2 else w_db w' = w_db w"
    using tx by (rule with_tx_Inr)
  have loop: "(if items = [] then ret (True, allowed_result)
      else andThen clock_now (\<lambda>now. reserve_loop input now items)) E (tick (tick (tick w))) = (Inr (commit, r), w2)"
    using body unfolding reserve_body_def items_def by (auto simp: andThen_Inr dest!: loadBlockingConstraints_Inr)
  have "commit = rr_Allowed r \<and> loop_spec input now items (w_db w) (rr_Allowed r) (w_db w2)"
  proof (cases "items = []")
    case True
    then show ?thesis using loop by (simp add: act_inr loop_spec_def allowed_result_def untouched_def)
  next
    case False
    then have "reserve_loop input now items E (tick (tick (tick (tick w)))) = (Inr (commit, r), w2)"
      using loop by (simp add: act_inr now_def numeral_3_eq_3)
    then show ?thesis
      using reserve_loop_Inr [of "tick (tick (tick (tick w)))" input items now E commit r w2] ok est
        limits_of_ok [OF ok(3)] limits_of_distinct unfolding items_def by simp
  qed
  then show "loop_spec input now items (w_db w) (rr_Allowed r) (w_db w')" "rr_Allowed r \<or> w_db w' = w_db w"
    using w' by (auto simp: loop_spec_def split: if_splits)
qed

text \<open>On a request without outstanding reservations, closing is the identity.\<close>

lemma keeps_closed_Settle:
  assumes none: "filter (is_outstanding q) (cost_reservations db) = []"
  shows "keeps (\<lambda>d. d = db) (Settle q actual)"
proof -
  have "keeps_ok (\<lambda>d. d = db) (SettleTx q actual now)" for now
    by (rule keeps_okI) (use none in \<open>auto dest!: SettleTx_Inr(3) simp: close_request_nothing\<close>)
  then show ?thesis
    unfolding Settle_def
    by (intro keeps_if keeps_fail keeps_ExecTx_ok keeps_ok_andThen keeps_imp_ok [OF keeps_clock])
qed

lemma keeps_closed_Release:
  assumes none: "filter (is_outstanding q) (cost_reservations db) = []"
  shows "keeps (\<lambda>d. d = db) (Release q)"
proof -
  have "keeps_ok (\<lambda>d. d = db) (ReleaseTx q now)" for now
    by (rule keeps_okI) (use none in \<open>auto dest!: ReleaseTx_Inr(2) simp: close_request_nothing\<close>)
  then show ?thesis
    unfolding Release_def
    by (intro keeps_ExecTx_ok keeps_ok_andThen keeps_imp_ok [OF keeps_clock])
qed

section \<open>Properties\<close>

text \<open>The sample request of the witnesses, and the world in which it has been reserved.\<close>

definition demo_reserve :: ReserveInput where
  "demo_reserve = \<lparr>ri_RequestID = 77, ri_OrgID = 1, ri_APIKeyID = 2, ri_EstimatedCostMicroUSD = 120\<rparr>"

definition demo_loop :: "(bool \<times> ReserveResult) outcome \<times> world" where
  "demo_loop = reserve_loop demo_reserve (env_time demo_env 3) (limits_of demo_db 1 2) demo_env
     (tick (tick (tick (tick (world_of demo_db)))))"

definition demo_reserved :: world where
  "demo_reserved = tick (snd demo_loop)"

definition demo_counter :: "uuid \<Rightarrow> string \<Rightarrow> uuid \<Rightarrow> CostLimitCounter" where
  "demo_counter i scope scopeID = \<lparr>cc_ID = i, cc_OrgID = 1, cc_ScopeType = scope, cc_ScopeID = scopeID,
     cc_Period = ''daily'', cc_WindowStart = 1779235200 * time_second,
     cc_WindowEnd = 1779321600 * time_second, cc_SettledMicroUsd = 0, cc_ReservedMicroUsd = 120,
     cc_CreatedAt = 1779271203 * time_second, cc_UpdatedAt = 1779271203 * time_second\<rparr>"

definition demo_reservation :: "uuid \<Rightarrow> string \<Rightarrow> uuid \<Rightarrow> CostReservation" where
  "demo_reservation i scope scopeID = \<lparr>rs_ID = i, rs_RequestID = 77, rs_OrgID = 1, rs_ApiKeyID = 2,
     rs_ScopeType = scope, rs_ScopeID = scopeID, rs_Period = ''daily'',
     rs_WindowStart = 1779235200 * time_second, rs_WindowEnd = 1779321600 * time_second,
     rs_ReservedMicroUsd = 120, rs_SettledMicroUsd = 0, rs_Status = ''reserved'',
     rs_CreatedAt = 1779271203 * time_second, rs_UpdatedAt = 1779271203 * time_second\<rparr>"

lemma demo_loop_run:
  "fst demo_loop = Inr (True, allowed_result)"
  "w_db (snd demo_loop) = demo_db\<lparr>
     cost_limit_counters := [demo_counter 1004 ''org'' 1, demo_counter 1010 ''api_key'' 2],
     cost_reservations := [demo_reservation 1008 ''org'' 1, demo_reservation 1014 ''api_key'' 2]\<rparr>"
  by code_simp+

lemma demo_limits: "limits_of demo_db 1 2 =
  [\<lparr>cs_ScopeType = ''org'', cs_ScopeID = 1, cs_Period = ''daily'', cs_LimitMicroUSD = 1000\<rparr>,
   \<lparr>cs_ScopeType = ''api_key'', cs_ScopeID = 2, cs_Period = ''daily'', cs_LimitMicroUSD = 500\<rparr>]"
  by code_simp

lemma demo_reserve_ids: "ri_OrgID demo_reserve = 1" "ri_APIKeyID demo_reserve = 2" "w_step (world_of demo_db) = 0"
  by (simp_all add: demo_reserve_def world_of_def)

lemma demo_reserve_run: "Reserve demo_reserve demo_env (world_of demo_db) = (Inr allowed_result, demo_reserved)"
proof -
  have "key_row demo_db 1 2 = Inr demo_key" by code_simp
  then show ?thesis
    unfolding demo_reserved_def
    by (intro Reserve_eval)
      (use demo_loop_run(1) in \<open>simp_all add: demo_reserve_def uuid_Nil_def demo_limits world_of_def
        demo_loop_def prod_eq_iff\<close>)
qed

lemma demo_ledger: "ledger_ok demo_db" "counters_fit demo_db" "columns_ok demo_db"
  by (simp_all add: ledger_ok_def counters_fit_def columns_ok_def demo_defs max_int64_def)

lemma demo_allowed: "rr_Allowed allowed_result"
  by (simp add: allowed_result_def)

lemma demo_reserved_ledger: "ledger_ok (w_db demo_reserved)"
  using keepsD [OF keeps_Reserve _ demo_reserve_run] demo_ledger by simp


text \<open>
  C4: Whatever calls of \<^verbatim>\<open>Reserve\<close>, \<^verbatim>\<open>Settle\<close> and \<^verbatim>\<open>Release\<close> interleave, and whichever of their
  statements fail, from a consistent ledger only consistent ledgers are reached: in particular
  the reserved amount of every counter is the sum of the outstanding reservations on it.
\<close>

theorem ledger_invariant:
  assumes "cost_reachable db0 db" and "ledger_ok db0"
  shows "ledger_ok db \<and> (\<forall>c \<in> set (cost_limit_counters db).
    cc_ReservedMicroUsd c = held (cost_reservations db) (counter_key c))"
proof -
  have "ledger_ok db"
    using assms by (induction rule: cost_reachable.induct) (auto dest: cost_step_ledger)
  then show ?thesis by (auto simp: ledger_ok_def counter_ok_def list_all_iff)
qed

theorem ledger_invariant_witness:
  "cost_reachable demo_db (w_db demo_reserved) \<and> ledger_ok demo_db \<and> ledger_ok (w_db demo_reserved) \<and>
     map cc_ReservedMicroUsd (cost_limit_counters (w_db demo_reserved)) = [120, 120]"
proof -
  have "cost_step demo_db (w_db demo_reserved)"
    using cost_step.reserve [OF demo_reserve_run] by simp
  then have reach: "cost_reachable demo_db (w_db demo_reserved)"
    by (auto intro: cost_reachable.intros)
  moreover have "map cc_ReservedMicroUsd (cost_limit_counters (w_db demo_reserved)) = [120, 120]"
    by (simp add: demo_reserved_def demo_loop_run demo_counter_def)
  ultimately show ?thesis
    using ledger_invariant [OF reach demo_ledger(1)] demo_ledger by simp
qed

text \<open>
  C10: \<^verbatim>\<open>Reserve\<close> allows a request exactly when every blocking limit (the strictest budget per
  period, the daily and monthly quota of the key) admits it on what had been used before the
  call. An allowed request leaves every counter at the earlier use plus the estimate, capped at
  the limit; a blocked one leaves the database as it was.
\<close>

theorem reserve_admission:
  assumes "Reserve input E w = (Inr r, w')"
    and "ledger_ok (w_db w)" "counters_fit (w_db w)" "columns_ok (w_db w)"
  defines "now \<equiv> env_time E (w_step w + 3)"
    and "items \<equiv> limits_of (w_db w) (ri_OrgID input) (ri_APIKeyID input)"
  shows "(rr_Allowed r \<longleftrightarrow> (\<forall>item \<in> set items. admitted_by (w_db w) input now item)) \<and>
    (if rr_Allowed r then \<forall>item \<in> set items. reserved_on (w_db w) (w_db w') input now item
     else w_db w' = w_db w)"
  using Reserve_Inr [OF assms(1-4)] unfolding now_def items_def loop_spec_def by auto

theorem reserve_admission_witness:
  "length (limits_of demo_db 1 2) = 2 \<and>
   list_all (reserved_on demo_db (w_db demo_reserved) demo_reserve (env_time demo_env 3)) (limits_of demo_db 1 2)"
  using reserve_admission [OF demo_reserve_run] demo_ledger
  by (simp add: demo_limits demo_allowed demo_reserve_ids)

text \<open>
  C1: Reserving never takes a limit beyond its bound: after an allowed \<^verbatim>\<open>Reserve\<close>, settled plus
  reserved cost of every limit of the request, in its current window, is within the limit.
\<close>

theorem reserve_within_limits:
  assumes "Reserve input E w = (Inr r, w')" and "rr_Allowed r"
    and "ledger_ok (w_db w)" "counters_fit (w_db w)" "columns_ok (w_db w)"
    and "item \<in> set (limits_of (w_db w) (ri_OrgID input) (ri_APIKeyID input))"
    and "periodWindow (env_time E (w_step w + 3)) (cs_Period item) = Inr (s, e)"
  shows "\<exists>c \<in> set (cost_limit_counters (w_db w')). counter_key c = item_key (ri_OrgID input) item s \<and>
    cc_SettledMicroUsd c + cc_ReservedMicroUsd c \<le> cs_LimitMicroUSD item"
proof -
  have "reserved_on (w_db w) (w_db w') input (env_time E (w_step w + 3)) item"
    using Reserve_Inr(1) [OF assms(1,3-5)] assms(2,6) by (auto simp: loop_spec_def)
  then obtain c where "counter_for (w_db w') (item_key (ri_OrgID input) item s) = Some c"
    "counter_total c \<le> cs_LimitMicroUSD item"
    using assms(7) by (auto simp: reserved_on_def split: option.splits)
  then show ?thesis
    using counter_for_Some [of "w_db w'" "item_key (ri_OrgID input) item s" c]
    by (auto simp: counter_total_def)
qed

theorem reserve_within_limits_witness:
  "\<exists>c \<in> set (cost_limit_counters (w_db demo_reserved)).
     counter_key c = (1, ''org'', 1, ''daily'', 1779235200 * time_second) \<and>
     cc_SettledMicroUsd c + cc_ReservedMicroUsd c \<le> 1000"
proof -
  let ?item = "\<lparr>cs_ScopeType = ''org'', cs_ScopeID = 1, cs_Period = ''daily'', cs_LimitMicroUSD = 1000\<rparr>"
  have "periodWindow (env_time demo_env 3) ''daily'' =
      Inr (1779235200 * time_second, 1779321600 * time_second)" by code_simp
  then show ?thesis
    using reserve_within_limits [OF demo_reserve_run demo_allowed, of ?item] demo_ledger
    by (simp add: item_key_def demo_reserve_ids demo_limits)
qed

text \<open>
  C8: In an environment without faults \<^verbatim>\<open>Settle\<close> succeeds as long as the counters have room, and
  on every counter it moves the cost of the request from reserved to settled: what the request
  had reserved there is taken off, and the actual cost is added once if it had reserved at all.
  Afterwards the request has nothing outstanding.
\<close>

theorem settle_charges_once:
  assumes E: "healthy E" and ok: "ledger_ok (w_db w)" and q: "q \<noteq> uuid_Nil" and a: "0 \<le> actual"
    and fit: "list_all (\<lambda>c. cc_SettledMicroUsd c + actual \<le> max_int64) (cost_limit_counters (w_db w))"
  shows "\<exists>w'. Settle q actual E w = (Inr (), w') \<and>
    filter (is_outstanding q) (cost_reservations (w_db w')) = [] \<and>
    (\<forall>k c. counter_for (w_db w) k = Some c \<longrightarrow> (\<exists>c'. counter_for (w_db w') k = Some c' \<and>
       cc_ReservedMicroUsd c' = cc_ReservedMicroUsd c - request_share (w_db w) q k \<and>
       cc_SettledMicroUsd c' = cc_SettledMicroUsd c + (if outstanding_on (w_db w) q k = [] then 0 else actual)))"
proof -
  obtain w' now where run: "Settle q actual E w = (Inr (), w')"
    and db: "w_db w' = close_request (settle_step actual now) (settle_mark actual now) q (w_db w)"
    by (rule Settle_healthy [OF E ok q a fit])
  have "\<exists>c'. counter_for (w_db w') k = Some c' \<and>
       cc_ReservedMicroUsd c' = cc_ReservedMicroUsd c - request_share (w_db w) q k \<and>
       cc_SettledMicroUsd c' = cc_SettledMicroUsd c + (if outstanding_on (w_db w) q k = [] then 0 else actual)"
    if "counter_for (w_db w) k = Some c" for k c
    using closing.close_request_effect [OF closing_settle [OF a] ok that, of now q] unfolding db by metis
  then show ?thesis
    using run closing.close_request_none_outstanding [OF closing_settle [OF a], of q now "w_db w"]
    by (auto simp: db)
qed

theorem settle_charges_once_witness:
  "\<exists>w'. Settle 77 95 demo_env demo_reserved = (Inr (), w') \<and>
     filter (is_outstanding 77) (cost_reservations (w_db w')) = []"
proof -
  have "list_all (\<lambda>c. cc_SettledMicroUsd c + 95 \<le> max_int64) (cost_limit_counters (w_db demo_reserved))"
    by (simp add: demo_reserved_def demo_loop_run demo_counter_def max_int64_def)
  moreover have "(77 :: uuid) \<noteq> uuid_Nil" by (simp add: uuid_Nil_def)
  ultimately show ?thesis
    using settle_charges_once [OF healthy_demo demo_reserved_ledger, of 77 95] by auto
qed

text \<open>
  C11: \<^verbatim>\<open>Release\<close> in an environment without faults succeeds, gives back exactly what the request had
  reserved on every counter and charges nothing.
\<close>

theorem release_gives_back:
  assumes E: "healthy E" and ok: "ledger_ok (w_db w)" and q: "q \<noteq> uuid_Nil"
  shows "\<exists>w'. Release q E w = (Inr (), w') \<and>
    filter (is_outstanding q) (cost_reservations (w_db w')) = [] \<and>
    (\<forall>k c. counter_for (w_db w) k = Some c \<longrightarrow> (\<exists>c'. counter_for (w_db w') k = Some c' \<and>
       cc_ReservedMicroUsd c' = cc_ReservedMicroUsd c - request_share (w_db w) q k \<and>
       cc_SettledMicroUsd c' = cc_SettledMicroUsd c))"
proof -
  obtain w' now where run: "Release q E w = (Inr (), w')"
    and db: "w_db w' = close_request (release_step now) (release_mark now) q (w_db w)"
    by (rule Release_healthy [OF E ok q])
  have "\<exists>c'. counter_for (w_db w') k = Some c' \<and>
       cc_ReservedMicroUsd c' = cc_ReservedMicroUsd c - request_share (w_db w) q k \<and>
       cc_SettledMicroUsd c' = cc_SettledMicroUsd c" if "counter_for (w_db w) k = Some c" for k c
    using releasing.close_request_effect [OF ok that, of now q] unfolding db by (metis add_0_right)
  then show ?thesis
    using run releasing.close_request_none_outstanding [of q now "w_db w"] by (auto simp: db)
qed

theorem release_gives_back_witness:
  "\<exists>w'. Release 77 demo_env demo_reserved = (Inr (), w') \<and>
     filter (is_outstanding 77) (cost_reservations (w_db w')) = []"
proof -
  have "(77 :: uuid) \<noteq> uuid_Nil" by (simp add: uuid_Nil_def)
  then show ?thesis
    using release_gives_back [OF healthy_demo demo_reserved_ledger, of 77] by auto
qed

text \<open>
  C12: A request that was settled or released is closed for good: a second \<^verbatim>\<open>Settle\<close> or \<^verbatim>\<open>Release\<close>,
  with any amount and whatever fails, leaves the database exactly as it is.
\<close>

theorem close_is_final:
  assumes "Settle q actual E w = (Inr (), w') \<or> Release q E w = (Inr (), w')"
  shows "w_db (snd (Settle q actual2 E2 w')) = w_db w' \<and> w_db (snd (Release q E2 w')) = w_db w'"
proof -
  have none: "filter (is_outstanding q) (cost_reservations (w_db w')) = []"
    using assms
  proof
    assume "Settle q actual E w = (Inr (), w')"
    then show ?thesis
      by (rule Settle_Inr) (metis closing_settle closing.close_request_none_outstanding)
  next
    assume "Release q E w = (Inr (), w')"
    then show ?thesis
      by (rule Release_Inr) (metis releasing.close_request_none_outstanding)
  qed
  show ?thesis
    using keeps_closed_Settle [OF none] keeps_closed_Release [OF none] by (auto simp: keeps_def)
qed

theorem close_is_final_witness:
  "\<exists>w'. Release 77 demo_env demo_reserved = (Inr (), w') \<and>
     w_db (snd (Settle 77 95 demo_env w')) = w_db w'"
proof -
  have "(77 :: uuid) \<noteq> uuid_Nil" by (simp add: uuid_Nil_def)
  then obtain w' now where "Release 77 demo_env demo_reserved = (Inr (), w')"
    using Release_healthy [OF healthy_demo demo_reserved_ledger] by blast
  then show ?thesis
    using close_is_final [of 77 0 demo_env demo_reserved w' 95 demo_env] by blast
qed

end
