(* ===== verification/Strconv.thy ===== *)
theory Strconv
  imports Prelude
begin

text \<open>
  The parts of Go's \<^verbatim>\<open>strconv\<close>, \<^verbatim>\<open>strings\<close> and \<^verbatim>\<open>encoding/base64\<close> that the services use to build and
  read back stored values: decimal integers, \<^verbatim>\<open>strings.SplitN\<close> and the standard base-64
  alphabet, with the round trips between printing and parsing.
\<close>

section \<open>Decimal integers\<close>

definition digit_char :: "nat \<Rightarrow> char" where
  "digit_char d = char_of (48 + d)"

definition is_digit :: "char \<Rightarrow> bool" where
  "is_digit c \<longleftrightarrow> 48 \<le> (of_char c :: nat) \<and> (of_char c :: nat) \<le> 57"

definition digit_value :: "char \<Rightarrow> nat" where
  "digit_value c = of_char c - 48"

fun nat_digits :: "nat \<Rightarrow> string" where
  "nat_digits n = (if n < 10 then [digit_char n] else nat_digits (n div 10) @ [digit_char (n mod 10)])"

declare nat_digits.simps [simp del]

definition digits_value :: "string \<Rightarrow> nat" where
  "digits_value s = fold (\<lambda>c v. v * 10 + digit_value c) s 0"

text \<open>\<^verbatim>\<open>strconv.Itoa\<close> and \<^verbatim>\<open>%d\<close>; \<^verbatim>\<open>strconv.ParseInt(s, 10, bits)\<close> without its range check.\<close>

definition itoa :: "int \<Rightarrow> string" where
  "itoa n = (if n < 0 then CHR ''-'' # nat_digits (nat (- n)) else nat_digits (nat n))"

definition parse_digits :: "string \<Rightarrow> nat option" where
  "parse_digits s = (if s \<noteq> [] \<and> list_all is_digit s then Some (digits_value s) else None)"

definition parse_int :: "string \<Rightarrow> int option" where
  "parse_int s = (case s of
     [] \<Rightarrow> None
   | c # r \<Rightarrow> if c = CHR ''-'' then map_option (\<lambda>n. - int n) (parse_digits r)
             else if c = CHR ''+'' then map_option int (parse_digits r)
             else map_option int (parse_digits s))"

definition ParseInt32 :: "string \<Rightarrow> int option" where
  "ParseInt32 s = (case parse_int s of
     Some n \<Rightarrow> if in_int32 n then Some n else None
   | None \<Rightarrow> None)"

lemma digit_char_ok: "d < 10 \<Longrightarrow> is_digit (digit_char d) \<and> digit_value (digit_char d) = d"
  by (simp add: is_digit_def digit_char_def digit_value_def)

lemma digits_value_snoc: "digits_value (s @ [c]) = digits_value s * 10 + digit_value c"
  by (simp add: digits_value_def)

lemma nat_digits_ok: "nat_digits n \<noteq> [] \<and> list_all is_digit (nat_digits n) \<and> digits_value (nat_digits n) = n"
proof (induction n rule: nat_digits.induct)
  case (1 n)
  show ?case
  proof (cases "n < 10")
    case True
    then show ?thesis
      using digit_char_ok [of n] by (simp add: nat_digits.simps [of n] digits_value_def)
  next
    case False
    have "digit_value (digit_char (n mod 10)) = n mod 10" "is_digit (digit_char (n mod 10))"
      using digit_char_ok [of "n mod 10"] by auto
    then show ?thesis
      using False 1 by (simp add: nat_digits.simps [of n] digits_value_snoc)
  qed
qed

lemma parse_digits_nat: "parse_digits (nat_digits n) = Some n"
  using nat_digits_ok [of n] by (simp add: parse_digits_def)

lemma nat_digits_hd: "is_digit (hd (nat_digits n))"
  using nat_digits_ok [of n] by (cases "nat_digits n") auto

theorem parse_int_itoa [simp]: "parse_int (itoa n) = Some n"
proof (cases "n < 0")
  case True
  then show ?thesis by (simp add: itoa_def parse_int_def parse_digits_nat)
next
  case False
  obtain c r where cr: "nat_digits (nat n) = c # r"
    using nat_digits_ok [of "nat n"] by (cases "nat_digits (nat n)") auto
  have "is_digit c" using nat_digits_hd [of "nat n"] cr by simp
  then have "c \<noteq> CHR ''-''" "c \<noteq> CHR ''+''" by (auto simp: is_digit_def)
  then show ?thesis
    using False cr parse_digits_nat [of "nat n"] by (simp add: itoa_def parse_int_def)
qed

lemma ParseInt32_itoa: "in_int32 n \<Longrightarrow> ParseInt32 (itoa n) = Some n"
  by (simp add: ParseInt32_def)

lemma itoa_no_char: "\<not> is_digit c \<Longrightarrow> c \<noteq> CHR ''-'' \<Longrightarrow> c \<notin> set (itoa n)"
  using nat_digits_ok [of "nat n"] nat_digits_ok [of "nat (- n)"]
  by (auto simp: itoa_def list_all_iff)

section \<open>Splitting\<close>

text \<open>\<^verbatim>\<open>strings.SplitN(s, sep, n)\<close> for a one-byte separator and \<open>n \<ge> 1\<close>.\<close>

fun SplitN :: "char \<Rightarrow> nat \<Rightarrow> string \<Rightarrow> string list" where
  "SplitN c 0 s = []"
| "SplitN c (Suc 0) s = [s]"
| "SplitN c (Suc (Suc n)) s =
     (if c \<in> set s then takeWhile (\<lambda>x. x \<noteq> c) s # SplitN c (Suc n) (tl (dropWhile (\<lambda>x. x \<noteq> c) s))
      else [s])"

lemma SplitN_cons:
  assumes "c \<notin> set a"
  shows "SplitN c (Suc (Suc n)) (a @ c # s) = a # SplitN c (Suc n) s"
proof -
  have "takeWhile (\<lambda>x. x \<noteq> c) (a @ c # s) = a" "dropWhile (\<lambda>x. x \<noteq> c) (a @ c # s) = c # s"
    using assms by (induction a) auto
  then show ?thesis by simp
qed

section \<open>Base 64\<close>

definition b64_alphabet :: string where
  "b64_alphabet = ''ABCDEFGHIJKLMNOPQRSTUVWXYZabcdefghijklmnopqrstuvwxyz0123456789+/''"

definition b64_char :: "nat \<Rightarrow> char" where
  "b64_char i = b64_alphabet ! i"

definition b64_value :: "char \<Rightarrow> nat option" where
  "b64_value c = (let i = length (takeWhile (\<lambda>x. x \<noteq> c) b64_alphabet)
     in if i < 64 then Some i else None)"

fun b64_groups :: "nat list \<Rightarrow> string" where
  "b64_groups [] = []"
| "b64_groups [a] = [b64_char (a div 4), b64_char (a mod 4 * 16), CHR ''='', CHR ''='']"
| "b64_groups [a, b] = [b64_char (a div 4), b64_char (a mod 4 * 16 + b div 16),
     b64_char (b mod 16 * 4), CHR ''='']"
| "b64_groups (a # b # c # r) = b64_char (a div 4) # b64_char (a mod 4 * 16 + b div 16) #
     b64_char (b mod 16 * 4 + c div 64) # b64_char (c mod 64) # b64_groups r"

text \<open>\<^verbatim>\<open>StdEncoding.EncodeToString\<close>.\<close>

definition base64_encode :: "string \<Rightarrow> string" where
  "base64_encode s = b64_groups (map of_char s)"

fun b64_ungroup :: "string \<Rightarrow> nat list option" where
  "b64_ungroup [] = Some []"
| "b64_ungroup (p # q # r # s # rest) =
     (case (b64_value p, b64_value q) of
        (Some x, Some y) \<Rightarrow>
          if r = CHR ''='' \<and> s = CHR ''='' \<and> rest = [] then Some [x * 4 + y div 16]
          else (case b64_value r of
              None \<Rightarrow> None
            | Some z \<Rightarrow>
                if s = CHR ''='' \<and> rest = [] then Some [x * 4 + y div 16, y mod 16 * 16 + z div 4]
                else (case (b64_value s, b64_ungroup rest) of
                    (Some w, Some bs) \<Rightarrow>
                      Some ((x * 4 + y div 16) # (y mod 16 * 16 + z div 4) # (z mod 4 * 64 + w) # bs)
                  | _ \<Rightarrow> None))
      | _ \<Rightarrow> None)"
| "b64_ungroup _ = None"

text \<open>\<^verbatim>\<open>StdEncoding.DecodeString\<close>: line breaks are skipped.\<close>

definition base64_decode :: "string \<Rightarrow> string option" where
  "base64_decode s = map_option (map char_of)
     (b64_ungroup (filter (\<lambda>c. c \<noteq> CHR 0x0A \<and> c \<noteq> CHR 0x0D) s))"

lemma b64_table: "list_all (\<lambda>i. b64_value (b64_char i) = Some i \<and> b64_char i \<noteq> CHR ''='' \<and>
    b64_char i \<noteq> CHR '':'' \<and> \<not> is_space (b64_char i)) [0..<64]"
  by code_simp

lemma b64_char_ok:
  assumes "i < 64"
  shows "b64_value (b64_char i) = Some i" "b64_char i \<noteq> CHR ''=''" "b64_char i \<noteq> CHR '':''"
    "\<not> is_space (b64_char i)"
  using b64_table assms by (auto simp: list_all_iff)

lemma sextets:
  fixes a b c :: nat
  assumes "a < 256" "b < 256" "c < 256"
  shows "a div 4 < 64" "a mod 4 * 16 < 64" "a mod 4 * 16 + b div 16 < 64" "b mod 16 * 4 < 64"
    "b mod 16 * 4 + c div 64 < 64" "c mod 64 < 64"
    "a div 4 * 4 + a mod 4 * 16 div 16 = a"
    "a div 4 * 4 + (a mod 4 * 16 + b div 16) div 16 = a"
    "(a mod 4 * 16 + b div 16) mod 16 * 16 + (b mod 16 * 4) div 4 = b"
    "(a mod 4 * 16 + b div 16) mod 16 * 16 + (b mod 16 * 4 + c div 64) div 4 = b"
    "(b mod 16 * 4 + c div 64) mod 4 * 64 + c mod 64 = c"
  using assms by auto

lemma b64_ungroup_step:
  "x < 64 \<Longrightarrow> y < 64 \<Longrightarrow> z < 64 \<Longrightarrow> w < 64 \<Longrightarrow> b64_ungroup rest = Some bs \<Longrightarrow>
     b64_ungroup (b64_char x # b64_char y # b64_char z # b64_char w # rest) =
       Some ((x * 4 + y div 16) # (y mod 16 * 16 + z div 4) # (z mod 4 * 64 + w) # bs)"
  by (simp add: b64_char_ok)

lemma b64_ungroup_groups: "list_all (\<lambda>b. b < 256) bs \<Longrightarrow> b64_ungroup (b64_groups bs) = Some bs"
proof (induction bs rule: b64_groups.induct)
  case (2 a)
  then show ?case using sextets [of a 0 0] by (simp add: b64_char_ok)
next
  case (3 a b)
  then show ?case using sextets [of a b 0] by (simp add: b64_char_ok)
next
  case (4 a b c r)
  then have bytes: "a < 256" "b < 256" "c < 256" and IH: "b64_ungroup (b64_groups r) = Some r" by auto
  show ?case
    unfolding b64_groups.simps b64_ungroup_step [OF sextets(1,3,5,6) [OF bytes] IH]
    by (simp only: sextets(8,10,11) [OF bytes])
qed simp

definition plain_char :: "char \<Rightarrow> bool" where
  "plain_char x \<longleftrightarrow> x \<noteq> CHR '':'' \<and> \<not> is_space x"

lemma plain_b64: "i < 64 \<Longrightarrow> plain_char (b64_char i)" "plain_char (CHR ''='')"
  by (simp_all add: plain_char_def b64_char_ok) (simp add: is_space_def)

lemma b64_groups_plain: "list_all (\<lambda>b. b < 256) bs \<Longrightarrow> list_all plain_char (b64_groups bs)"
proof (induction bs rule: b64_groups.induct)
  case (2 a)
  then show ?case using sextets(1,2) [of a 0 0] by (simp add: plain_b64)
next
  case (3 a b)
  then show ?case using sextets(1-4) [of a b 0] by (simp add: plain_b64)
next
  case (4 a b c r)
  then show ?case using sextets(1-6) [of a b c] by (simp add: plain_b64)
qed simp

lemma bytes_bound: "list_all (\<lambda>b. b < 256) (map (of_char :: char \<Rightarrow> nat) s)"
  by (simp add: list_all_iff)

lemma base64_encode_chars: "x \<in> set (base64_encode s) \<Longrightarrow> x \<noteq> CHR '':'' \<and> \<not> is_space x"
  using b64_groups_plain [OF bytes_bound] by (simp add: base64_encode_def list_all_iff plain_char_def)

theorem base64_roundtrip [simp]: "base64_decode (base64_encode s) = Some s"
proof -
  have "c \<noteq> CHR 0x0A \<and> c \<noteq> CHR 0x0D" if "c \<in> set (base64_encode s)" for c
    using base64_encode_chars [OF that] by (auto simp: is_space_def)
  then have "filter (\<lambda>c. c \<noteq> CHR 0x0A \<and> c \<noteq> CHR 0x0D) (base64_encode s) = base64_encode s"
    by (simp add: filter_id_conv)
  then show ?thesis
    by (simp add: base64_decode_def base64_encode_def b64_ungroup_groups [OF bytes_bound] comp_def)
qed

end
