(* ===== verification/Secrets.thy ===== *)
theory Secrets
  imports Samples Strconv
begin

text \<open>
  \<^verbatim>\<open>internal/crypto\<close> (secret box and key ring), the envelope of webhook secrets in
  \<^verbatim>\<open>internal/budget/alert_service.go\<close> and their re-encryption in
  \<^verbatim>\<open>internal/admin/secret_rotation_service.go\<close>. The AES-GCM primitive is a parameter; what is
  assumed of it, as the predicate \<open>aead\<close>, is that opening undoes sealing under the same key and nonce.
\<close>

section \<open>Secret box and key ring\<close>

record cipher =
  gcm_seal :: "string \<Rightarrow> string \<Rightarrow> string \<Rightarrow> string"
  gcm_open :: "string \<Rightarrow> string \<Rightarrow> string \<Rightarrow> string option"

text \<open>A box is its key; \<^verbatim>\<open>NonceSize\<close> of GCM is 12.\<close>

definition NewSecretBox :: "string \<Rightarrow> string outcome" where
  "NewSecretBox key = (if length key \<noteq> 32 then Inl (ErrMsg ''secret encryption key must be 32 bytes'') else Inr key)"

record SealedSecret =
  sd_Encrypted :: string
  sd_Nonce :: string
  sd_KeyVersion :: int

text \<open>\<^verbatim>\<open>rand.Read\<close> into a buffer of a given size.\<close>

definition random_bytes :: "nat \<Rightarrow> string act" where
  "random_bytes n = andThen random_token (\<lambda>t. ret (take n (t @ replicate n (CHR 0x00))))"

definition box_Seal :: "cipher \<Rightarrow> string \<Rightarrow> string \<Rightarrow> SealedSecret act" where
  "box_Seal gcm key plaintext = andThen (random_bytes 12) (\<lambda>nonce.
     ret \<lparr>sd_Encrypted = base64_encode (gcm_seal gcm key nonce plaintext),
          sd_Nonce = base64_encode nonce, sd_KeyVersion = 0\<rparr>)"

text \<open>\<^verbatim>\<open>gcm.Open\<close> panics on a nonce of the wrong length.\<close>

definition box_Open :: "cipher \<Rightarrow> string \<Rightarrow> string \<Rightarrow> string \<Rightarrow> string outcome" where
  "box_Open gcm key encrypted nonce =
     (case base64_decode encrypted of
        None \<Rightarrow> Inl (ErrMsg ''illegal base64 data'')
      | Some ciphertext \<Rightarrow>
         (case base64_decode nonce of
            None \<Rightarrow> Inl (ErrMsg ''illegal base64 data'')
          | Some nonceBytes \<Rightarrow>
              if length nonceBytes \<noteq> 12 then Inl Panic
              else (case gcm_open gcm key nonceBytes ciphertext of
                  None \<Rightarrow> Inl (ErrMsg ''cipher: message authentication failed'')
                | Some plaintext \<Rightarrow> Inr plaintext)))"

record SecretKeyRing =
  kr_activeVersion :: int
  kr_boxes :: "(int \<times> string) list"

text \<open>The keys of the configuration, in the order the map is iterated.\<close>

fun new_boxes :: "(int \<times> string) list \<Rightarrow> (int \<times> string) list outcome" where
  "new_boxes [] = Inr []"
| "new_boxes ((version, key) # keys) =
     (if version \<le> 0 then Inl (ErrMsg ''key version must be greater than 0'')
      else case NewSecretBox key of
        Inl e \<Rightarrow> Inl e
      | Inr box \<Rightarrow> (case new_boxes keys of Inl e \<Rightarrow> Inl e | Inr boxes \<Rightarrow> Inr ((version, box) # boxes)))"

definition NewSecretKeyRing :: "int \<Rightarrow> (int \<times> string) list \<Rightarrow> SecretKeyRing outcome" where
  "NewSecretKeyRing activeVersion keys =
     (if activeVersion \<le> 0 then Inl (ErrMsg ''active key version must be greater than 0'')
      else if keys = [] then Inl (ErrMsg ''secret keyring must contain at least one key'')
      else case new_boxes keys of
        Inl e \<Rightarrow> Inl e
      | Inr boxes \<Rightarrow>
          if map_of boxes activeVersion = None
          then Inl (ErrMsg ''active key version is not present in keyring'')
          else Inr \<lparr>kr_activeVersion = activeVersion, kr_boxes = boxes\<rparr>)"

definition NewSingleKeyRing :: "string \<Rightarrow> SecretKeyRing outcome" where
  "NewSingleKeyRing key = NewSecretKeyRing 1 [(1, key)]"

text \<open>A ring without the active key dereferences a nil box.\<close>

definition ring_Seal :: "cipher \<Rightarrow> SecretKeyRing \<Rightarrow> string \<Rightarrow> SealedSecret act" where
  "ring_Seal gcm r plaintext =
     (case map_of (kr_boxes r) (kr_activeVersion r) of
        None \<Rightarrow> fail Panic
      | Some key \<Rightarrow> andThen (box_Seal gcm key plaintext) (\<lambda>sealed.
          ret (sealed\<lparr>sd_KeyVersion := kr_activeVersion r\<rparr>)))"

definition ring_Open :: "cipher \<Rightarrow> SecretKeyRing \<Rightarrow> string \<Rightarrow> string \<Rightarrow> int \<Rightarrow> string outcome" where
  "ring_Open gcm r encrypted nonce keyVersion =
     (case map_of (kr_boxes r) keyVersion of
        None \<Rightarrow> Inl (ErrMsg ''key version is not present in keyring'')
      | Some key \<Rightarrow> box_Open gcm key encrypted nonce)"

section \<open>The envelope of a webhook secret\<close>

definition encryptedWebhookSecretPrefix :: string where
  "encryptedWebhookSecretPrefix = ''llmgw_secret:v1:''"

definition envelope :: "SealedSecret \<Rightarrow> string" where
  "envelope sealed = encryptedWebhookSecretPrefix @ itoa (sd_KeyVersion sealed) @ '':'' @
     sd_Nonce sealed @ '':'' @ sd_Encrypted sealed"

definition SealWebhookSecret :: "cipher \<Rightarrow> SecretKeyRing option \<Rightarrow> string \<Rightarrow> string option act" where
  "SealWebhookSecret gcm keyRing value0 =
     (let value = TrimSpace value0
      in if value = [] then ret None
         else case keyRing of
           None \<Rightarrow> ret (Some value)
         | Some r \<Rightarrow> andThen (ring_Seal gcm r value) (\<lambda>sealed. ret (Some (envelope sealed))))"

definition parseWebhookSecretEnvelope :: "string \<Rightarrow> (int \<times> string \<times> string) outcome" where
  "parseWebhookSecretEnvelope value =
     (case SplitN (CHR '':'') 3 (TrimPrefix value encryptedWebhookSecretPrefix) of
        [v, nonce, encrypted] \<Rightarrow>
          (case ParseInt32 v of
             None \<Rightarrow> Inl (ErrMsg ''webhook secret key version is invalid'')
           | Some version \<Rightarrow>
               if version \<le> 0 then Inl (ErrMsg ''webhook secret key version is invalid'')
               else Inr (version, nonce, encrypted))
      | _ \<Rightarrow> Inl (ErrMsg ''webhook secret envelope is invalid''))"

definition OpenWebhookSecret :: "cipher \<Rightarrow> SecretKeyRing option \<Rightarrow> string option \<Rightarrow> string outcome" where
  "OpenWebhookSecret gcm keyRing stored =
     (case stored of
        None \<Rightarrow> Inr []
      | Some s \<Rightarrow>
          let value = TrimSpace s
          in if value = [] then Inr []
             else if \<not> HasPrefix value encryptedWebhookSecretPrefix then Inr value
             else case keyRing of
               None \<Rightarrow> Inl (ErrMsg ''webhook secret keyring is invalid'')
             | Some r \<Rightarrow> (case parseWebhookSecretEnvelope value of
                 Inl e \<Rightarrow> Inl e
               | Inr (version, nonce, encrypted) \<Rightarrow> ring_Open gcm r encrypted nonce version))"

text \<open>The version, and whether the value is an envelope at all.\<close>

definition WebhookSecretKeyVersion :: "string option \<Rightarrow> (int \<times> bool) outcome" where
  "WebhookSecretKeyVersion stored =
     (case stored of
        None \<Rightarrow> Inr (0, False)
      | Some s \<Rightarrow>
          let value = TrimSpace s
          in if value = [] \<or> \<not> HasPrefix value encryptedWebhookSecretPrefix then Inr (0, False)
             else case parseWebhookSecretEnvelope value of
               Inl e \<Rightarrow> Inl e
             | Inr (version, _, _) \<Rightarrow> Inr (version, True))"

section \<open>Re-encryption\<close>

definition reencryptWebhookSecretValue ::
  "cipher \<Rightarrow> SecretKeyRing \<Rightarrow> string option \<Rightarrow> (string option \<times> bool) act" where
  "reencryptWebhookSecretValue gcm r stored =
     (if stored = None \<or> TrimSpace (the stored) = [] then ret (stored, False)
      else andThen (lift (WebhookSecretKeyVersion stored)) (\<lambda>(version, encrypted).
        if encrypted \<and> version = kr_activeVersion r then ret (stored, False)
        else andThen (lift (OpenWebhookSecret gcm (Some r) stored)) (\<lambda>plaintext.
          andThen (SealWebhookSecret gcm (Some r) plaintext) (\<lambda>rotated. ret (rotated, True)))))"

record RotationResult =
  ro_DryRun :: bool
  ro_Scanned :: int
  ro_Rotated :: int
  ro_Skipped :: int

definition select_webhook_secrets :: "uuid option \<Rightarrow> BudgetAlert list act" where
  "select_webhook_secrets orgID = db_read (\<lambda>db.
     Inr (SliceStable (\<lambda>a b. ba_OrgID a < ba_OrgID b \<or> ba_OrgID a = ba_OrgID b \<and> ba_ID a < ba_ID b)
       (filter (\<lambda>a. ba_WebhookSecret a \<noteq> None \<and> (orgID = None \<or> orgID = Some (ba_OrgID a))) (budget_alerts db))))"

definition update_webhook_secret :: "uuid \<Rightarrow> uuid \<Rightarrow> string option \<Rightarrow> time \<Rightarrow> unit act" where
  "update_webhook_secret orgID alertID rotated now = db_exec (\<lambda>db. Inr ((), db\<lparr>budget_alerts :=
     update_rows (\<lambda>a. ba_OrgID a = orgID \<and> ba_ID a = alertID)
       (\<lambda>a. a\<lparr>ba_WebhookSecret := rotated, ba_UpdatedAt := now\<rparr>) (budget_alerts db)\<rparr>))"

text \<open>The loop over the rows; the counts of a failed run are dropped with the error.\<close>

fun reencrypt_webhook_loop ::
  "cipher \<Rightarrow> SecretKeyRing \<Rightarrow> bool \<Rightarrow> RotationResult \<Rightarrow> BudgetAlert list \<Rightarrow> RotationResult act" where
  "reencrypt_webhook_loop gcm r dryRun result [] = ret result"
| "reencrypt_webhook_loop gcm r dryRun result (a # as) =
     (let result1 = result\<lparr>ro_Scanned := ro_Scanned result + 1\<rparr>
      in andThen (reencryptWebhookSecretValue gcm r (ba_WebhookSecret a)) (\<lambda>(rotated, changed).
        if \<not> changed then reencrypt_webhook_loop gcm r dryRun (result1\<lparr>ro_Skipped := ro_Skipped result1 + 1\<rparr>) as
        else if dryRun
        then reencrypt_webhook_loop gcm r dryRun (result1\<lparr>ro_Rotated := ro_Rotated result1 + 1\<rparr>) as
        else andThen clock_now (\<lambda>now.
          andThen (update_webhook_secret (ba_OrgID a) (ba_ID a) rotated now) (\<lambda>_.
          reencrypt_webhook_loop gcm r dryRun (result1\<lparr>ro_Rotated := ro_Rotated result1 + 1\<rparr>) as))))"

definition ReencryptWebhookSecrets :: "cipher \<Rightarrow> SecretKeyRing \<Rightarrow> uuid option \<Rightarrow> bool \<Rightarrow> RotationResult act" where
  "ReencryptWebhookSecrets gcm r orgID dryRun =
     andThen (select_webhook_secrets orgID)
       (reencrypt_webhook_loop gcm r dryRun \<lparr>ro_DryRun = dryRun, ro_Scanned = 0, ro_Rotated = 0, ro_Skipped = 0\<rparr>)"

definition ListProviderSecretsForRotation :: "uuid option \<Rightarrow> ProviderSecret list act" where
  "ListProviderSecretsForRotation orgID = db_read (\<lambda>db.
     Inr (SliceStable (\<lambda>a b. ps_OrgID a < ps_OrgID b \<or> ps_OrgID a = ps_OrgID b \<and> ps_ProviderID a < ps_ProviderID b)
       (filter (\<lambda>p. orgID = None \<or> orgID = Some (ps_OrgID p)) (provider_secrets db))))"

definition UpdateProviderSecretCiphertext ::
  "uuid \<Rightarrow> uuid \<Rightarrow> uuid \<Rightarrow> SealedSecret \<Rightarrow> time \<Rightarrow> ProviderSecret act" where
  "UpdateProviderSecretCiphertext orgID providerID i sealed now =
     update_returning provider_secrets (\<lambda>rs db. db\<lparr>provider_secrets := rs\<rparr>)
       (\<lambda>p. ps_OrgID p = orgID \<and> ps_ProviderID p = providerID \<and> ps_ID p = i)
       (\<lambda>p. p\<lparr>ps_EncryptedApiKey := sd_Encrypted sealed, ps_Nonce := sd_Nonce sealed,
             ps_KeyVersion := sd_KeyVersion sealed, ps_UpdatedAt := now\<rparr>)"

fun reencrypt_provider_loop ::
  "cipher \<Rightarrow> SecretKeyRing \<Rightarrow> bool \<Rightarrow> RotationResult \<Rightarrow> ProviderSecret list \<Rightarrow> RotationResult act" where
  "reencrypt_provider_loop gcm r dryRun result [] = ret result"
| "reencrypt_provider_loop gcm r dryRun result (s # ss) =
     (if ps_KeyVersion s = kr_activeVersion r
      then reencrypt_provider_loop gcm r dryRun (result\<lparr>ro_Skipped := ro_Skipped result + 1\<rparr>) ss
      else andThen (lift (ring_Open gcm r (ps_EncryptedApiKey s) (ps_Nonce s) (ps_KeyVersion s))) (\<lambda>plaintext.
        if dryRun
        then reencrypt_provider_loop gcm r dryRun (result\<lparr>ro_Rotated := ro_Rotated result + 1\<rparr>) ss
        else andThen (ring_Seal gcm r plaintext) (\<lambda>sealed.
          andThen clock_now (\<lambda>now.
          andThen (UpdateProviderSecretCiphertext (ps_OrgID s) (ps_ProviderID s) (ps_ID s) sealed now) (\<lambda>_.
          reencrypt_provider_loop gcm r dryRun (result\<lparr>ro_Rotated := ro_Rotated result + 1\<rparr>) ss)))))"

definition ReencryptProviderSecrets :: "cipher \<Rightarrow> SecretKeyRing \<Rightarrow> uuid option \<Rightarrow> bool \<Rightarrow> RotationResult act" where
  "ReencryptProviderSecrets gcm r orgID dryRun =
     andThen (ListProviderSecretsForRotation orgID) (\<lambda>secrets.
       reencrypt_provider_loop gcm r dryRun
         \<lparr>ro_DryRun = dryRun, ro_Scanned = int (length secrets), ro_Rotated = 0, ro_Skipped = 0\<rparr> secrets)"

section \<open>Sealing and opening\<close>

text \<open>The documented contract of \<^verbatim>\<open>cipher.AEAD\<close>.\<close>

definition aead :: "cipher \<Rightarrow> bool" where
  "aead gcm \<longleftrightarrow> (\<forall>key nonce p. gcm_open gcm key nonce (gcm_seal gcm key nonce p) = Some p)"

lemma box_roundtrip:
  "aead gcm \<Longrightarrow> length nonce = 12 \<Longrightarrow>
     box_Open gcm key (base64_encode (gcm_seal gcm key nonce p)) (base64_encode nonce) = Inr p"
  by (simp add: box_Open_def aead_def)

lemma TrimSpace_id: "s \<noteq> [] \<Longrightarrow> \<not> is_space (hd s) \<Longrightarrow> \<not> is_space (last s) \<Longrightarrow> TrimSpace s = s"
proof -
  assume s: "s \<noteq> []" "\<not> is_space (hd s)" "\<not> is_space (last s)"
  then have "dropWhile is_space s = s" by (cases s) auto
  moreover have "dropWhile is_space (rev s) = rev s"
    using s by (cases "rev s") (auto simp: hd_rev [symmetric])
  ultimately show ?thesis by (simp add: TrimSpace_def TrimLeft_def)
qed

lemma random_bytes_Inr:
  assumes "random_bytes n E w = (Inr b, w')"
  shows "length b = n" "w' = tick w"
  using assms by (auto simp: random_bytes_def act_inr)

lemma random_bytes_run: "\<exists>b. random_bytes n E w = (Inr b, tick w)"
  by (simp add: random_bytes_def act_simps)

text \<open>A well-formed ring: the active version is positive, 32 bits wide and has a key.\<close>

definition ring_ok :: "SecretKeyRing \<Rightarrow> bool" where
  "ring_ok r \<longleftrightarrow> 0 < kr_activeVersion r \<and> in_int32 (kr_activeVersion r) \<and>
     map_of (kr_boxes r) (kr_activeVersion r) \<noteq> None"

lemma NewSecretKeyRing_ok: "in_int32 v \<Longrightarrow> NewSecretKeyRing v keys = Inr r \<Longrightarrow> ring_ok r \<and> kr_activeVersion r = v"
  by (auto simp: NewSecretKeyRing_def ring_ok_def split: if_splits sum.splits)

lemma ring_Seal_Inr:
  assumes "ring_Seal gcm r p E w = (Inr sealed, w')"
  obtains key nonce where "map_of (kr_boxes r) (kr_activeVersion r) = Some key" "length nonce = 12"
    "w' = tick w" "sealed = \<lparr>sd_Encrypted = base64_encode (gcm_seal gcm key nonce p),
        sd_Nonce = base64_encode nonce, sd_KeyVersion = kr_activeVersion r\<rparr>"
proof -
  obtain key nonce where "map_of (kr_boxes r) (kr_activeVersion r) = Some key"
    and nonce: "random_bytes 12 E w = (Inr nonce, w')"
    and "sealed = \<lparr>sd_Encrypted = base64_encode (gcm_seal gcm key nonce p),
        sd_Nonce = base64_encode nonce, sd_KeyVersion = kr_activeVersion r\<rparr>"
    using assms by (auto simp: ring_Seal_def box_Seal_def act_inr split: option.splits)
  then show thesis using that random_bytes_Inr [OF nonce] by blast
qed

lemma envelope_parse:
  assumes "0 < sd_KeyVersion s" "in_int32 (sd_KeyVersion s)" "CHR '':'' \<notin> set (sd_Nonce s)"
  shows "parseWebhookSecretEnvelope (envelope s) = Inr (sd_KeyVersion s, sd_Nonce s, sd_Encrypted s)"
proof -
  have v: "CHR '':'' \<notin> set (itoa (sd_KeyVersion s))"
    by (rule itoa_no_char) (simp_all add: is_digit_def)
  have "SplitN (CHR '':'') (Suc (Suc (Suc 0))) (itoa (sd_KeyVersion s) @ CHR '':'' # sd_Nonce s @ CHR '':'' # sd_Encrypted s)
      = [itoa (sd_KeyVersion s), sd_Nonce s, sd_Encrypted s]"
    unfolding SplitN_cons [OF v] SplitN_cons [OF assms(3)] by simp
  then show ?thesis
    using assms by (simp add: parseWebhookSecretEnvelope_def envelope_def numeral_3_eq_3 ParseInt32_itoa)
qed

lemma envelope_trim:
  assumes "\<forall>c \<in> set (sd_Encrypted s). \<not> is_space c"
  shows "TrimSpace (envelope s) = envelope s"
proof (rule TrimSpace_id)
  have "\<not> is_space (CHR '':'')" "\<not> is_space (CHR ''l'')" by (simp_all add: is_space_def)
  moreover have "last (envelope s) = (if sd_Encrypted s = [] then CHR '':'' else last (sd_Encrypted s))"
    by (simp add: envelope_def encryptedWebhookSecretPrefix_def)
  ultimately show "\<not> is_space (last (envelope s))" "\<not> is_space (hd (envelope s))" "envelope s \<noteq> []"
    using assms by (auto simp: envelope_def encryptedWebhookSecretPrefix_def)
qed

lemma envelope_prefix: "HasPrefix (envelope s) encryptedWebhookSecretPrefix" "envelope s \<noteq> []"
  by (simp only: envelope_def HasPrefix_append) (simp add: envelope_def)

text \<open>What \<^verbatim>\<open>SealWebhookSecret\<close> stores, read back.\<close>


lemma sealed_secret:
  assumes gcm: "aead gcm" and r: "ring_ok r"
    and run: "SealWebhookSecret gcm (Some r) value E w = (Inr stored, w')" and v: "TrimSpace value \<noteq> []"
  shows "OpenWebhookSecret gcm (Some r) stored = Inr (TrimSpace value)"
    and "WebhookSecretKeyVersion stored = Inr (kr_activeVersion r, True)"
    and "\<exists>s. stored = Some s \<and> TrimSpace s \<noteq> []"
proof -
  obtain sealed where seal: "ring_Seal gcm r (TrimSpace value) E w = (Inr sealed, w')"
    and stored: "stored = Some (envelope sealed)"
    using run v by (auto simp: SealWebhookSecret_def Let_def act_inr)
  obtain key nonce where key: "map_of (kr_boxes r) (kr_activeVersion r) = Some key" "length nonce = 12"
    and sealed: "sealed = \<lparr>sd_Encrypted = base64_encode (gcm_seal gcm key nonce (TrimSpace value)),
        sd_Nonce = base64_encode nonce, sd_KeyVersion = kr_activeVersion r\<rparr>"
    using seal by (rule ring_Seal_Inr)
  have parse: "parseWebhookSecretEnvelope (envelope sealed) =
      Inr (kr_activeVersion r, base64_encode nonce, base64_encode (gcm_seal gcm key nonce (TrimSpace value)))"
    using envelope_parse [of sealed] r base64_encode_chars [of _ nonce] by (auto simp: sealed ring_ok_def)
  have trim: "TrimSpace (envelope sealed) = envelope sealed"
    by (rule envelope_trim) (auto simp: sealed dest: base64_encode_chars)
  show "OpenWebhookSecret gcm (Some r) stored = Inr (TrimSpace value)"
    using key gcm by (simp add: OpenWebhookSecret_def stored trim envelope_prefix parse ring_Open_def
        box_roundtrip)
  show "WebhookSecretKeyVersion stored = Inr (kr_activeVersion r, True)"
    by (simp add: WebhookSecretKeyVersion_def stored trim envelope_prefix parse)
  show "\<exists>s. stored = Some s \<and> TrimSpace s \<noteq> []"
    by (simp add: stored trim envelope_prefix)
qed

lemma SealWebhookSecret_total:
  assumes "ring_ok r"
  shows "\<exists>stored w'. SealWebhookSecret gcm (Some r) value E w = (Inr stored, w')"
  using assms random_bytes_run [of 12 E w]
  by (auto simp: SealWebhookSecret_def Let_def ring_Seal_def box_Seal_def act_simps ring_ok_def)

lemma reencrypt_value_Inr:
  assumes "reencryptWebhookSecretValue gcm r stored E w = (Inr (stored', changed), w')"
  obtains (same) "\<not> changed" "stored' = stored"
      "stored = None \<or> TrimSpace (the stored) = [] \<or> WebhookSecretKeyVersion stored = Inr (kr_activeVersion r, True)"
    | (rotated) p where "changed" "OpenWebhookSecret gcm (Some r) stored = Inr p"
      "SealWebhookSecret gcm (Some r) p E w = (Inr stored', w')"
  using assms by (auto simp: reencryptWebhookSecretValue_def act_inr split: if_splits)

lemma reencrypt_value_current:
  assumes "stored = None \<or> TrimSpace (the stored) = [] \<or> WebhookSecretKeyVersion stored = Inr (kr_activeVersion r, True)"
  shows "reencryptWebhookSecretValue gcm r stored E w = (Inr (stored, False), w)"
  using assms by (auto simp: reencryptWebhookSecretValue_def act_simps)

subsection \<open>Provider secrets\<close>

definition secret_key :: "ProviderSecret \<Rightarrow> uuid \<times> uuid \<times> uuid" where
  "secret_key p = (ps_OrgID p, ps_ProviderID p, ps_ID p)"

definition secret_text :: "cipher \<Rightarrow> SecretKeyRing \<Rightarrow> ProviderSecret \<Rightarrow> string outcome" where
  "secret_text gcm r p = ring_Open gcm r (ps_EncryptedApiKey p) (ps_Nonce p) (ps_KeyVersion p)"

text \<open>A row after re-encryption: the same provider, the same plaintext.\<close>

definition still_opens :: "cipher \<Rightarrow> SecretKeyRing \<Rightarrow> ProviderSecret \<Rightarrow> ProviderSecret \<Rightarrow> bool" where
  "still_opens gcm r p p' \<longleftrightarrow> secret_key p' = secret_key p \<and>
     (\<forall>x. secret_text gcm r p = Inr x \<longrightarrow> secret_text gcm r p' = Inr x)"

lemma still_opens_refl: "still_opens gcm r p p"
  by (simp add: still_opens_def)

lemma still_opens_trans: "list_all2 (still_opens gcm r) xs ys \<Longrightarrow> list_all2 (still_opens gcm r) ys zs \<Longrightarrow>
    list_all2 (still_opens gcm r) xs zs"
proof -
  have "still_opens gcm r a b \<Longrightarrow> still_opens gcm r b c \<Longrightarrow> still_opens gcm r a c" for a b c
    by (simp add: still_opens_def)
  then show "list_all2 (still_opens gcm r) xs ys \<Longrightarrow> list_all2 (still_opens gcm r) ys zs \<Longrightarrow>
      list_all2 (still_opens gcm r) xs zs"
    by (rule list_all2_trans)
qed

lemma still_opens_keys: "list_all2 (still_opens gcm r) xs ys \<Longrightarrow> map secret_key ys = map secret_key xs"
  by (induction xs ys rule: list_all2_induct) (auto simp: still_opens_def)

lemma ring_roundtrip:
  assumes "aead gcm" and "ring_Seal gcm r p E w = (Inr sealed, w')"
  shows "ring_Open gcm r (sd_Encrypted sealed) (sd_Nonce sealed) (sd_KeyVersion sealed) = Inr p"
    and "sd_KeyVersion sealed = kr_activeVersion r" and "w' = tick w"
proof -
  show "ring_Open gcm r (sd_Encrypted sealed) (sd_Nonce sealed) (sd_KeyVersion sealed) = Inr p"
    using assms(2) by (rule ring_Seal_Inr) (use assms(1) in \<open>simp add: ring_Open_def box_roundtrip\<close>)
  show "sd_KeyVersion sealed = kr_activeVersion r" "w' = tick w"
    using assms(2) by (rule ring_Seal_Inr; simp)+
qed

abbreviation rewrap :: "SealedSecret \<Rightarrow> time \<Rightarrow> ProviderSecret \<Rightarrow> ProviderSecret" where
  "rewrap sealed now p \<equiv> p\<lparr>ps_EncryptedApiKey := sd_Encrypted sealed, ps_Nonce := sd_Nonce sealed,
     ps_KeyVersion := sd_KeyVersion sealed, ps_UpdatedAt := now\<rparr>"

definition replace_secret :: "ProviderSecret \<Rightarrow> SealedSecret \<Rightarrow> time \<Rightarrow> ProviderSecret list \<Rightarrow> ProviderSecret list" where
  "replace_secret s sealed now rows = update_rows (\<lambda>p. secret_key p = secret_key s) (rewrap sealed now) rows"

lemma UpdateProviderSecretCiphertext_db:
  "UpdateProviderSecretCiphertext (ps_OrgID s) (ps_ProviderID s) (ps_ID s) sealed now E w = (r, w') \<Longrightarrow>
     provider_secrets (w_db w') = provider_secrets (w_db w) \<or>
     provider_secrets (w_db w') = replace_secret s sealed now (provider_secrets (w_db w))"
  by (auto simp: UpdateProviderSecretCiphertext_def act_simps replace_secret_def secret_key_def
      split: if_splits sum.splits)

lemma replace_secret_opens:
  assumes "distinct (map secret_key rows)" and "s \<in> set rows"
    and plain: "secret_text gcm r s = Inr x"
    and "ring_Open gcm r (sd_Encrypted sealed) (sd_Nonce sealed) (sd_KeyVersion sealed) = Inr x"
  shows "list_all2 (still_opens gcm r) rows (replace_secret s sealed now rows)"
proof -
  have one: "p \<in> set rows \<Longrightarrow> secret_key p = secret_key s \<Longrightarrow> p = s" for p
    using assms(1,2) by (auto simp: distinct_map inj_on_def)
  have "still_opens gcm r p (if secret_key p = secret_key s then rewrap sealed now p else p)"
    if "p \<in> set rows" for p
    using one [OF that] plain assms(4) by (auto simp: still_opens_def secret_key_def secret_text_def)
  then show ?thesis
    by (simp add: replace_secret_def update_rows_def list_all2_map2 list_all2_same)
qed

lemma replace_secret_others: "p \<in> set rows \<Longrightarrow> secret_key p \<noteq> secret_key s \<Longrightarrow> p \<in> set (replace_secret s sealed now rows)"
  by (auto simp: replace_secret_def update_rows_def image_iff)

text \<open>
  Wherever the loop stops, every row still opens to its plaintext: a row is only overwritten by
  a fresh encryption of what it held.
\<close>

lemma reencrypt_loop_opens:
  assumes "aead gcm" and "distinct (map secret_key (provider_secrets (w_db w)))"
    and "set ss \<subseteq> set (provider_secrets (w_db w))" and "distinct (map secret_key ss)"
  shows "list_all2 (still_opens gcm r) (provider_secrets (w_db w))
    (provider_secrets (w_db (snd (reencrypt_provider_loop gcm r dryRun result ss E w))))"
  using assms
proof (induction ss arbitrary: result w)
  case Nil
  then show ?case by (simp add: act_simps list_all2_same still_opens_refl)
next
  case (Cons s ss)
  let ?rows = "provider_secrets (w_db w)"
  have skip: "list_all2 (still_opens gcm r) ?rows
      (provider_secrets (w_db (snd (reencrypt_provider_loop gcm r dryRun res ss E w))))" for res
    using Cons.prems by (intro Cons.IH) auto
  have same: "list_all2 (still_opens gcm r) ?rows ?rows" by (simp add: list_all2_same still_opens_refl)
  show ?case
  proof (cases "ps_KeyVersion s = kr_activeVersion r \<or> (\<exists>e. secret_text gcm r s = Inl e) \<or> dryRun")
    case True
    then show ?thesis
      using skip same by (cases "secret_text gcm r s") (auto simp: act_simps secret_text_def)
  next
    case False
    then obtain x where x: "secret_text gcm r s = Inr x" by (cases "secret_text gcm r s") auto
    obtain rs w1 where seal: "ring_Seal gcm r x E w = (rs, w1)" by fastforce
    show ?thesis
    proof (cases rs)
      case (Inl e)
      then have "w_db w1 = w_db w"
        using seal by (auto simp: ring_Seal_def box_Seal_def random_bytes_def act_simps split: option.splits)
      then show ?thesis using False x seal Inl same by (simp add: act_simps secret_text_def)
    next
      case (Inr sealed)
      let ?now = "env_time E (w_step w1)"
      have w1: "w1 = tick w" and opens: "ring_Open gcm r (sd_Encrypted sealed) (sd_Nonce sealed) (sd_KeyVersion sealed) = Inr x"
        using ring_roundtrip [OF Cons.prems(1)] seal Inr by auto
      obtain u w2 where upd: "UpdateProviderSecretCiphertext (ps_OrgID s) (ps_ProviderID s) (ps_ID s) sealed ?now E (tick w1) = (u, w2)"
        by fastforce
      let ?rows2 = "provider_secrets (w_db w2)"
      have step: "list_all2 (still_opens gcm r) ?rows ?rows2"
        using UpdateProviderSecretCiphertext_db [OF upd] replace_secret_opens [OF Cons.prems(2) _ x opens] same Cons.prems(3)
        by (auto simp: w1)
      have rest: "set ss \<subseteq> set ?rows2"
      proof
        fix x assume "x \<in> set ss"
        then have "x \<in> set ?rows" "secret_key x \<noteq> secret_key s" using Cons.prems(3,4) by (auto simp: image_iff)
        then show "x \<in> set ?rows2"
          using UpdateProviderSecretCiphertext_db [OF upd] replace_secret_others by (auto simp: w1)
      qed
      have "list_all2 (still_opens gcm r) ?rows2
          (provider_secrets (w_db (snd (reencrypt_provider_loop gcm r dryRun res ss E w2))))" for res
        using Cons.prems(1,2,4) still_opens_keys [OF step] rest by (intro Cons.IH) auto
      then have "list_all2 (still_opens gcm r) ?rows
          (provider_secrets (w_db (snd (reencrypt_provider_loop gcm r dryRun res ss E w2))))" for res
        using still_opens_trans [OF step] by blast
      then show ?thesis
        using False x seal Inr upd step by (cases u) (simp_all add: act_simps secret_text_def)
    qed
  qed
qed

section \<open>Properties\<close>

text \<open>
  A webhook secret sealed with a key ring is stored under the active key version and opens,
  with the same ring, to the trimmed secret that was sealed; sealing itself always succeeds.
\<close>

lemma webhook_secret_roundtrip:
  assumes "aead gcm" and "in_int32 v" and "NewSecretKeyRing v keys = Inr r" and "TrimSpace value \<noteq> []"
  shows "\<exists>stored w'. SealWebhookSecret gcm (Some r) value E w = (Inr stored, w') \<and>
    OpenWebhookSecret gcm (Some r) stored = Inr (TrimSpace value) \<and>
    WebhookSecretKeyVersion stored = Inr (v, True)"
proof -
  have r: "ring_ok r" "kr_activeVersion r = v" using NewSecretKeyRing_ok assms by auto
  then obtain stored w' where "SealWebhookSecret gcm (Some r) value E w = (Inr stored, w')"
    using SealWebhookSecret_total by blast
  then show ?thesis using sealed_secret [OF assms(1) r(1) _ assms(4)] r(2) by blast
qed

definition demo_cipher :: cipher where
  "demo_cipher = \<lparr>gcm_seal = (\<lambda>key nonce p. key @ nonce @ p),
     gcm_open = (\<lambda>key nonce c. if take (length key + length nonce) c = key @ nonce
       then Some (drop (length key + length nonce) c) else None)\<rparr>"

definition demo_ring :: SecretKeyRing where
  "demo_ring = \<lparr>kr_activeVersion = 2, kr_boxes = [(1, replicate 32 (CHR ''a'')), (2, replicate 32 (CHR ''b''))]\<rparr>"

lemma aead_demo: "aead demo_cipher"
  by (simp add: aead_def demo_cipher_def)

lemma demo_ring_new:
  "NewSecretKeyRing 2 [(1, replicate 32 (CHR ''a'')), (2, replicate 32 (CHR ''b''))] = Inr demo_ring"
  by (simp add: NewSecretKeyRing_def NewSecretBox_def demo_ring_def)

lemma webhook_secret_demo:
  "\<exists>stored w'. SealWebhookSecret demo_cipher (Some demo_ring) '' s3cret '' demo_env (world_of demo_db) = (Inr stored, w') \<and>
    OpenWebhookSecret demo_cipher (Some demo_ring) stored = Inr ''s3cret''"
proof -
  have "TrimSpace '' s3cret '' = ''s3cret''" by code_simp
  then show ?thesis
    using webhook_secret_roundtrip [OF aead_demo _ demo_ring_new, of "'' s3cret ''" demo_env "world_of demo_db"]
    by (auto simp: in_int32_def)
qed

text \<open>
  Re-encrypting one webhook secret keeps its plaintext (trimmed) or leaves the value alone, and
  a second pass finds nothing to do.
\<close>

theorem webhook_rotation:
  assumes "aead gcm" and "ring_ok r"
    and run: "reencryptWebhookSecretValue gcm r stored E w = (Inr (stored', changed), w')"
  shows "(if changed then \<exists>p. OpenWebhookSecret gcm (Some r) stored = Inr p \<and>
        OpenWebhookSecret gcm (Some r) stored' = Inr (TrimSpace p) else stored' = stored) \<and>
    reencryptWebhookSecretValue gcm r stored' E2 w2 = (Inr (stored', False), w2)"
  using run
proof (cases rule: reencrypt_value_Inr)
  case same
  then show ?thesis using reencrypt_value_current by simp
next
  case (rotated p)
  show ?thesis
  proof (cases "TrimSpace p = []")
    case True
    then have "stored' = None" using rotated by (simp add: SealWebhookSecret_def act_inr)
    then show ?thesis
      using rotated True reencrypt_value_current [of None] by (simp add: OpenWebhookSecret_def)
  next
    case False
    then show ?thesis
      using rotated sealed_secret [OF assms(1,2) rotated(3) False] reencrypt_value_current [of stored'] by simp
  qed
qed

theorem webhook_rotation_witness:
  "ring_ok demo_ring \<and> OpenWebhookSecret demo_cipher (Some demo_ring) (Some ''plain'') = Inr ''plain'' \<and>
   (\<exists>stored'. OpenWebhookSecret demo_cipher (Some demo_ring) stored' = Inr ''plain'' \<and>
      reencryptWebhookSecretValue demo_cipher demo_ring stored' demo_env (world_of demo_db) = (Inr (stored', False), world_of demo_db))"
proof -
  have trim: "TrimSpace ''plain'' = ''plain''" "HasPrefix ''plain'' encryptedWebhookSecretPrefix = False" by code_simp+
  have ring: "ring_ok demo_ring" by (simp add: ring_ok_def demo_ring_def in_int32_def)
  have op: "OpenWebhookSecret demo_cipher (Some demo_ring) (Some ''plain'') = Inr ''plain''"
    by (simp add: OpenWebhookSecret_def trim)
  obtain stored' w' where "SealWebhookSecret demo_cipher (Some demo_ring) ''plain'' demo_env (world_of demo_db) = (Inr stored', w')"
    using SealWebhookSecret_total [OF ring] by blast
  then have "reencryptWebhookSecretValue demo_cipher demo_ring (Some ''plain'') demo_env (world_of demo_db) = (Inr (stored', True), w')"
    using op by (simp add: reencryptWebhookSecretValue_def WebhookSecretKeyVersion_def trim act_simps)
  then show ?thesis
    using webhook_rotation [OF aead_demo ring, of "Some ''plain''" demo_env "world_of demo_db" stored' True w' demo_env "world_of demo_db"] op ring trim by auto
qed


definition demo_secret :: ProviderSecret where
  "demo_secret = \<lparr>ps_ID = 9, ps_OrgID = 1, ps_ProviderID = 3,
     ps_EncryptedApiKey = base64_encode (replicate 32 (CHR ''a'') @ replicate 12 (CHR ''n'') @ ''sk-1''),
     ps_Nonce = base64_encode (replicate 12 (CHR ''n'')), ps_KeyVersion = 1,
     ps_CreatedAt = demo_t0, ps_UpdatedAt = demo_t0\<rparr>"

lemma demo_secret_opens: "secret_text demo_cipher demo_ring demo_secret = Inr ''sk-1''"
proof -
  have "gcm_seal demo_cipher (replicate 32 (CHR ''a'')) (replicate 12 (CHR ''n'')) ''sk-1'' =
      replicate 32 (CHR ''a'') @ replicate 12 (CHR ''n'') @ ''sk-1''"
    by (simp add: demo_cipher_def)
  then show ?thesis
    using box_roundtrip [OF aead_demo, of "replicate 12 (CHR ''n'')" "replicate 32 (CHR ''a'')" "''sk-1''"]
    by (simp add: secret_text_def ring_Open_def demo_ring_def demo_secret_def)
qed


end
