(* ===== verification/Netutil.thy ===== *)
theory Netutil
  imports Store
begin

text \<open>
  \<^verbatim>\<open>internal/netutil/outbound.go\<close>: which URLs and addresses the gateway may call. URL parsing and
  the parsing of IP literals are parameters; the address predicates of Go's \<^verbatim>\<open>net\<close> package are
  written out on the 16-byte form, with IPv4 addresses in their mapped form.
\<close>

section \<open>Addresses\<close>

type_synonym ip = "128 word"

definition ip_byte :: "nat \<Rightarrow> ip \<Rightarrow> nat" where
  "ip_byte k u = unat u div 256 ^ (15 - k) mod 256"

text \<open>\<^verbatim>\<open>To4\<close>: the bytes of an IPv4 address, when the address is one.\<close>

definition To4 :: "ip \<Rightarrow> nat option" where
  "To4 u = (if unat u div 2 ^ 32 = 65535 then Some (unat u mod 2 ^ 32) else None)"

definition v4_byte :: "nat \<Rightarrow> nat \<Rightarrow> nat" where
  "v4_byte k n = n div 256 ^ (3 - k) mod 256"

definition IsLoopback :: "ip \<Rightarrow> bool" where
  "IsLoopback u = (case To4 u of Some n \<Rightarrow> v4_byte 0 n = 127 | None \<Rightarrow> u = 1)"

definition IsPrivate :: "ip \<Rightarrow> bool" where
  "IsPrivate u = (case To4 u of
     Some n \<Rightarrow> v4_byte 0 n = 10 \<or> v4_byte 0 n = 172 \<and> v4_byte 1 n div 16 = 1 \<or>
       v4_byte 0 n = 192 \<and> v4_byte 1 n = 168
   | None \<Rightarrow> ip_byte 0 u div 2 = 126)"

definition IsUnspecified :: "ip \<Rightarrow> bool" where
  "IsUnspecified u \<longleftrightarrow> To4 u = Some 0 \<or> u = 0"

definition IsLinkLocalUnicast :: "ip \<Rightarrow> bool" where
  "IsLinkLocalUnicast u = (case To4 u of
     Some n \<Rightarrow> v4_byte 0 n = 169 \<and> v4_byte 1 n = 254
   | None \<Rightarrow> ip_byte 0 u = 254 \<and> ip_byte 1 u div 64 = 2)"

definition IsLinkLocalMulticast :: "ip \<Rightarrow> bool" where
  "IsLinkLocalMulticast u = (case To4 u of
     Some n \<Rightarrow> v4_byte 0 n = 224 \<and> v4_byte 1 n = 0 \<and> v4_byte 2 n = 0
   | None \<Rightarrow> ip_byte 0 u = 255 \<and> ip_byte 1 u mod 16 = 2)"

definition IsMulticast :: "ip \<Rightarrow> bool" where
  "IsMulticast u = (case To4 u of Some n \<Rightarrow> v4_byte 0 n div 16 = 14 | None \<Rightarrow> ip_byte 0 u = 255)"

definition IsPublicIP :: "ip option \<Rightarrow> bool" where
  "IsPublicIP addr = (case addr of
     None \<Rightarrow> False
   | Some u \<Rightarrow> \<not> (IsLoopback u \<or> IsPrivate u \<or> IsUnspecified u \<or> IsLinkLocalUnicast u \<or>
       IsLinkLocalMulticast u \<or> IsMulticast u))"

section \<open>URLs\<close>

text \<open>What the checks read of a parsed \<^verbatim>\<open>url.URL\<close>.\<close>

record parsed_url =
  url_Scheme :: string
  url_Host :: string
  url_Hostname :: string
  url_has_User :: bool

record net_lib =
  url_Parse :: "string \<Rightarrow> parsed_url option"
  ParseIP :: "string \<Rightarrow> ip option"

definition unsafeHostname :: "net_lib \<Rightarrow> string \<Rightarrow> bool" where
  "unsafeHostname lib host0 =
     (let host = TrimSpace (ToLower (TrimSuffix host0 ''.''))
      in if host = [] then True
         else case ParseIP lib host of
           Some addr \<Rightarrow> \<not> IsPublicIP (Some addr)
         | None \<Rightarrow> host = ''localhost'' \<or> HasSuffix host ''.localhost'' \<or> HasSuffix host ''.local'' \<or>
             host = ''metadata.google.internal'')"

definition ValidateOutboundHTTPURL :: "net_lib \<Rightarrow> string \<Rightarrow> string \<Rightarrow> bool \<Rightarrow> unit outcome" where
  "ValidateOutboundHTTPURL lib rawURL field publicOnly =
     (case url_Parse lib (TrimSpace rawURL) of
        None \<Rightarrow> Inl (ErrMsg (field @ '' must be a valid URL''))
      | Some parsed \<Rightarrow>
          if url_Scheme parsed \<noteq> ''http'' \<and> url_Scheme parsed \<noteq> ''https''
          then Inl (ErrMsg (field @ '' must use http or https''))
          else if url_Host parsed = [] then Inl (ErrMsg (field @ '' must include host''))
          else if url_has_User parsed then Inl (ErrMsg (field @ '' must not include user info''))
          else if publicOnly \<and> url_Scheme parsed \<noteq> ''https'' then Inl (ErrMsg (field @ '' must use https''))
          else if publicOnly \<and> unsafeHostname lib (url_Hostname parsed)
          then Inl (ErrMsg (field @ '' must use a public host''))
          else Inr ())"

section \<open>The client that only reaches public addresses\<close>

text \<open>
  \<^verbatim>\<open>DialContext\<close>: the addresses the resolver returned are tried in order and the first public one
  is dialled; \<^verbatim>\<open>CheckRedirect\<close> is asked before every redirect.
\<close>

fun dial_target :: "ip option list \<Rightarrow> ip outcome" where
  "dial_target [] = Inl (ErrMsg ''blocked outbound connection to non-public host'')"
| "dial_target (a # as) = (case a of
     None \<Rightarrow> dial_target as
   | Some addr \<Rightarrow> if IsPublicIP (Some addr) then Inr addr else dial_target as)"

definition CheckRedirect :: "net_lib \<Rightarrow> string \<Rightarrow> nat \<Rightarrow> unit outcome" where
  "CheckRedirect lib url via =
     (if 10 \<le> via then Inl (ErrMsg ''stopped after 10 redirects'')
      else ValidateOutboundHTTPURL lib url ''redirect_url'' True)"

text \<open>
  One request of \<^verbatim>\<open>PublicOnlyHTTPClient\<close>: the chain of URLs the servers redirect to. Every hop is
  dialled; every redirect is checked first.
\<close>

fun follow :: "net_lib \<Rightarrow> (string \<Rightarrow> ip option list outcome) \<Rightarrow> nat \<Rightarrow> string \<Rightarrow> string list \<Rightarrow> (string \<times> ip) list outcome" where
  "follow lib resolve via url redirects =
     (case resolve url of
        Inl e \<Rightarrow> Inl e
      | Inr addrs \<Rightarrow> (case dial_target addrs of
          Inl e \<Rightarrow> Inl e
        | Inr addr \<Rightarrow> (case redirects of
            [] \<Rightarrow> Inr [(url, addr)]
          | target # later \<Rightarrow> (case CheckRedirect lib target (Suc via) of
              Inl e \<Rightarrow> Inl e
            | Inr _ \<Rightarrow> (case follow lib resolve (Suc via) target later of
                Inl e \<Rightarrow> Inl e
              | Inr hops \<Rightarrow> Inr ((url, addr) # hops))))))"

declare follow.simps [simp del]

section \<open>Reference definitions\<close>

text \<open>The IPv4 ranges an outbound call must not reach, as intervals of 32-bit numbers.\<close>

definition v4 :: "nat \<Rightarrow> nat \<Rightarrow> nat \<Rightarrow> nat \<Rightarrow> nat" where
  "v4 a b c d = ((a * 256 + b) * 256 + c) * 256 + d"

definition reserved_v4 :: "(nat \<times> nat) list" where
  "reserved_v4 =
     [(v4 0 0 0 0, v4 0 0 0 0), (v4 10 0 0 0, v4 10 255 255 255), (v4 127 0 0 0, v4 127 255 255 255),
      (v4 169 254 0 0, v4 169 254 255 255), (v4 172 16 0 0, v4 172 31 255 255),
      (v4 192 168 0 0, v4 192 168 255 255), (v4 224 0 0 0, v4 239 255 255 255)]"

definition v4_reserved :: "nat \<Rightarrow> bool" where
  "v4_reserved n \<longleftrightarrow> list_ex (\<lambda>(lo, hi). lo \<le> n \<and> n \<le> hi) reserved_v4"

definition mapped_v4 :: "nat \<Rightarrow> ip" where
  "mapped_v4 n = word_of_nat (65535 * 2 ^ 32 + n)"

lemma To4_mapped:
  assumes n: "n < 2 ^ 32"
  shows "To4 (mapped_v4 n) = Some n"
proof -
  have "(65535 * 2 ^ 32 + n) div 2 ^ 32 = 65535"
    using n by (intro div_nat_eqI) simp_all
  moreover have "(65535 * 2 ^ 32 + n) mod 2 ^ 32 = n"
    using n by (simp only: mod_mult_self3 mod_less)
  moreover have "unat (mapped_v4 n) = 65535 * 2 ^ 32 + n"
    using n by (simp add: mapped_v4_def unat_of_nat take_bit_nat_eq_self unat_word_ariths)
  ultimately show ?thesis by (simp only: To4_def) simp
qed

lemma v4_join: "n = 256 * m1 + r0 \<Longrightarrow> m1 = 256 * m2 + r1 \<Longrightarrow> m2 = 256 * m3 + r2 \<Longrightarrow> n = v4 m3 r2 r1 r0"
  by (simp add: v4_def)

lemma v4_digits:
  assumes "n < 2 ^ 32"
  shows "n = v4 (v4_byte 0 n) (v4_byte 1 n) (v4_byte 2 n) (v4_byte 3 n)"
    "v4_byte 0 n < 256" "v4_byte 1 n < 256" "v4_byte 2 n < 256" "v4_byte 3 n < 256"
proof -
  define m1 m2 m3 where "m1 = n div 256" and "m2 = m1 div 256" and "m3 = m2 div 256"
  have "n = 256 * m1 + n mod 256" "m1 = 256 * m2 + m1 mod 256" "m2 = 256 * m3 + m2 mod 256"
    by (simp_all add: m1_def m2_def m3_def)
  moreover have "v4_byte 0 n = m3 mod 256" "v4_byte 1 n = m2 mod 256" "v4_byte 2 n = m1 mod 256" "v4_byte 3 n = n mod 256"
    by (simp_all add: v4_byte_def m1_def m2_def m3_def flip: div_mult2_eq)
  moreover have "m3 mod 256 = m3"
    using assms by (simp add: m1_def m2_def m3_def flip: div_mult2_eq)
  ultimately show "n = v4 (v4_byte 0 n) (v4_byte 1 n) (v4_byte 2 n) (v4_byte 3 n)"
    using v4_join [of n m1 "n mod 256" m2 "m1 mod 256" m3 "m2 mod 256"] by metis
qed (simp_all add: v4_byte_def)

lemma v4_range:
  assumes "a < 256" "b < 256" "c < 256" "d < 256"
  shows "v4 p 0 0 0 \<le> v4 a b c d \<and> v4 a b c d \<le> v4 q 255 255 255 \<longleftrightarrow> p \<le> a \<and> a \<le> q"
    "p < 256 \<Longrightarrow> q < 256 \<Longrightarrow> v4 k p 0 0 \<le> v4 a b c d \<and> v4 a b c d \<le> v4 k q 255 255 \<longleftrightarrow> a = k \<and> p \<le> b \<and> b \<le> q"
proof -
  show "v4 p 0 0 0 \<le> v4 a b c d \<and> v4 a b c d \<le> v4 q 255 255 255 \<longleftrightarrow> p \<le> a \<and> a \<le> q"
    using assms unfolding v4_def by auto
  show "v4 k p 0 0 \<le> v4 a b c d \<and> v4 a b c d \<le> v4 k q 255 255 \<longleftrightarrow> a = k \<and> p \<le> b \<and> b \<le> q"
    if "p < 256" "q < 256"
  proof
    assume h: "v4 k p 0 0 \<le> v4 a b c d \<and> v4 a b c d \<le> v4 k q 255 255"
    then have "k \<le> a" "a \<le> k" using assms that unfolding v4_def by auto
    then have "a = k" by simp
    then show "a = k \<and> p \<le> b \<and> b \<le> q" using h assms that unfolding v4_def by auto
  qed (use assms that in \<open>auto simp: v4_def\<close>)
qed

lemma v4_reserved_cases: "v4_reserved n \<longleftrightarrow>
  (v4 0 0 0 0 \<le> n \<and> n \<le> v4 0 0 0 0) \<or> (v4 10 0 0 0 \<le> n \<and> n \<le> v4 10 255 255 255) \<or>
  (v4 127 0 0 0 \<le> n \<and> n \<le> v4 127 255 255 255) \<or> (v4 169 254 0 0 \<le> n \<and> n \<le> v4 169 254 255 255) \<or>
  (v4 172 16 0 0 \<le> n \<and> n \<le> v4 172 31 255 255) \<or> (v4 192 168 0 0 \<le> n \<and> n \<le> v4 192 168 255 255) \<or>
  (v4 224 0 0 0 \<le> n \<and> n \<le> v4 239 255 255 255)"
  by (simp add: v4_reserved_def reserved_v4_def)

text \<open>For IPv4, the predicates of the \<^verbatim>\<open>net\<close> package are membership in the reserved ranges.\<close>

lemma public_v4:
  assumes n: "n < 2 ^ 32"
  shows "IsPublicIP (Some (mapped_v4 n)) \<longleftrightarrow> \<not> v4_reserved n"
proof -
  obtain a b c d where abcd: "n = v4 a b c d" "a < 256" "b < 256" "c < 256" "d < 256"
    and bytes: "v4_byte 0 n = a" "v4_byte 1 n = b" "v4_byte 2 n = c"
    using v4_digits [OF n] by blast
  have "mapped_v4 n \<noteq> 0" "mapped_v4 n \<noteq> 1"
    using To4_mapped [OF n] by (auto simp: To4_def)
  then have "IsPublicIP (Some (mapped_v4 n)) \<longleftrightarrow> \<not> (a = 127 \<or> a = 10 \<or> a = 172 \<and> b div 16 = 1 \<or>
      a = 192 \<and> b = 168 \<or> n = 0 \<or> a = 169 \<and> b = 254 \<or> a div 16 = 14)"
    by (auto simp: IsPublicIP_def IsLoopback_def IsPrivate_def IsUnspecified_def IsLinkLocalUnicast_def
        IsLinkLocalMulticast_def IsMulticast_def To4_mapped [OF n] bytes simp del: One_nat_def)
  moreover have "b div 16 = 1 \<longleftrightarrow> 16 \<le> b \<and> b \<le> 31" "a div 16 = 14 \<longleftrightarrow> 224 \<le> a \<and> a \<le> 239" by auto
  moreover have "v4_reserved n \<longleftrightarrow> n = 0 \<or> a = 10 \<or> a = 127 \<or> a = 169 \<and> b = 254 \<or> a = 172 \<and> 16 \<le> b \<and> b \<le> 31 \<or>
      a = 192 \<and> b = 168 \<or> 224 \<le> a \<and> a \<le> 239"
  proof -
    note one = v4_range(1) [OF abcd(2-5), folded abcd(1)] and two = v4_range(2) [OF abcd(2-5), folded abcd(1)]
    have r0: "v4 0 0 0 0 \<le> n \<and> n \<le> v4 0 0 0 0 \<longleftrightarrow> n = 0" by (simp add: v4_def)
    have r10: "v4 10 0 0 0 \<le> n \<and> n \<le> v4 10 255 255 255 \<longleftrightarrow> a = 10" using one [of 10 10] by auto
    have r127: "v4 127 0 0 0 \<le> n \<and> n \<le> v4 127 255 255 255 \<longleftrightarrow> a = 127" using one [of 127 127] by auto
    have r169: "v4 169 254 0 0 \<le> n \<and> n \<le> v4 169 254 255 255 \<longleftrightarrow> a = 169 \<and> b = 254" using two [of 254 254 169] by auto
    have r172: "v4 172 16 0 0 \<le> n \<and> n \<le> v4 172 31 255 255 \<longleftrightarrow> a = 172 \<and> 16 \<le> b \<and> b \<le> 31" using two [of 16 31 172] by auto
    have r192: "v4 192 168 0 0 \<le> n \<and> n \<le> v4 192 168 255 255 \<longleftrightarrow> a = 192 \<and> b = 168" using two [of 168 168 192] by auto
    show ?thesis by (simp only: v4_reserved_cases r0 r10 r127 r169 r172 r192 one [of 224 239])
  qed
  ultimately show ?thesis by argo
qed

lemma dial_target_public: "dial_target addrs = Inr a \<Longrightarrow> IsPublicIP (Some a)"
  by (induction addrs) (auto split: option.splits if_splits)

lemma follow_hops:
  "via < 10 \<Longrightarrow> follow lib resolve via url redirects = Inr hops \<Longrightarrow>
     via + length hops \<le> 10 \<and> hops \<noteq> [] \<and> fst (hd hops) = url \<and> list_all (\<lambda>(u, addr). IsPublicIP (Some addr)) hops \<and>
     list_all (\<lambda>(u, addr). ValidateOutboundHTTPURL lib u ''redirect_url'' True = Inr ()) (tl hops)"
proof (induction redirects arbitrary: via url hops)
  case Nil
  then show ?case
    by (auto simp: follow.simps split: sum.splits dest: dial_target_public)
next
  case (Cons target later)
  obtain addr rest where dial: "IsPublicIP (Some addr)" and check: "CheckRedirect lib target (Suc via) = Inr ()"
    and rest: "follow lib resolve (Suc via) target later = Inr rest" and hops: "hops = (url, addr) # rest"
    using Cons.prems(2)
    by (auto simp: follow.simps [of _ _ _ url] split: sum.splits dest: dial_target_public)
  have via: "Suc via < 10" and valid: "ValidateOutboundHTTPURL lib target ''redirect_url'' True = Inr ()"
    using check by (auto simp: CheckRedirect_def split: if_splits)
  show ?case
    using Cons.IH [OF via rest] dial valid by (cases rest) (auto simp: hops)
qed

section \<open>Properties\<close>

text \<open>
  C40: The client for public hosts never opens a connection to a reserved IPv4 address (loopback,
  private, link-local, multicast, unspecified): neither for the first request nor for any
  redirect, whatever the resolver answers; it follows at most ten hops, and every hop after the
  first passed the URL check.
\<close>

theorem public_client_safe:
  assumes "follow lib resolve 0 url redirects = Inr hops"
  shows "length hops \<le> 10 \<and> list_all (\<lambda>(u, addr). IsPublicIP (Some addr)) hops \<and>
    list_all (\<lambda>(u, addr). ValidateOutboundHTTPURL lib u ''redirect_url'' True = Inr ()) (tl hops) \<and>
    (n < 2 ^ 32 \<longrightarrow> v4_reserved n \<longrightarrow> mapped_v4 n \<notin> snd ` set hops)"
proof -
  have safe: "0 + length hops \<le> 10" "list_all (\<lambda>(u, addr). IsPublicIP (Some addr)) hops"
    "list_all (\<lambda>(u, addr). ValidateOutboundHTTPURL lib u ''redirect_url'' True = Inr ()) (tl hops)"
    using follow_hops [OF _ assms] by simp_all
  moreover have "mapped_v4 n \<notin> snd ` set hops" if "n < 2 ^ 32" "v4_reserved n"
    using safe(2) public_v4 [OF that(1)] that(2) by (auto simp: list_all_iff)
  ultimately show ?thesis by simp
qed

definition demo_net :: net_lib where
  "demo_net = \<lparr>url_Parse = (\<lambda>s. Some \<lparr>url_Scheme = ''https'', url_Host = s, url_Hostname = s, url_has_User = False\<rparr>),
     ParseIP = (\<lambda>s. if s = ''10.0.0.1'' then Some (mapped_v4 (v4 10 0 0 1)) else None)\<rparr>"

lemma demo_reserved: "v4_reserved (v4 10 0 0 1)" "\<not> v4_reserved (v4 8 8 8 8)"
  by (simp_all add: v4_reserved_def reserved_v4_def v4_def)

lemma demo_public: "IsPublicIP (Some (mapped_v4 (v4 8 8 8 8)))" "\<not> IsPublicIP (Some (mapped_v4 (v4 10 0 0 1)))"
  using public_v4 [of "v4 8 8 8 8"] public_v4 [of "v4 10 0 0 1"] demo_reserved by (simp_all add: v4_def)

lemma demo_redirect: "ValidateOutboundHTTPURL demo_net ''b.example'' ''redirect_url'' True = Inr ()"
  by (simp add: ValidateOutboundHTTPURL_def demo_net_def unsafeHostname_def TrimSpace_def TrimLeft_def is_space_def
      ToLower_def lower_char_def TrimSuffix_def HasSuffix_def HasPrefix_def Let_def)

theorem public_client_safe_witness:
  "follow demo_net (\<lambda>_. Inr [Some (mapped_v4 (v4 10 0 0 1)), Some (mapped_v4 (v4 8 8 8 8))]) 0 ''a.example'' [''b.example'']
     = Inr [(''a.example'', mapped_v4 (v4 8 8 8 8)), (''b.example'', mapped_v4 (v4 8 8 8 8))] \<and>
   mapped_v4 (v4 10 0 0 1) \<notin> snd ` set [(''a.example'', mapped_v4 (v4 8 8 8 8)), (''b.example'', mapped_v4 (v4 8 8 8 8))]"
proof -
  have run: "follow demo_net (\<lambda>_. Inr [Some (mapped_v4 (v4 10 0 0 1)), Some (mapped_v4 (v4 8 8 8 8))]) 0 ''a.example'' [''b.example'']
      = Inr [(''a.example'', mapped_v4 (v4 8 8 8 8)), (''b.example'', mapped_v4 (v4 8 8 8 8))]"
    by (simp add: follow.simps CheckRedirect_def demo_redirect demo_public del: One_nat_def)
  have "v4 10 0 0 1 < 2 ^ 32" by (simp add: v4_def)
  then show ?thesis
    using public_client_safe [OF run, of "v4 10 0 0 1"] run demo_reserved(1) by argo
qed

text \<open>
  On IPv4 the address predicates agree with the list of reserved ranges, and a URL accepted for
  public use is an https URL whose host is neither empty, nor a literal of a reserved address,
  nor a local name.
\<close>

theorem public_url_check:
  "(n < 2 ^ 32 \<longrightarrow> (IsPublicIP (Some (mapped_v4 n)) \<longleftrightarrow> \<not> v4_reserved n)) \<and>
   (ValidateOutboundHTTPURL lib raw field True = Inr () \<longleftrightarrow>
      (case url_Parse lib (TrimSpace raw) of
         None \<Rightarrow> False
       | Some u \<Rightarrow> url_Scheme u = ''https'' \<and> url_Host u \<noteq> [] \<and> \<not> url_has_User u \<and>
           \<not> unsafeHostname lib (url_Hostname u)))"
  using public_v4 by (auto simp: ValidateOutboundHTTPURL_def split: option.splits)

theorem public_url_check_witness:
  "v4_reserved (v4 10 0 0 1) \<and> \<not> IsPublicIP (Some (mapped_v4 (v4 10 0 0 1)))"
proof -
  have "v4 10 0 0 1 < 2 ^ 32" by (simp add: v4_def)
  then show ?thesis using public_url_check [of "v4 10 0 0 1" demo_net "[]" "[]"] demo_reserved(1) by argo
qed

end
