(* ===== verification/Budgets.thy ===== *)
theory Budgets
  imports Samples
begin

text \<open>
  \<^verbatim>\<open>internal/budget/service.go\<close>: budgets of an organisation, their status in the current period
  window and the decision whether a request may go on.
\<close>

section \<open>Data\<close>

record CreateBudgetParams =
  cb_OrgID :: uuid
  cb_Name :: string
  cb_ScopeType :: string
  cb_Period :: string
  cb_LimitMicroUSD :: int
  cb_Action :: string

record BudgetStatus =
  bs_Budget :: Budget
  bs_UsedMicroUSD :: int
  bs_RemainingMicroUSD :: int
  bs_Exceeded :: bool
  bs_WindowStart :: time
  bs_WindowEnd :: time

record periodUsage =
  pu_UsedMicroUSD :: int
  pu_WindowStart :: time
  pu_WindowEnd :: time

record CheckResult =
  ck_Allowed :: bool
  ck_Exceeded :: bool
  ck_Warning :: bool
  ck_Action :: string
  ck_Status :: "BudgetStatus option"

section \<open>Operations\<close>

definition CreateBudget :: "CreateBudgetParams \<Rightarrow> Budget act" where
  "CreateBudget params =
    (let name = TrimSpace (cb_Name params);
         scopeType = (if cb_ScopeType params = [] then ''org'' else cb_ScopeType params);
         action = (if cb_Action params = [] then ''block'' else cb_Action params)
     in if name = [] then fail (ErrMsg ''budget name is required'')
        else if cb_OrgID params = uuid_Nil then fail (ErrMsg ''org_id is required'')
        else if scopeType \<noteq> ''org'' then fail (ErrMsg ''scope_type must be org'')
        else if cb_Period params \<noteq> ''daily'' \<and> cb_Period params \<noteq> ''monthly''
        then fail (ErrMsg ''period must be daily or monthly'')
        else if action \<noteq> ''warn'' \<and> action \<noteq> ''block'' then fail (ErrMsg ''action must be warn or block'')
        else if cb_LimitMicroUSD params < 0 then fail (ErrMsg ''limit_micro_usd must be non-negative'')
        else andThen clock_now (\<lambda>now. andThen new_uuid (\<lambda>i.
          CreateBudget_row \<lparr>bg_ID = i, bg_OrgID = cb_OrgID params, bg_Name = name,
            bg_ScopeType = scopeType, bg_ScopeID = None, bg_Period = cb_Period params,
            bg_LimitMicroUsd = cb_LimitMicroUSD params, bg_Action = action,
            bg_Status = ''active'', bg_CreatedAt = now, bg_UpdatedAt = now\<rparr>)))"

definition budget_window :: "time \<Rightarrow> string \<Rightarrow> (time \<times> time) outcome" where
  "budget_window now period =
     (if period = ''daily'' then
        (let start = time_Date (time_Year now) (time_Month now) (time_Day now)
         in Inr (start, AddDate start 0 0 1))
      else if period = ''monthly'' then
        (let start = time_Date (time_Year now) (time_Month now) 1
         in Inr (start, AddDate start 0 1 0))
      else Inl (ErrMsg ''unsupported budget period''))"

definition budget_periodWindow :: "string \<Rightarrow> (time \<times> time) act" where
  "budget_periodWindow period = andThen clock_now (\<lambda>now. lift (budget_window now period))"

text \<open>
  The usage cache of one call: a map from periods to what was read, or nil. The updated map is
  part of the result.
\<close>

type_synonym usage_cache = "(string \<rightharpoonup> periodUsage) option"

definition usageForPeriod :: "uuid \<Rightarrow> string \<Rightarrow> usage_cache \<Rightarrow> (periodUsage \<times> usage_cache) act" where
  "usageForPeriod orgID period usageByPeriod =
     (case Option.bind usageByPeriod (\<lambda>m. m period) of
        Some usage \<Rightarrow> ret (usage, usageByPeriod)
      | None \<Rightarrow>
          andThen (budget_periodWindow period) (\<lambda>(start, end').
          andThen (GetBudgetUsedAmount orgID start end') (\<lambda>used.
          let usage = \<lparr>pu_UsedMicroUSD = used, pu_WindowStart = start, pu_WindowEnd = end'\<rparr>
          in ret (usage, map_option (\<lambda>m. m(period \<mapsto> usage)) usageByPeriod))))"

definition status_of :: "Budget \<Rightarrow> periodUsage \<Rightarrow> BudgetStatus" where
  "status_of item usage =
    (let remaining = wrap64 (bg_LimitMicroUsd item - pu_UsedMicroUSD usage)
     in \<lparr>bs_Budget = item, bs_UsedMicroUSD = pu_UsedMicroUSD usage,
         bs_RemainingMicroUSD = (if remaining < 0 then 0 else remaining),
         bs_Exceeded = (bg_LimitMicroUsd item \<le> pu_UsedMicroUSD usage),
         bs_WindowStart = pu_WindowStart usage, bs_WindowEnd = pu_WindowEnd usage\<rparr>)"

definition statusForBudgetWithCache :: "Budget \<Rightarrow> usage_cache \<Rightarrow> (BudgetStatus \<times> usage_cache) act" where
  "statusForBudgetWithCache item usageByPeriod =
     andThen (usageForPeriod (bg_OrgID item) (bg_Period item) usageByPeriod) (\<lambda>(usage, cache).
       ret (status_of item usage, cache))"

definition statusForBudget :: "Budget \<Rightarrow> BudgetStatus act" where
  "statusForBudget item = andThen (statusForBudgetWithCache item None) (\<lambda>(status, _). ret status)"

fun statuses_loop :: "Budget list \<Rightarrow> usage_cache \<Rightarrow> BudgetStatus list act" where
  "statuses_loop [] cache = ret []"
| "statuses_loop (item # items) cache =
     andThen (statusForBudgetWithCache item cache) (\<lambda>(status, cache').
     andThen (statuses_loop items cache') (\<lambda>statuses. ret (status # statuses)))"

definition GetStatus :: "uuid \<Rightarrow> BudgetStatus list act" where
  "GetStatus orgID = andThen (ListBudgets orgID) (\<lambda>budgets. statuses_loop budgets (Some Map.empty))"

fun check_loop :: "CheckResult \<Rightarrow> BudgetStatus list \<Rightarrow> CheckResult" where
  "check_loop result [] = result"
| "check_loop result (status # statuses) =
     (if bg_Status (bs_Budget status) \<noteq> ''active'' \<or> \<not> bs_Exceeded status then check_loop result statuses
      else if bg_Action (bs_Budget status) = ''block'' then
        \<lparr>ck_Allowed = False, ck_Exceeded = True, ck_Warning = False, ck_Action = ''block'',
         ck_Status = Some status\<rparr>
      else if bg_Action (bs_Budget status) = ''warn'' \<and> \<not> ck_Warning result then
        check_loop (result\<lparr>ck_Exceeded := True, ck_Warning := True, ck_Action := ''warn'',
          ck_Status := Some status\<rparr>) statuses
      else check_loop result statuses)"

definition Check :: "uuid \<Rightarrow> CheckResult act" where
  "Check orgID = andThen (GetStatus orgID) (\<lambda>statuses.
     ret (check_loop \<lparr>ck_Allowed = True, ck_Exceeded = False, ck_Warning = False, ck_Action = [],
       ck_Status = None\<rparr> statuses))"

section \<open>Windows\<close>

lemma budget_window_eq: "budget_window now p =
  (if p = ''daily'' then Inr (day_window now) else if p = ''monthly'' then Inr (month_window now)
   else Inl (ErrMsg ''unsupported budget period''))"
  by (simp add: budget_window_def day_window_def month_window_def Let_def)

interpretation budget_windows: period_windows budget_window
  by unfold_locales
    (auto simp: budget_window_eq dest: day_window_contains month_window_contains
       intro: day_window_const month_window_const split: if_splits)

section \<open>Statuses\<close>

text \<open>What a status claims about the database it was computed from.\<close>

definition usage_ok :: "database \<Rightarrow> uuid \<Rightarrow> string \<Rightarrow> periodUsage \<Rightarrow> bool" where
  "usage_ok db orgID period u \<longleftrightarrow> pu_UsedMicroUSD u = org_cost db orgID (pu_WindowStart u) (pu_WindowEnd u) \<and>
     (\<exists>now. budget_window now period = Inr (pu_WindowStart u, pu_WindowEnd u))"

definition cache_ok :: "database \<Rightarrow> uuid \<Rightarrow> usage_cache \<Rightarrow> bool" where
  "cache_ok db orgID cache \<longleftrightarrow> (\<forall>m p u. cache = Some m \<longrightarrow> m p = Some u \<longrightarrow> usage_ok db orgID p u)"

lemma GetBudgetUsedAmount_Inr [act_inr]:
  "GetBudgetUsedAmount org s e E w = (Inr u, w') \<longleftrightarrow>
     \<not> env_fault E (w_step w) \<and> in_int64 u \<and> u = org_cost (w_db w) org s e \<and> w' = tick w"
  by (auto simp: GetBudgetUsedAmount_def act_inr pg_bigint_def split: if_splits)

lemma usageForPeriod_Inr:
  assumes run: "usageForPeriod orgID period cache E w = (Inr (u, cache'), w')" and "cache_ok (w_db w) orgID cache"
  shows "usage_ok (w_db w) orgID period u \<and> cache_ok (w_db w) orgID cache' \<and> w_db w' = w_db w \<and>
    (cache = Some m \<longrightarrow> (\<exists>m'. cache' = Some m' \<and> m \<subseteq>\<^sub>m m' \<and> m' period = Some u))"
proof (cases "Option.bind cache (\<lambda>m. m period)")
  case None
  then obtain s e where win: "budget_window (env_time E (w_step w)) period = Inr (s, e)"
    and u: "u = \<lparr>pu_UsedMicroUSD = org_cost (w_db w) orgID s e, pu_WindowStart = s, pu_WindowEnd = e\<rparr>"
    and cache': "cache' = map_option (\<lambda>m. m(period \<mapsto> u)) cache" and same: "w_db w' = w_db w"
    using run by (auto simp: usageForPeriod_def act_inr budget_periodWindow_def Let_def)
  have ok: "usage_ok (w_db w) orgID period u"
    using win by (auto simp: usage_ok_def u)
  then have "cache_ok (w_db w) orgID cache'"
    using assms(2) by (auto simp: cache_ok_def cache' split: if_splits)
  moreover have "cache = Some m \<longrightarrow> (\<exists>m'. cache' = Some m' \<and> m \<subseteq>\<^sub>m m' \<and> m' period = Some u)"
    using None by (auto simp: cache' map_le_def dom_def)
  ultimately show ?thesis
    using ok same by simp
next
  case (Some x)
  then show ?thesis
    using run assms(2) by (auto simp: usageForPeriod_def act_inr cache_ok_def bind_eq_Some_conv)
qed

lemma list_all2_in2: "list_all2 P xs ys \<Longrightarrow> y \<in> set ys \<Longrightarrow> \<exists>x \<in> set xs. P x y"
  by (induction rule: list_all2_induct) auto

text \<open>The cache a run of the loop ends with answers every budget it went through.\<close>

lemma statuses_loop_Inr:
  assumes "statuses_loop items (Some m) E w = (Inr statuses, w')"
    and "cache_ok (w_db w) orgID (Some m)" and "\<forall>b \<in> set items. bg_OrgID b = orgID"
  shows "\<exists>m'. m \<subseteq>\<^sub>m m' \<and> cache_ok (w_db w) orgID (Some m') \<and> w_db w' = w_db w \<and>
    list_all2 (\<lambda>b s. \<exists>u. m' (bg_Period b) = Some u \<and> s = status_of b u) items statuses"
  using assms
proof (induction items arbitrary: m w statuses)
  case Nil
  then show ?case by (intro exI [of _ m]) (simp add: act_inr)
next
  case (Cons b items)
  obtain u c1 w1 rest where use: "usageForPeriod orgID (bg_Period b) (Some m) E w = (Inr (u, c1), w1)"
    and loop: "statuses_loop items c1 E w1 = (Inr rest, w')" and st: "statuses = status_of b u # rest"
    using Cons.prems by (auto simp: act_inr statusForBudgetWithCache_def)
  note facts = usageForPeriod_Inr [OF use Cons.prems(2)]
  obtain m1 where m1: "c1 = Some m1" "m \<subseteq>\<^sub>m m1" "m1 (bg_Period b) = Some u" using facts by blast
  obtain m' where "m1 \<subseteq>\<^sub>m m'" "cache_ok (w_db w) orgID (Some m')" "w_db w' = w_db w"
    "list_all2 (\<lambda>b s. \<exists>u. m' (bg_Period b) = Some u \<and> s = status_of b u) items rest"
    using Cons.IH [of m1 w1 rest] loop m1 facts Cons.prems(3) by auto
  then show ?case
    using m1 st map_le_trans by (intro exI [of _ m']) (auto simp: map_le_def dom_def)
qed

text \<open>The decision, as a specification over the statuses.\<close>

definition violated_status :: "string \<Rightarrow> BudgetStatus \<Rightarrow> bool" where
  "violated_status action s \<longleftrightarrow> bg_Status (bs_Budget s) = ''active'' \<and> bs_Exceeded s \<and> bg_Action (bs_Budget s) = action"

lemma check_loop_spec:
  "check_loop r ss = (case List.find (violated_status ''block'') ss of
     Some s \<Rightarrow> \<lparr>ck_Allowed = False, ck_Exceeded = True, ck_Warning = False, ck_Action = ''block'', ck_Status = Some s\<rparr>
   | None \<Rightarrow> if ck_Warning r then r else (case List.find (violated_status ''warn'') ss of
       Some s \<Rightarrow> r\<lparr>ck_Exceeded := True, ck_Warning := True, ck_Action := ''warn'', ck_Status := Some s\<rparr>
     | None \<Rightarrow> r))"
  by (induction ss arbitrary: r) (auto simp: violated_status_def split: option.splits)

section \<open>Properties\<close>

text \<open>
  All statuses of one \<^verbatim>\<open>GetStatus\<close> describe one consistent reading: budgets come in listing
  order, each with the recorded cost of its organisation in a window of its period, exceeded
  exactly when that cost reaches the limit, the remaining amount cut at zero; two budgets of the
  same period are measured on the same window with the same cost.
\<close>

theorem budget_statuses:
  assumes "GetStatus orgID E w = (Inr statuses, w')"
  shows "map bs_Budget statuses = SliceStable (newest_first bg_CreatedAt bg_ID)
      (filter (\<lambda>b. bg_OrgID b = orgID) (budgets (w_db w))) \<and>
    (\<exists>usage. list_all (\<lambda>s. \<exists>now. budget_window now (bg_Period (bs_Budget s)) = Inr (bs_WindowStart s, bs_WindowEnd s) \<and>
       s = status_of (bs_Budget s) (usage (bg_Period (bs_Budget s))) \<and>
       bs_UsedMicroUSD s = org_cost (w_db w) orgID (bs_WindowStart s) (bs_WindowEnd s)) statuses)"
proof -
  let ?items = "SliceStable (newest_first bg_CreatedAt bg_ID) (filter (\<lambda>b. bg_OrgID b = orgID) (budgets (w_db w)))"
  have run: "statuses_loop ?items (Some Map.empty) E (tick w) = (Inr statuses, w')"
    using assms by (auto simp: GetStatus_def ListBudgets_def act_inr)
  have empty: "cache_ok (w_db (tick w)) orgID (Some Map.empty)" by (simp add: cache_ok_def)
  have mine: "\<forall>b \<in> set ?items. bg_OrgID b = orgID" by simp
  obtain m where ok: "cache_ok (w_db w) orgID (Some m)"
    and rel: "list_all2 (\<lambda>b s. \<exists>u. m (bg_Period b) = Some u \<and> s = status_of b u) ?items statuses"
    using statuses_loop_Inr [OF run empty mine] unfolding tick_simps by blast
  have "map bs_Budget statuses = ?items"
    using rel by (induction rule: list_all2_induct) (auto simp: status_of_def Let_def)
  moreover have "\<exists>now. budget_window now (bg_Period (bs_Budget s)) = Inr (bs_WindowStart s, bs_WindowEnd s) \<and>
       s = status_of (bs_Budget s) (the (m (bg_Period (bs_Budget s)))) \<and>
       bs_UsedMicroUSD s = org_cost (w_db w) orgID (bs_WindowStart s) (bs_WindowEnd s)" if s: "s \<in> set statuses" for s
  proof -
    obtain b u where u: "m (bg_Period b) = Some u" "s = status_of b u"
      using list_all2_in2 [OF rel s] by blast
    have "usage_ok (w_db w) orgID (bg_Period b) u"
      using ok u(1) by (simp add: cache_ok_def)
    then show ?thesis
      using u by (simp add: usage_ok_def status_of_def Let_def)
  qed
  ultimately show ?thesis
    by (intro conjI exI [of _ "\<lambda>p. the (m p)"]) (simp_all add: list_all_iff)
qed

lemma demo_status_run: "\<exists>statuses w'. GetStatus 1 demo_env (world_of demo_db) = (Inr statuses, w') \<and> length statuses = 1"
proof -
  have "SliceStable (newest_first bg_CreatedAt bg_ID) (filter (\<lambda>b. bg_OrgID b = 1) (budgets demo_db)) = [demo_budget]"
    by (simp add: demo_defs)
  moreover have "bg_Period demo_budget = ''daily''" "bg_OrgID demo_budget = 1" by (simp_all add: demo_budget_def)
  moreover have "org_cost demo_db 1 s e = 0" for s e by (simp add: org_cost_def demo_defs)
  ultimately show ?thesis
    by (simp add: GetStatus_def ListBudgets_def statusForBudgetWithCache_def usageForPeriod_def
        budget_periodWindow_def GetBudgetUsedAmount_def act_simps budget_window_eq pg_bigint_def in_int64_def
        Let_def split: prod.splits)
qed

theorem budget_statuses_witness:
  "\<exists>statuses w'. GetStatus 1 demo_env (world_of demo_db) = (Inr statuses, w') \<and>
     map bs_Budget statuses = SliceStable (newest_first bg_CreatedAt bg_ID) (filter (\<lambda>b. bg_OrgID b = 1) (budgets demo_db))"
  using demo_status_run budget_statuses [of 1 demo_env "world_of demo_db"] by fastforce



definition valid_budget :: "CreateBudgetParams \<Rightarrow> bool" where
  "valid_budget p \<longleftrightarrow> TrimSpace (cb_Name p) \<noteq> [] \<and> cb_OrgID p \<noteq> uuid_Nil \<and> cb_ScopeType p \<in> {[], ''org''} \<and>
     cb_Period p \<in> {''daily'', ''monthly''} \<and> cb_Action p \<in> {[], ''warn'', ''block''} \<and> 0 \<le> cb_LimitMicroUSD p"

text \<open>
  \<^verbatim>\<open>CreateBudget\<close> in an environment without faults: invalid parameters change nothing; valid ones
  add exactly one active budget with the trimmed name and the defaults filled in, as long as the
  organisation exists and the drawn identifier is fresh.
\<close>

theorem create_budget:
  assumes "healthy E" and "org_exists (w_db w) (cb_OrgID p)"
    and "\<not> list_ex (\<lambda>b. bg_ID b = env_uuid E (Suc (w_step w))) (budgets (w_db w))"
  shows "if valid_budget p
    then \<exists>b w'. CreateBudget p E w = (Inr b, w') \<and>
      w_db w' = (w_db w)\<lparr>budgets := budgets (w_db w) @ [b]\<rparr> \<and> bg_OrgID b = cb_OrgID p \<and>
      bg_Name b = TrimSpace (cb_Name p) \<and> bg_Status b = ''active'' \<and> bg_Period b = cb_Period p \<and>
      bg_LimitMicroUsd b = cb_LimitMicroUSD p \<and>
      bg_Action b = (if cb_Action p = ''warn'' then ''warn'' else ''block'')
    else \<exists>e. CreateBudget p E w = (Inl e, w)"
  using assms
  by (auto simp: CreateBudget_def valid_budget_def Let_def act_simps CreateBudget_row_def)

theorem create_budget_witness:
  "\<exists>b w'. CreateBudget \<lparr>cb_OrgID = 1, cb_Name = '' team '', cb_ScopeType = [], cb_Period = ''monthly'',
       cb_LimitMicroUSD = 5000000, cb_Action = []\<rparr> demo_env (world_of demo_db) = (Inr b, w') \<and>
     w_db w' = demo_db\<lparr>budgets := budgets demo_db @ [b]\<rparr> \<and> bg_Action b = ''block''"
proof -
  let ?p = "\<lparr>cb_OrgID = 1, cb_Name = '' team '', cb_ScopeType = [], cb_Period = ''monthly'',
       cb_LimitMicroUSD = 5000000, cb_Action = []\<rparr>"
  have "org_exists (w_db (world_of demo_db)) (cb_OrgID ?p)" by (simp add: org_exists_def demo_defs)
  moreover have "\<not> list_ex (\<lambda>b. bg_ID b = env_uuid demo_env (Suc (w_step (world_of demo_db)))) (budgets (w_db (world_of demo_db)))"
    by (simp add: demo_defs)
  moreover have "valid_budget ?p" by code_simp
  ultimately show ?thesis
    using create_budget [OF healthy_demo, of "world_of demo_db" ?p] by auto
qed

end
