(* ===== verification/Alerts.thy ===== *)
theory Alerts
  imports Budgets Secrets Netutil
begin

text \<open>
  \<^verbatim>\<open>internal/budget/alert_service.go\<close>: webhooks that announce that a budget has reached 80, 90 or
  100 percent, each at most once per period window. The HTTP client, JSON encoding and HMAC are
  parts of the service's environment; the stored secret is opened with \<^verbatim>\<open>OpenWebhookSecret\<close>.
\<close>

section \<open>Data\<close>

record AlertService =
  as_net :: net_lib
  as_gcm :: cipher
  as_secretKeyRing :: "SecretKeyRing option"
  as_publicOutboundOnly :: bool
  as_hmac_sha256_hex :: "string \<Rightarrow> string \<Rightarrow> string"
  as_json_Marshal :: "json \<Rightarrow> string"
  as_NewRequest_ok :: "string \<Rightarrow> bool"

record CreateAlertParams =
  ca_OrgID :: uuid
  ca_BudgetID :: uuid
  ca_WebhookURL :: string
  ca_WebhookSecret :: string
  ca_Status :: string

definition alertThresholds :: "int list" where
  "alertThresholds = [80, 90, 100]"

text \<open>The payload; its timestamp stands for the RFC 3339 text of the instant.\<close>

definition webhookPayload :: "BudgetAlert \<Rightarrow> BudgetStatus \<Rightarrow> int \<Rightarrow> time \<Rightarrow> json" where
  "webhookPayload alert status threshold now = JObj
     [(''org_id'', JStr (uuid_String (ba_OrgID alert))),
      (''budget_id'', JStr (uuid_String (ba_BudgetID alert))),
      (''threshold'', JInt threshold),
      (''used_micro_usd'', JInt (bs_UsedMicroUSD status)),
      (''limit_micro_usd'', JInt (bg_LimitMicroUsd (bs_Budget status))),
      (''period'', JStr (bg_Period (bs_Budget status))),
      (''timestamp'', JInt now)]"

section \<open>Operations\<close>

definition validateWebhookURL :: "AlertService \<Rightarrow> string \<Rightarrow> unit outcome" where
  "validateWebhookURL svc value =
     (if TrimSpace value = [] then Inl (ErrMsg ''webhook_url is required'')
      else ValidateOutboundHTTPURL (as_net svc) value ''webhook_url'' (as_publicOutboundOnly svc))"

definition CreateAlert :: "AlertService \<Rightarrow> CreateAlertParams \<Rightarrow> BudgetAlert act" where
  "CreateAlert svc params =
     (if ca_OrgID params = uuid_Nil then fail (ErrMsg ''org_id is required'')
      else if ca_BudgetID params = uuid_Nil then fail (ErrMsg ''budget_id is required'')
      else let webhookURL = TrimSpace (ca_WebhookURL params);
               status = (if ca_Status params = [] then ''active'' else ca_Status params)
      in andThen (lift (validateWebhookURL svc webhookURL)) (\<lambda>_.
         if status \<noteq> ''active'' \<and> status \<noteq> ''disabled'' then fail (ErrMsg ''status must be active or disabled'')
         else andThen (SealWebhookSecret (as_gcm svc) (as_secretKeyRing svc) (ca_WebhookSecret params)) (\<lambda>webhookSecret.
           andThen clock_now (\<lambda>now. andThen new_uuid (\<lambda>i.
           CreateBudgetAlert \<lparr>ba_ID = i, ba_OrgID = ca_OrgID params, ba_BudgetID = ca_BudgetID params,
             ba_WebhookUrl = webhookURL, ba_WebhookSecret = webhookSecret, ba_Status = status,
             ba_CreatedAt = now, ba_UpdatedAt = now\<rparr>)))))"

definition ListDeliveries :: "uuid \<Rightarrow> int \<Rightarrow> BudgetAlertDelivery list act" where
  "ListDeliveries orgID limit =
     ListBudgetAlertDeliveries orgID (if limit \<le> 0 \<or> 200 < limit then 100 else limit)"

definition thresholdReached :: "int \<Rightarrow> int \<Rightarrow> int \<Rightarrow> bool" where
  "thresholdReached used limit threshold \<longleftrightarrow> wrap64 (limit * threshold) \<le> wrap64 (used * 100)"

definition nullableText :: "string \<Rightarrow> string option" where
  "nullableText value = (if TrimSpace value = [] then None else Some (TrimSpace value))"

text \<open>\<^verbatim>\<open>client.Do\<close>: the request reaches the network; the answer is a status code or an error.\<close>

definition client_Do :: "string \<Rightarrow> (string \<times> string) list \<Rightarrow> json \<Rightarrow> int option act" where
  "client_Do url headers body = (\<lambda>E w.
     (Inr (env_http E (w_step w)), (tick w)\<lparr>w_sent := w_sent w @ [Webhook url headers body]\<rparr>))"

text \<open>The outcome of an attempt: delivery status, HTTP status, error message.\<close>

definition send_webhook :: "AlertService \<Rightarrow> BudgetAlert \<Rightarrow> json \<Rightarrow> (string \<times> int option \<times> string) act" where
  "send_webhook svc alert payload =
     (if \<not> is_ok (validateWebhookURL svc (ba_WebhookUrl alert))
      then ret (''failed'', None, ''webhook URL is not allowed'')
      else if \<not> as_NewRequest_ok svc (ba_WebhookUrl alert)
      then ret (''failed'', None, ''build webhook request failed'')
      else let headers0 = [(''Content-Type'', ''application/json'')];
               signature = (case ba_WebhookSecret alert of
                   None \<Rightarrow> Inr []
                 | Some _ \<Rightarrow> (case OpenWebhookSecret (as_gcm svc) (as_secretKeyRing svc) (ba_WebhookSecret alert) of
                     Inl e \<Rightarrow> Inl e
                   | Inr secret \<Rightarrow> Inr [(''X-LLMGW-Signature'', as_hmac_sha256_hex svc secret (as_json_Marshal svc payload))]))
      in case signature of
           Inl _ \<Rightarrow> ret (''failed'', None, ''webhook secret decrypt failed'')
         | Inr sig \<Rightarrow> andThen (client_Do (ba_WebhookUrl alert) (headers0 @ sig) payload) (\<lambda>resp.
             case resp of
               None \<Rightarrow> ret (''failed'', None, ''webhook request failed'')
             | Some code \<Rightarrow>
                 if code < 200 \<or> 300 \<le> code
                 then ret (''failed'', Some (wrap32 code), ''webhook returned status '' @ itoa code)
                 else ret (''success'', Some (wrap32 code), [])))"

definition deliver :: "AlertService \<Rightarrow> BudgetAlert \<Rightarrow> BudgetStatus \<Rightarrow> int \<Rightarrow> BudgetAlertDelivery act" where
  "deliver svc alert status threshold =
     andThen clock_now (\<lambda>stamp.
     andThen (send_webhook svc alert (webhookPayload alert status threshold stamp)) (\<lambda>(deliveryStatus, httpStatus, errorMessage).
     andThen clock_now (\<lambda>now. andThen new_uuid (\<lambda>i.
     InsertBudgetAlertDelivery
       \<lparr>bd_ID = i, bd_OrgID = ba_OrgID alert, bd_BudgetAlertID = ba_ID alert, bd_BudgetID = ba_BudgetID alert,
        bd_Threshold = threshold, bd_Period = bg_Period (bs_Budget status),
        bd_PeriodWindowStart = bs_WindowStart status, bd_PeriodWindowEnd = bs_WindowEnd status,
        bd_UsedMicroUsd = bs_UsedMicroUSD status, bd_LimitMicroUsd = bg_LimitMicroUsd (bs_Budget status),
        bd_WebhookUrl = ba_WebhookUrl alert, bd_Status = deliveryStatus, bd_HttpStatus = httpStatus,
        bd_ErrorMessage = nullableText errorMessage, bd_CreatedAt = now\<rparr>))))"

fun threshold_loop ::
  "AlertService \<Rightarrow> BudgetAlert \<Rightarrow> BudgetStatus \<Rightarrow> int list \<Rightarrow> int list \<Rightarrow> BudgetAlertDelivery list act" where
  "threshold_loop svc alert status delivered [] = ret []"
| "threshold_loop svc alert status delivered (t # ts) =
     (if t \<in> set delivered \<or> \<not> thresholdReached (bs_UsedMicroUSD status) (bg_LimitMicroUsd (bs_Budget status)) t
      then threshold_loop svc alert status delivered ts
      else andThen (deliver svc alert status t) (\<lambda>d.
        andThen (threshold_loop svc alert status delivered ts) (\<lambda>ds. ret (d # ds))))"

definition check_alert :: "AlertService \<Rightarrow> BudgetAlert \<Rightarrow> BudgetAlertDelivery list act" where
  "check_alert svc alert =
     andThen (GetBudget (ba_OrgID alert) (ba_BudgetID alert)) (\<lambda>budgetItem.
       if bg_Status budgetItem \<noteq> ''active'' \<or> bg_LimitMicroUsd budgetItem < 0 then ret []
       else andThen (statusForBudget budgetItem) (\<lambda>status.
         andThen (ListBudgetAlertDeliveriesByBudgetWindow (ba_OrgID alert) (ba_BudgetID alert) (bs_WindowStart status)) (\<lambda>delivered.
         threshold_loop svc alert status (map bd_Threshold delivered) alertThresholds)))"

fun alerts_loop :: "AlertService \<Rightarrow> BudgetAlert list \<Rightarrow> BudgetAlertDelivery list act" where
  "alerts_loop svc [] = ret []"
| "alerts_loop svc (alert # alerts) =
     andThen (check_alert svc alert) (\<lambda>ds. andThen (alerts_loop svc alerts) (\<lambda>rest. ret (ds @ rest)))"

definition CheckAndDeliver :: "AlertService \<Rightarrow> uuid \<Rightarrow> BudgetAlertDelivery list act" where
  "CheckAndDeliver svc orgID = andThen (ListActiveBudgetAlerts orgID) (alerts_loop svc)"

section \<open>Thresholds\<close>

lemma thresholdReached_exact:
  assumes "0 \<le> used" "used * 100 \<le> max_int64" "0 \<le> limit" "limit * t \<le> max_int64" "0 \<le> t"
  shows "thresholdReached used limit t \<longleftrightarrow> limit * t \<le> used * 100"
proof -
  define p where "p = limit * t"
  have "0 \<le> p" using assms by (simp add: p_def)
  then have "wrap64 p = p" "wrap64 (used * 100) = used * 100"
    using assms unfolding p_def [symmetric] by (auto simp: in_int64_def max_int64_def intro!: wrap64_id)
  then show ?thesis by (simp add: thresholdReached_def p_def)
qed

section \<open>What a run leaves behind\<close>

text \<open>Nothing but deliveries is added, and deliveries are only added.\<close>

definition grows :: "database \<Rightarrow> database \<Rightarrow> bool" where
  "grows db db' \<longleftrightarrow> budgets db' = budgets db \<and> budget_alerts db' = budget_alerts db \<and>
     cost_records db' = cost_records db \<and> (\<exists>ds. budget_alert_deliveries db' = budget_alert_deliveries db @ ds)"

lemma grows_refl [simp]: "grows db db"
  by (simp add: grows_def)

lemma grows_trans: "grows a b \<Longrightarrow> grows b c \<Longrightarrow> grows a c"
  by (auto simp: grows_def)

definition recorded :: "database \<Rightarrow> BudgetAlert \<Rightarrow> time \<Rightarrow> int \<Rightarrow> bool" where
  "recorded db alert s t \<longleftrightarrow> list_ex (\<lambda>d. bd_OrgID d = ba_OrgID alert \<and> bd_BudgetID d = ba_BudgetID alert \<and>
     bd_PeriodWindowStart d = s \<and> bd_Threshold d = t) (budget_alert_deliveries db)"

lemma recorded_grows: "recorded db alert s t \<Longrightarrow> grows db db' \<Longrightarrow> recorded db' alert s t"
  by (auto simp: recorded_def grows_def)

text \<open>\<open>alert_done\<close>: every threshold the budget of an alert has reached in its window has a delivery.\<close>

definition budget_row :: "database \<Rightarrow> BudgetAlert \<Rightarrow> Budget outcome" where
  "budget_row db alert = first_row (filter (\<lambda>r. bg_OrgID r = ba_OrgID alert \<and> bg_ID r = ba_BudgetID alert) (budgets db))"

definition alert_done :: "(string \<Rightarrow> (time \<times> time) outcome) \<Rightarrow> database \<Rightarrow> BudgetAlert \<Rightarrow> bool" where
  "alert_done window db alert = (case budget_row db alert of
     Inl _ \<Rightarrow> True
   | Inr b \<Rightarrow> bg_Status b \<noteq> ''active'' \<or> bg_LimitMicroUsd b < 0 \<or>
      (case window (bg_Period b) of
         Inl _ \<Rightarrow> True
       | Inr (s, e) \<Rightarrow> list_all (\<lambda>t. thresholdReached (org_cost db (bg_OrgID b) s e) (bg_LimitMicroUsd b) t \<longrightarrow>
           recorded db alert s t) alertThresholds))"

lemma alert_done_grows: "alert_done window db alert \<Longrightarrow> grows db db' \<Longrightarrow> alert_done window db' alert"
  by (auto simp: alert_done_def budget_row_def grows_def org_cost_def list_all_iff recorded_def
      split: sum.splits prod.splits)

lemma send_webhook_db: "send_webhook svc alert p E w = (r, w') \<Longrightarrow> w_db w' = w_db w"
  by (auto simp: send_webhook_def Let_def act_simps client_Do_def split: if_splits sum.splits option.splits)

lemma deliver_Inr:
  assumes "deliver svc alert status t E w = (Inr d, w')"
  shows "grows (w_db w) (w_db w')" and "recorded (w_db w') alert (bs_WindowStart status) t"
  using assms
  by (auto simp: deliver_def act_inr InsertBudgetAlertDelivery_def grows_def recorded_def dest!: send_webhook_db)

lemma threshold_loop_Inr:
  assumes "threshold_loop svc alert status delivered ts E w = (Inr ds, w')"
    and "\<forall>t \<in> set delivered. recorded (w_db w) alert (bs_WindowStart status) t"
  shows "grows (w_db w) (w_db w') \<and>
    (\<forall>t \<in> set ts. thresholdReached (bs_UsedMicroUSD status) (bg_LimitMicroUsd (bs_Budget status)) t \<longrightarrow>
       recorded (w_db w') alert (bs_WindowStart status) t)"
  using assms
proof (induction ts arbitrary: w ds)
  case Nil
  then show ?case by (simp add: act_inr)
next
  case (Cons t ts)
  let ?reached = "thresholdReached (bs_UsedMicroUSD status) (bg_LimitMicroUsd (bs_Budget status))"
  show ?case
  proof (cases "t \<in> set delivered \<or> \<not> ?reached t")
    case True
    then show ?thesis
      using Cons.IH [of w ds] Cons.prems recorded_grows by auto
  next
    case False
    then obtain d rest w1 where d: "deliver svc alert status t E w = (Inr d, w1)"
      and rest: "threshold_loop svc alert status delivered ts E w1 = (Inr rest, w')"
      using Cons.prems by (auto simp: act_inr)
    note step = deliver_Inr [OF d]
    have "grows (w_db w1) (w_db w') \<and> (\<forall>t \<in> set ts. ?reached t \<longrightarrow> recorded (w_db w') alert (bs_WindowStart status) t)"
      using Cons.prems(2) recorded_grows [OF _ step(1)] by (intro Cons.IH [OF rest]) blast
    then show ?thesis
      using step grows_trans recorded_grows by auto
  qed
qed

lemma statusForBudget_Inr:
  assumes "statusForBudget b E w = (Inr status, w')"
  obtains s e n where "budget_window (env_time E n) (bg_Period b) = Inr (s, e)" "bs_WindowStart status = s"
    "bs_UsedMicroUSD status = org_cost (w_db w) (bg_OrgID b) s e" "bs_Budget status = b"
    "w_db w' = w_db w" "w_sent w' = w_sent w"
  using assms
  by (auto simp: statusForBudget_def statusForBudgetWithCache_def usageForPeriod_def act_inr
      budget_periodWindow_def Let_def status_of_def)

text \<open>One alert: afterwards it is done; if it was done before, nothing happens.\<close>

definition steady :: "(string \<Rightarrow> (time \<times> time) outcome) \<Rightarrow> environment \<Rightarrow> bool" where
  "steady window E \<longleftrightarrow> (\<forall>n. budget_window (env_time E n) = window)"

lemma check_alert_Inr:
  assumes steady: "steady window E" and run: "check_alert svc alert E w = (Inr ds, w')"
  shows "grows (w_db w) (w_db w') \<and> alert_done window (w_db w') alert"
proof -
  obtain b where b: "budget_row (w_db w) alert = Inr b"
    and rest: "(if bg_Status b \<noteq> ''active'' \<or> bg_LimitMicroUsd b < 0 then ret []
       else andThen (statusForBudget b) (\<lambda>status.
         andThen (ListBudgetAlertDeliveriesByBudgetWindow (ba_OrgID alert) (ba_BudgetID alert) (bs_WindowStart status)) (\<lambda>delivered.
         threshold_loop svc alert status (map bd_Threshold delivered) alertThresholds))) E (tick w) = (Inr ds, w')"
    using run by (auto simp: check_alert_def act_inr GetBudget_def budget_row_def)
  show ?thesis
  proof (cases "bg_Status b \<noteq> ''active'' \<or> bg_LimitMicroUsd b < 0")
    case True
    then have "w_db w' = w_db w" using rest by (auto simp: act_inr)
    then show ?thesis using b True by (simp add: alert_done_def)
  next
    case False
    then obtain status w1 delivered w2 where st: "statusForBudget b E (tick w) = (Inr status, w1)"
      and list: "ListBudgetAlertDeliveriesByBudgetWindow (ba_OrgID alert) (ba_BudgetID alert) (bs_WindowStart status) E w1 = (Inr delivered, w2)"
      and loop: "threshold_loop svc alert status (map bd_Threshold delivered) alertThresholds E w2 = (Inr ds, w')"
      using rest by (auto simp: act_inr)
    obtain s e n where win: "budget_window (env_time E n) (bg_Period b) = Inr (s, e)" "bs_WindowStart status = s"
      and used: "bs_UsedMicroUSD status = org_cost (w_db w) (bg_OrgID b) s e" "bs_Budget status = b" "w_db w1 = w_db w"
      using statusForBudget_Inr [OF st] by (metis tick_simps(1))
    have win': "window (bg_Period b) = Inr (s, e)" using steady win(1) by (auto simp: steady_def)
    have w2: "w_db w2 = w_db w" and del: "\<forall>t \<in> set (map bd_Threshold delivered). recorded (w_db w2) alert s t"
      using list win(2) used(3) by (auto simp: ListBudgetAlertDeliveriesByBudgetWindow_def act_inr recorded_def list_ex_iff)
    have grows: "grows (w_db w) (w_db w')"
      and fin: "\<forall>t \<in> set alertThresholds. thresholdReached (org_cost (w_db w) (bg_OrgID b) s e) (bg_LimitMicroUsd b) t \<longrightarrow> recorded (w_db w') alert s t"
      using threshold_loop_Inr [OF loop] del used win(2) w2 by auto
    then have "budget_row (w_db w') alert = Inr b" "org_cost (w_db w') (bg_OrgID b) s e = org_cost (w_db w) (bg_OrgID b) s e"
      using b by (auto simp: grows_def budget_row_def org_cost_def)
    then show ?thesis
      using grows fin win' by (simp add: alert_done_def list_all_iff)
  qed
qed

lemma alerts_loop_Inr:
  assumes "steady window E" and "alerts_loop svc alerts E w = (Inr ds, w')"
  shows "grows (w_db w) (w_db w') \<and> list_all (alert_done window (w_db w')) alerts"
  using assms(2)
proof (induction alerts arbitrary: w ds)
  case Nil
  then show ?case by (simp add: act_inr)
next
  case (Cons alert alerts)
  obtain d w1 rest where one: "check_alert svc alert E w = (Inr d, w1)"
    and loop: "alerts_loop svc alerts E w1 = (Inr rest, w')"
    using Cons.prems by (auto simp: act_inr)
  show ?case
    using check_alert_Inr [OF assms(1) one] Cons.IH [OF loop] grows_trans alert_done_grows by auto
qed

text \<open>An alert that is done triggers nothing.\<close>

lemma threshold_loop_quiet:
  assumes "\<forall>t \<in> set ts. thresholdReached (bs_UsedMicroUSD status) (bg_LimitMicroUsd (bs_Budget status)) t \<longrightarrow> t \<in> set delivered"
  shows "threshold_loop svc alert status delivered ts = ret []"
  using assms by (induction ts) auto

lemma statusForBudget_quiet: "statusForBudget b E w = (r, w') \<Longrightarrow> w_db w' = w_db w \<and> w_sent w' = w_sent w"
  by (auto simp: statusForBudget_def statusForBudgetWithCache_def usageForPeriod_def act_simps
      budget_periodWindow_def GetBudgetUsedAmount_def Let_def split: sum.splits prod.splits if_splits)

lemma check_alert_quiet:
  assumes steady: "steady window E" and fin: "alert_done window (w_db w) alert"
    and run: "check_alert svc alert E w = (r, w')"
  shows "(r = Inr [] \<or> (\<exists>e. r = Inl e)) \<and> w_db w' = w_db w \<and> w_sent w' = w_sent w"
  using run unfolding check_alert_def
proof (cases rule: andThen_cases)
  case (stop e)
  then show ?thesis by (auto simp: GetBudget_def act_simps split: if_splits)
next
  case (go b w0)
  have b: "budget_row (w_db w) alert = Inr b" and w0: "w0 = tick w"
    using go(1) by (auto simp: GetBudget_def act_inr budget_row_def)
  show ?thesis
  proof (cases "bg_Status b \<noteq> ''active'' \<or> bg_LimitMicroUsd b < 0")
    case True
    then show ?thesis using go(2) w0 by (auto simp: act_simps)
  next
    case False
    then have "andThen (statusForBudget b) (\<lambda>status.
         andThen (ListBudgetAlertDeliveriesByBudgetWindow (ba_OrgID alert) (ba_BudgetID alert) (bs_WindowStart status)) (\<lambda>delivered.
         threshold_loop svc alert status (map bd_Threshold delivered) alertThresholds)) E w0 = (r, w')"
      using go(2) by simp
    then show ?thesis
    proof (cases rule: andThen_cases)
      case (stop e)
      then show ?thesis using statusForBudget_quiet [OF stop(1)] w0 by simp
    next
      case (go status w1)
      have same: "w_db w1 = w_db w" "w_sent w1 = w_sent w" using statusForBudget_quiet [OF go(1)] w0 by simp_all
      obtain s e n where win: "budget_window (env_time E n) (bg_Period b) = Inr (s, e)" "bs_WindowStart status = s"
        and used: "bs_UsedMicroUSD status = org_cost (w_db w) (bg_OrgID b) s e" "bs_Budget status = b"
        using statusForBudget_Inr [OF go(1)] w0 by (metis tick_simps(1))
      have win': "window (bg_Period b) = Inr (s, e)" using steady win(1) by (auto simp: steady_def)
      from go(2) show ?thesis
      proof (cases rule: andThen_cases)
        case (stop e)
        then show ?thesis using same by (auto simp: ListBudgetAlertDeliveriesByBudgetWindow_def act_simps split: if_splits)
      next
        case (go delivered w2)
        have w2: "w_db w2 = w_db w" "w_sent w2 = w_sent w"
          and del: "recorded (w_db w) alert s t \<Longrightarrow> t \<in> set (map bd_Threshold delivered)" for t
          using go(1) win(2) same by (auto simp: ListBudgetAlertDeliveriesByBudgetWindow_def act_inr recorded_def list_ex_iff)
        have "threshold_loop svc alert status (map bd_Threshold delivered) alertThresholds = ret []"
          using fin b False win' used(1,2) del
          by (intro threshold_loop_quiet) (auto simp: alert_done_def list_all_iff)
        then show ?thesis using go(2) w2 by (auto simp: act_simps)
      qed
    qed
  qed
qed

lemma alerts_loop_quiet:
  assumes "steady window E" and "list_all (alert_done window (w_db w)) alerts"
    and "alerts_loop svc alerts E w = (r, w')"
  shows "(r = Inr [] \<or> (\<exists>e. r = Inl e)) \<and> w_db w' = w_db w \<and> w_sent w' = w_sent w"
  using assms(2,3)
proof (induction alerts arbitrary: w r w')
  case Nil
  then show ?case by (simp add: act_simps)
next
  case (Cons alert alerts)
  from Cons.prems(2) show ?case
    unfolding alerts_loop.simps
  proof (cases rule: andThen_cases)
    case (stop e)
    then show ?thesis using check_alert_quiet [OF assms(1) _ stop(1)] Cons.prems(1) by simp
  next
    case (go d w1)
    then have quiet: "d = [] \<and> w_db w1 = w_db w \<and> w_sent w1 = w_sent w"
      using check_alert_quiet [OF assms(1) _ go(1)] Cons.prems(1) by simp
    from go(2) show ?thesis
    proof (cases rule: andThen_cases)
      case (stop e)
      then show ?thesis using Cons.IH [OF _ stop(1)] Cons.prems(1) quiet by simp
    next
      case (go rest w2)
      then show ?thesis using Cons.IH [OF _ go(1)] Cons.prems(1) quiet by (auto simp: act_simps)
    qed
  qed
qed

section \<open>Properties\<close>


definition demo_alerts :: AlertService where
  "demo_alerts = \<lparr>as_net = demo_net, as_gcm = demo_cipher, as_secretKeyRing = None, as_publicOutboundOnly = False,
     as_hmac_sha256_hex = (\<lambda>s b. s), as_json_Marshal = (\<lambda>_. []), as_NewRequest_ok = (\<lambda>_. True)\<rparr>"

definition demo_alert :: BudgetAlert where
  "demo_alert = \<lparr>ba_ID = 7, ba_OrgID = 1, ba_BudgetID = 6, ba_WebhookUrl = ''https://h'', ba_WebhookSecret = None,
     ba_Status = ''active'', ba_CreatedAt = demo_t0, ba_UpdatedAt = demo_t0\<rparr>"

definition demo_cost :: CostRecord where
  "demo_cost = \<lparr>cr_ID = 8, cr_UsageRecordID = 9, cr_OrgID = 1, cr_ProviderID = 3, cr_ModelID = 4, cr_Currency = ''USD'',
     cr_InputCostMicro = 850, cr_OutputCostMicro = 0, cr_TotalCostMicro = 850, cr_PricingSnapshot = RawEmpty,
     cr_CreatedAt = demo_t0, cr_PricingVersionID = None\<rparr>"

definition demo_alert_db :: database where
  "demo_alert_db = demo_db\<lparr>budget_alerts := [demo_alert], cost_records := [demo_cost]\<rparr>"

definition demo_frozen :: environment where
  "demo_frozen = demo_env\<lparr>env_time := \<lambda>_. demo_t0\<rparr>"

lemma demo_deliver:
  assumes win: "day_window demo_t0 = (s, e)" "s \<le> demo_t0" "demo_t0 < e"
  shows "\<exists>ds w'. CheckAndDeliver demo_alerts 1 demo_frozen (world_of demo_alert_db) = (Inr ds, w')"
proof -
  have url: "validateWebhookURL demo_alerts (ba_WebhookUrl demo_alert) = Inr ()"
    by (simp add: validateWebhookURL_def demo_alerts_def demo_alert_def ValidateOutboundHTTPURL_def demo_net_def
        TrimSpace_def TrimLeft_def is_space_def)
  have cost: "org_cost demo_alert_db 1 s e = 850"
    using win by (simp add: org_cost_def demo_alert_db_def demo_cost_def in_window_def)
  have reach: "thresholdReached 850 1000 80" "\<not> thresholdReached 850 1000 90" "\<not> thresholdReached 850 1000 100"
    by (simp_all add: thresholdReached_def wrap64_def)
  have env: "healthy demo_frozen" "env_time demo_frozen n = demo_t0" "env_http demo_frozen n = Some 200" for n
    by (simp_all add: demo_frozen_def demo_env_def healthy_def)
  have db: "filter (\<lambda>a. ba_OrgID a = 1 \<and> ba_Status a = ''active'') (budget_alerts demo_alert_db) = [demo_alert]"
    "first_row (filter (\<lambda>r. bg_OrgID r = 1 \<and> bg_ID r = 6) (budgets demo_alert_db)) = Inr demo_budget"
    "budget_alert_deliveries demo_alert_db = []" "org_exists demo_alert_db 1" "wrap32 200 = 200"
    "list_ex (\<lambda>x. ba_OrgID x = 1 \<and> ba_ID x = 7) (budget_alerts demo_alert_db)"
    "list_ex (\<lambda>x. bg_OrgID x = 1 \<and> bg_ID x = 6) (budgets demo_alert_db)"
    by (simp_all add: demo_alert_db_def demo_alert_def demo_defs org_exists_def wrap32_def)
  show ?thesis
    using win url cost reach env db
    by (simp add: CheckAndDeliver_def ListActiveBudgetAlerts_def check_alert_def GetBudget_def act_simps
        statusForBudget_def statusForBudgetWithCache_def usageForPeriod_def budget_periodWindow_def
        budget_window_eq GetBudgetUsedAmount_def pg_bigint_def in_int64_def Let_def status_of_def
        ListBudgetAlertDeliveriesByBudgetWindow_def alertThresholds_def deliver_def send_webhook_def
        demo_alert_def demo_budget_def demo_alerts_def client_Do_def InsertBudgetAlertDelivery_def)
qed


text \<open>
  As long as neither product overflows 64 bits, a threshold counts as reached exactly when the
  used cost is at least that percentage of the limit; the thresholds are reached in order.
\<close>

theorem threshold_percentage:
  assumes "0 \<le> used" "used * 100 \<le> max_int64" "0 \<le> limit" "limit * 100 \<le> max_int64" "t \<in> set alertThresholds"
  shows "(thresholdReached used limit t \<longleftrightarrow> limit * t \<le> used * 100) \<and>
    (thresholdReached used limit 100 \<longrightarrow> thresholdReached used limit t) \<and>
    (thresholdReached used limit 100 \<longleftrightarrow> limit \<le> used)"
proof -
  have "limit * t \<le> limit * 100" "0 \<le> t" using assms(3,5) by (auto simp: alertThresholds_def)
  then have "thresholdReached used limit t \<longleftrightarrow> limit * t \<le> used * 100"
    "thresholdReached used limit 100 \<longleftrightarrow> limit * 100 \<le> used * 100" and "limit * t \<le> limit * 100"
    using assms thresholdReached_exact by auto
  then show ?thesis by auto
qed

theorem threshold_percentage_witness:
  "thresholdReached 850 1000 80 \<and> \<not> thresholdReached 850 1000 90"
  using threshold_percentage [of 850 1000 80] threshold_percentage [of 850 1000 90]
  by (simp add: max_int64_def alertThresholds_def)

text \<open>Beyond that bound the product wraps around and a budget far over its limit raises no alert.\<close>

lemma threshold_overflow: "\<not> thresholdReached 92233720368547759 1000 100"
  by (simp add: thresholdReached_def wrap64_def)

end
