(* ===== verification/Metering.thy ===== *)
theory Metering
  imports Reservations
begin

text \<open>
  \<^verbatim>\<open>internal/metering/service.go\<close>: the record a request leaves behind. A successful request writes
  its log, its usage and its cost and settles its reservations in one transaction; a failed or
  cached one writes only the log. After the write the usage event and the analytics record are
  handed to their sinks, whose failures are swallowed.
\<close>

section \<open>Inputs and results\<close>

text \<open>
  The service: whether a usage event publisher and an analytics sink are configured; the
  disabled ones accept everything and do nothing.
\<close>

record metering_service =
  ms_publisher :: bool
  ms_analytics :: bool

record RecordSuccessInput =
  si_RequestID :: uuid
  si_OrgID :: uuid
  si_APIKeyID :: uuid
  si_ProviderID :: uuid
  si_ModelID :: uuid
  si_RoutePolicyID :: "uuid option"
  si_Method :: string
  si_Path :: string
  si_RequestModel :: string
  si_Status :: string
  si_StatusCode :: int
  si_RequestHash :: string
  si_ResponseHash :: string
  si_LatencyMS :: int
  si_ProviderLatencyMS :: "int option"
  si_Metadata :: "raw_json option"
  si_ProviderUsageJSON :: raw_json
  si_PromptTokens :: int
  si_CompletionTokens :: int
  si_InputPriceMicroUSDPer1KTokens :: int
  si_OutputPriceMicroUSDPer1KTokens :: int
  si_StartedAt :: time
  si_CompletedAt :: time

record RecordFailureInput =
  fi_RequestID :: uuid
  fi_OrgID :: uuid
  fi_APIKeyID :: "uuid option"
  fi_ProviderID :: "uuid option"
  fi_ModelID :: "uuid option"
  fi_RoutePolicyID :: "uuid option"
  fi_Method :: string
  fi_Path :: string
  fi_RequestModel :: string
  fi_Status :: string
  fi_StatusCode :: int
  fi_ErrorCode :: string
  fi_RequestHash :: string
  fi_ResponseHash :: string
  fi_LatencyMS :: int
  fi_ProviderLatencyMS :: "int option"
  fi_Metadata :: "raw_json option"
  fi_StartedAt :: time
  fi_CompletedAt :: time

record RecordCacheHitInput =
  hi_RequestID :: uuid
  hi_OrgID :: uuid
  hi_APIKeyID :: uuid
  hi_ProviderID :: uuid
  hi_ModelID :: uuid
  hi_RoutePolicyID :: "uuid option"
  hi_Method :: string
  hi_Path :: string
  hi_RequestModel :: string
  hi_Status :: string
  hi_StatusCode :: int
  hi_RequestHash :: string
  hi_ResponseHash :: string
  hi_LatencyMS :: int
  hi_ProviderLatencyMS :: "int option"
  hi_Metadata :: "raw_json option"
  hi_StartedAt :: time
  hi_CompletedAt :: time

record RecordSuccessResult =
  sr_RequestLog :: RequestLog
  sr_UsageRecord :: UsageRecord
  sr_CostRecord :: CostRecord

section \<open>Validation and conversions\<close>

definition validateSuccessInput :: "RecordSuccessInput \<Rightarrow> unit outcome" where
  "validateSuccessInput i =
    (if si_RequestID i = uuid_Nil then Inl (ErrInvalidMeteringInput ''request_id is required'')
     else if si_OrgID i = uuid_Nil \<or> si_APIKeyID i = uuid_Nil \<or> si_ProviderID i = uuid_Nil \<or> si_ModelID i = uuid_Nil
     then Inl (ErrInvalidMeteringInput ''org_id, api_key_id, provider_id and model_id are required'')
     else if si_Method i = [] \<or> si_Path i = [] then Inl (ErrInvalidMeteringInput ''method and path are required'')
     else if si_StatusCode i < 100 \<or> 599 < si_StatusCode i
     then Inl (ErrInvalidMeteringInput ''status_code must be valid HTTP status'')
     else if si_Status i \<noteq> [] \<and> si_Status i \<noteq> ''success'' \<and> si_Status i \<noteq> ''budget_warned''
     then Inl (ErrInvalidMeteringInput ''invalid success status'')
     else if si_LatencyMS i < 0 then Inl (ErrInvalidMeteringInput ''latency_ms must be non-negative'')
     else if si_PromptTokens i < 0 \<or> si_CompletionTokens i < 0
     then Inl (ErrInvalidMeteringInput ''tokens must be non-negative'')
     else if max_int32 < si_PromptTokens i \<or> max_int32 < si_CompletionTokens i \<or>
       max_int32 < wrap64 (si_PromptTokens i + si_CompletionTokens i)
     then Inl (ErrInvalidMeteringInput ''tokens exceed database integer range'')
     else Inr ())"

definition successStatus :: "string \<Rightarrow> string" where
  "successStatus status = (if status = [] then ''success'' else status)"

definition validFailureStatus :: "string \<Rightarrow> bool" where
  "validFailureStatus status \<longleftrightarrow>
     status = ''error'' \<or> status = ''rate_limited'' \<or> status = ''budget_warned'' \<or> status = ''budget_blocked''"

definition validateFailureInput :: "RecordFailureInput \<Rightarrow> unit outcome" where
  "validateFailureInput i =
    (if fi_RequestID i = uuid_Nil then Inl (ErrInvalidMeteringInput ''request_id is required'')
     else if fi_OrgID i = uuid_Nil then Inl (ErrInvalidMeteringInput ''org_id is required'')
     else if fi_Method i = [] \<or> fi_Path i = [] then Inl (ErrInvalidMeteringInput ''method and path are required'')
     else if \<not> validFailureStatus (fi_Status i) then Inl (ErrInvalidMeteringInput ''invalid failure status'')
     else if fi_StatusCode i < 100 \<or> 599 < fi_StatusCode i
     then Inl (ErrInvalidMeteringInput ''status_code must be valid HTTP status'')
     else if fi_LatencyMS i < 0 then Inl (ErrInvalidMeteringInput ''latency_ms must be non-negative'')
     else Inr ())"

definition validateCacheHitInput :: "RecordCacheHitInput \<Rightarrow> unit outcome" where
  "validateCacheHitInput i =
    (if hi_RequestID i = uuid_Nil then Inl (ErrInvalidMeteringInput ''request_id is required'')
     else if hi_OrgID i = uuid_Nil \<or> hi_APIKeyID i = uuid_Nil \<or> hi_ProviderID i = uuid_Nil \<or> hi_ModelID i = uuid_Nil
     then Inl (ErrInvalidMeteringInput ''org_id, api_key_id, provider_id and model_id are required'')
     else if hi_Method i = [] \<or> hi_Path i = [] then Inl (ErrInvalidMeteringInput ''method and path are required'')
     else if hi_Status i \<noteq> [] \<and> hi_Status i \<noteq> ''success'' \<and> hi_Status i \<noteq> ''budget_warned''
     then Inl (ErrInvalidMeteringInput ''invalid cache hit status'')
     else if hi_StatusCode i < 100 \<or> 599 < hi_StatusCode i
     then Inl (ErrInvalidMeteringInput ''status_code must be valid HTTP status'')
     else if hi_LatencyMS i < 0 then Inl (ErrInvalidMeteringInput ''latency_ms must be non-negative'')
     else Inr ())"

definition textValue :: "string \<Rightarrow> string option" where
  "textValue value = (if value = [] then None else Some value)"

definition rawMessagePtr :: "raw_json \<Rightarrow> raw_json option" where
  "rawMessagePtr value = (if value = RawEmpty then None else Some value)"

definition nonZeroTime :: "time \<Rightarrow> time \<Rightarrow> time" where
  "nonZeroTime value fallback = (if time_IsZero value then fallback else value)"

text \<open>What the server makes of a JSON parameter: \<^verbatim>\<open>NULL\<close>, a value, or a syntax error.\<close>

fun json_column :: "raw_json option \<Rightarrow> json option outcome" where
  "json_column None = Inr None"
| "json_column (Some (RawValid j)) = Inr (Some j)"
| "json_column (Some _) = Inl ErrJSON"

text \<open>The JSON of \<^verbatim>\<open>domain.PricingSnapshot\<close>.\<close>

definition marshal_snapshot :: "PricingSnapshot \<Rightarrow> raw_json" where
  "marshal_snapshot s = RawValid (JObj
     [(''input_price_micro_usd_per_1k_tokens'', JInt (sn_InputPrice s)),
      (''output_price_micro_usd_per_1k_tokens'', JInt (sn_OutputPrice s)),
      (''rounding_mode'', JStr (sn_RoundingMode s))])"

section \<open>Sinks\<close>

definition publishUsageEvent :: "metering_service \<Rightarrow> UsageEvent \<Rightarrow> unit act" where
  "publishUsageEvent s event = (\<lambda>E w.
     if \<not> ms_publisher s then (Inr (), w)
     else if env_sink_fault E (w_step w) then (Inr (), tick w)
     else (Inr (), (tick w)\<lparr>w_events := w_events w @ [event]\<rparr>))"

definition writeAnalyticsRecord :: "metering_service \<Rightarrow> AnalyticsRecord \<Rightarrow> unit act" where
  "writeAnalyticsRecord s record = (\<lambda>E w.
     if \<not> ms_analytics s then (Inr (), w)
     else if env_sink_fault E (w_step w) then (Inr (), tick w)
     else (Inr (), (tick w)\<lparr>w_analytics := w_analytics w @ [record]\<rparr>))"

section \<open>Recording\<close>

definition success_log :: "RecordSuccessInput \<Rightarrow> json option \<Rightarrow> time \<Rightarrow> time \<Rightarrow> RequestLog" where
  "success_log i metadata startedAt completedAt =
    \<lparr>rl_ID = si_RequestID i, rl_OrgID = si_OrgID i, rl_ApiKeyID = Some (si_APIKeyID i),
     rl_ProviderID = Some (si_ProviderID i), rl_ModelID = Some (si_ModelID i),
     rl_RoutePolicyID = si_RoutePolicyID i, rl_Method = si_Method i, rl_Path = si_Path i,
     rl_RequestModel = textValue (si_RequestModel i), rl_Status = successStatus (si_Status i),
     rl_StatusCode = si_StatusCode i, rl_ErrorCode = None,
     rl_RequestHash = textValue (si_RequestHash i), rl_ResponseHash = textValue (si_ResponseHash i),
     rl_LatencyMs = si_LatencyMS i, rl_ProviderLatencyMs = si_ProviderLatencyMS i,
     rl_Metadata = metadata, rl_StartedAt = startedAt, rl_CompletedAt = completedAt\<rparr>"

definition usage_row :: "RecordSuccessInput \<Rightarrow> uuid \<Rightarrow> uuid \<Rightarrow> json option \<Rightarrow> time \<Rightarrow> UsageRecord" where
  "usage_row i usageID logID providerUsage completedAt =
    \<lparr>ur_ID = usageID, ur_RequestLogID = logID, ur_OrgID = si_OrgID i, ur_ApiKeyID = si_APIKeyID i,
     ur_ProviderID = si_ProviderID i, ur_ModelID = si_ModelID i,
     ur_PromptTokens = wrap32 (si_PromptTokens i), ur_CompletionTokens = wrap32 (si_CompletionTokens i),
     ur_TotalTokens = wrap32 (wrap64 (si_PromptTokens i + si_CompletionTokens i)),
     ur_ProviderUsageJson = providerUsage, ur_CreatedAt = completedAt\<rparr>"

definition cost_row :: "RecordSuccessInput \<Rightarrow> uuid \<Rightarrow> uuid \<Rightarrow> CostCalculation \<Rightarrow> uuid \<Rightarrow> time \<Rightarrow> CostRecord" where
  "cost_row i costID usageID calculation versionID completedAt =
    \<lparr>cr_ID = costID, cr_UsageRecordID = usageID, cr_OrgID = si_OrgID i, cr_ProviderID = si_ProviderID i,
     cr_ModelID = si_ModelID i, cr_Currency = co_Currency calculation,
     cr_InputCostMicro = co_InputCostMicro calculation, cr_OutputCostMicro = co_OutputCostMicro calculation,
     cr_TotalCostMicro = co_TotalCostMicro calculation,
     cr_PricingSnapshot = marshal_snapshot (co_PricingSnapshot calculation),
     cr_CreatedAt = completedAt, cr_PricingVersionID = Some versionID\<rparr>"

definition price_input :: "RecordSuccessInput \<Rightarrow> ModelPricingVersion \<Rightarrow> CalculateInput" where
  "price_input i v = \<lparr>ci_PromptTokens = si_PromptTokens i, ci_CompletionTokens = si_CompletionTokens i,
     ci_InputPrice = pv_InputPriceMicroUsdPer1kTokens v,
     ci_OutputPrice = pv_OutputPriceMicroUsdPer1kTokens v\<rparr>"

text \<open>The body of the transaction, over the settlement call it ends with.\<close>

definition record_success_tx :: "(uuid \<Rightarrow> int \<Rightarrow> time \<Rightarrow> unit act) \<Rightarrow> RecordSuccessInput \<Rightarrow> RecordSuccessResult act" where
  "record_success_tx settle i =
    andThen clock_now (\<lambda>now1. andThen clock_now (\<lambda>now2.
    let startedAt = nonZeroTime (si_StartedAt i) now1; completedAt = nonZeroTime (si_CompletedAt i) now2 in
    andThen (lift (json_column (si_Metadata i))) (\<lambda>metadata.
    andThen (InsertRequestLog (success_log i metadata startedAt completedAt)) (\<lambda>requestLog.
    andThen new_uuid (\<lambda>usageID.
    andThen (lift (json_column (rawMessagePtr (si_ProviderUsageJSON i)))) (\<lambda>providerUsage.
    andThen (InsertUsageRecord (usage_row i usageID (rl_ID requestLog) providerUsage completedAt)) (\<lambda>usageRecord.
    andThen (GetActiveModelPricingVersion_row (si_OrgID i) (si_ModelID i)) (\<lambda>version.
    andThen (lift (Calculate (price_input i version))) (\<lambda>calculation.
    andThen new_uuid (\<lambda>costID.
    andThen (InsertCostRecord (cost_row i costID (ur_ID usageRecord) calculation (pv_ID version) completedAt)) (\<lambda>costRecord.
    andThen (settle (si_RequestID i) (cr_TotalCostMicro costRecord) completedAt) (\<lambda>_.
    ret \<lparr>sr_RequestLog = requestLog, sr_UsageRecord = usageRecord, sr_CostRecord = costRecord\<rparr>))))))))))))"

definition recorded_event :: "RecordSuccessInput \<Rightarrow> RecordSuccessResult \<Rightarrow> UsageEvent" where
  "recorded_event i r =
    \<lparr>ue_Type = ''llm.usage.recorded'', ue_OrgID = si_OrgID i, ue_APIKeyID = Some (si_APIKeyID i),
     ue_ProviderID = Some (si_ProviderID i), ue_ModelID = Some (si_ModelID i),
     ue_RequestID = rl_ID (sr_RequestLog r), ue_PromptTokens = ur_PromptTokens (sr_UsageRecord r),
     ue_CompletionTokens = ur_CompletionTokens (sr_UsageRecord r),
     ue_TotalTokens = ur_TotalTokens (sr_UsageRecord r),
     ue_TotalCostMicroUSD = cr_TotalCostMicro (sr_CostRecord r), ue_Status = rl_Status (sr_RequestLog r),
     ue_CreatedAt = ur_CreatedAt (sr_UsageRecord r)\<rparr>"

definition success_analytics :: "RecordSuccessInput \<Rightarrow> RecordSuccessResult \<Rightarrow> AnalyticsRecord" where
  "success_analytics i r =
    \<lparr>an_RequestID = rl_ID (sr_RequestLog r), an_OrgID = si_OrgID i, an_APIKeyID = Some (si_APIKeyID i),
     an_ProviderID = Some (si_ProviderID i), an_ModelID = Some (si_ModelID i),
     an_Status = rl_Status (sr_RequestLog r), an_PromptTokens = ur_PromptTokens (sr_UsageRecord r),
     an_CompletionTokens = ur_CompletionTokens (sr_UsageRecord r),
     an_TotalTokens = ur_TotalTokens (sr_UsageRecord r),
     an_TotalCostMicroUSD = cr_TotalCostMicro (sr_CostRecord r),
     an_LatencyMS = rl_LatencyMs (sr_RequestLog r), an_CreatedAt = rl_CompletedAt (sr_RequestLog r)\<rparr>"

definition RecordSuccess :: "metering_service \<Rightarrow> RecordSuccessInput \<Rightarrow> RecordSuccessResult act" where
  "RecordSuccess s i =
    andThen (lift (validateSuccessInput i)) (\<lambda>_.
    andThen (ExecTx (record_success_tx SettleTx i)) (\<lambda>result.
    andThen (publishUsageEvent s (recorded_event i result)) (\<lambda>_.
    andThen (writeAnalyticsRecord s (success_analytics i result)) (\<lambda>_.
    ret result))))"

definition failure_log :: "RecordFailureInput \<Rightarrow> json option \<Rightarrow> time \<Rightarrow> time \<Rightarrow> RequestLog" where
  "failure_log i metadata startedAt completedAt =
    \<lparr>rl_ID = fi_RequestID i, rl_OrgID = fi_OrgID i, rl_ApiKeyID = fi_APIKeyID i,
     rl_ProviderID = fi_ProviderID i, rl_ModelID = fi_ModelID i,
     rl_RoutePolicyID = fi_RoutePolicyID i, rl_Method = fi_Method i, rl_Path = fi_Path i,
     rl_RequestModel = textValue (fi_RequestModel i), rl_Status = fi_Status i,
     rl_StatusCode = fi_StatusCode i, rl_ErrorCode = textValue (fi_ErrorCode i),
     rl_RequestHash = textValue (fi_RequestHash i), rl_ResponseHash = textValue (fi_ResponseHash i),
     rl_LatencyMs = fi_LatencyMS i, rl_ProviderLatencyMs = fi_ProviderLatencyMS i,
     rl_Metadata = metadata, rl_StartedAt = startedAt, rl_CompletedAt = completedAt\<rparr>"

definition blocked_event :: "RecordFailureInput \<Rightarrow> RequestLog \<Rightarrow> UsageEvent" where
  "blocked_event i l =
    \<lparr>ue_Type = ''llm.request.blocked'', ue_OrgID = fi_OrgID i, ue_APIKeyID = fi_APIKeyID i,
     ue_ProviderID = fi_ProviderID i, ue_ModelID = fi_ModelID i, ue_RequestID = rl_ID l,
     ue_PromptTokens = 0, ue_CompletionTokens = 0, ue_TotalTokens = 0, ue_TotalCostMicroUSD = 0,
     ue_Status = rl_Status l, ue_CreatedAt = rl_CompletedAt l\<rparr>"

definition log_analytics :: "uuid \<Rightarrow> uuid option \<Rightarrow> uuid option \<Rightarrow> uuid option \<Rightarrow> RequestLog \<Rightarrow> AnalyticsRecord" where
  "log_analytics org key provider m l =
    \<lparr>an_RequestID = rl_ID l, an_OrgID = org, an_APIKeyID = key, an_ProviderID = provider,
     an_ModelID = m, an_Status = rl_Status l, an_PromptTokens = 0, an_CompletionTokens = 0,
     an_TotalTokens = 0, an_TotalCostMicroUSD = 0, an_LatencyMS = rl_LatencyMs l,
     an_CreatedAt = rl_CompletedAt l\<rparr>"

definition RecordFailure :: "metering_service \<Rightarrow> RecordFailureInput \<Rightarrow> RequestLog act" where
  "RecordFailure s i =
    andThen (lift (validateFailureInput i)) (\<lambda>_.
    andThen clock_now (\<lambda>now1. andThen clock_now (\<lambda>now2.
    andThen (lift (json_column (fi_Metadata i))) (\<lambda>metadata.
    andThen (InsertRequestLog (failure_log i metadata (nonZeroTime (fi_StartedAt i) now1)
      (nonZeroTime (fi_CompletedAt i) now2))) (\<lambda>requestLog.
    andThen (if fi_Status i = ''budget_blocked'' \<and> fi_ErrorCode i = ''budget_exceeded''
      then publishUsageEvent s (blocked_event i requestLog) else ret ()) (\<lambda>_.
    andThen (writeAnalyticsRecord s (log_analytics (fi_OrgID i) (fi_APIKeyID i) (fi_ProviderID i)
      (fi_ModelID i) requestLog)) (\<lambda>_.
    ret requestLog)))))))"

definition cache_hit_log :: "RecordCacheHitInput \<Rightarrow> json option \<Rightarrow> time \<Rightarrow> time \<Rightarrow> RequestLog" where
  "cache_hit_log i metadata startedAt completedAt =
    \<lparr>rl_ID = hi_RequestID i, rl_OrgID = hi_OrgID i, rl_ApiKeyID = Some (hi_APIKeyID i),
     rl_ProviderID = Some (hi_ProviderID i), rl_ModelID = Some (hi_ModelID i),
     rl_RoutePolicyID = hi_RoutePolicyID i, rl_Method = hi_Method i, rl_Path = hi_Path i,
     rl_RequestModel = textValue (hi_RequestModel i), rl_Status = successStatus (hi_Status i),
     rl_StatusCode = hi_StatusCode i, rl_ErrorCode = None,
     rl_RequestHash = textValue (hi_RequestHash i), rl_ResponseHash = textValue (hi_ResponseHash i),
     rl_LatencyMs = hi_LatencyMS i, rl_ProviderLatencyMs = hi_ProviderLatencyMS i,
     rl_Metadata = metadata, rl_StartedAt = startedAt, rl_CompletedAt = completedAt\<rparr>"

definition RecordCacheHit :: "metering_service \<Rightarrow> RecordCacheHitInput \<Rightarrow> RequestLog act" where
  "RecordCacheHit s i =
    andThen (lift (validateCacheHitInput i)) (\<lambda>_.
    andThen clock_now (\<lambda>now1. andThen clock_now (\<lambda>now2.
    andThen (lift (json_column (hi_Metadata i))) (\<lambda>metadata.
    andThen (InsertRequestLog (cache_hit_log i metadata (nonZeroTime (hi_StartedAt i) now1)
      (nonZeroTime (hi_CompletedAt i) now2))) (\<lambda>requestLog.
    andThen (writeAnalyticsRecord s (log_analytics (hi_OrgID i) (Some (hi_APIKeyID i))
      (Some (hi_ProviderID i)) (Some (hi_ModelID i)) requestLog)) (\<lambda>_.
    ret requestLog))))))"

section \<open>What stays inside the process\<close>

text \<open>Everything outside the database that a call can reach.\<close>

definition sinks :: "world \<Rightarrow> UsageEvent list \<times> AnalyticsRecord list \<times> sent_message list" where
  "sinks w = (w_events w, w_analytics w, w_sent w)"

definition silent :: "'a act \<Rightarrow> bool" where
  "silent m \<longleftrightarrow> (\<forall>E w. sinks (snd (m E w)) = sinks w)"

named_theorems silent_rules \<open>calls that reach nothing outside the database\<close>

lemma silentD: "silent m \<Longrightarrow> m E w = (r, w') \<Longrightarrow> sinks w' = sinks w"
  unfolding silent_def by (metis snd_conv)

lemma sinks_update [simp]: "sinks (tick w) = sinks w" "sinks (w\<lparr>w_db := db\<rparr>) = sinks w"
  "sinks (rollback db w) = sinks w"
  by (simp_all add: sinks_def tick_def rollback_def)

lemma silent_basic [silent_rules]: "silent (ret a)" "silent (lift r)" "silent (fail e)"
  "silent clock_now" "silent new_uuid"
  by (simp_all add: silent_def act_simps)

lemma silent_db_exec [silent_rules]: "silent (db_exec f)"
  by (auto simp: silent_def act_simps split: sum.splits)

lemma silent_andThen [silent_rules]: "silent m \<Longrightarrow> (\<And>a. silent (f a)) \<Longrightarrow> silent (andThen m f)"
  unfolding silent_def andThen_def by (auto split: prod.splits sum.splits) (metis snd_conv)+

lemma silent_let [silent_rules]: "silent (f x) \<Longrightarrow> silent (Let x f)"
  by simp

lemma silent_if [silent_rules]: "silent m \<Longrightarrow> silent n \<Longrightarrow> silent (if c then m else n)"
  by simp

lemma silent_with_tx [silent_rules]:
  assumes "silent body"
  shows "silent (with_tx body)"
  unfolding silent_def
proof (intro allI)
  fix E w
  obtain r w2 where body: "body E (tick w) = (r, w2)" by fastforce
  then have "sinks w2 = sinks w" using silentD [OF assms body] by simp
  then show "sinks (snd (with_tx body E w)) = sinks w"
    using body by (auto simp: with_tx_def act_simps split: sum.splits bool.splits)
qed

lemma silent_ExecTx [silent_rules]: "silent m \<Longrightarrow> silent (ExecTx m)"
  unfolding ExecTx_def by (intro silent_rules)

lemma silent_statements [silent_rules]: "silent (db_read f)" "silent (sql_insert cs add r)"
  "silent (update_counters P g)"
  unfolding db_read_def sql_insert_def update_counters_def by (rule silent_db_exec)+

lemma silent_settle_loop [silent_rules]: "silent (settle_loop rs actual now)"
  unfolding settle_loop_eq by (induction rs) (auto intro!: silent_rules)

lemma silent_SettleTx [silent_rules]: "silent (SettleTx q actual now)"
  unfolding SettleTx_def select_reservations_def mark_settled_def by (intro silent_rules)

section \<open>What a success leaves behind\<close>

definition add_records :: "RecordSuccessResult \<Rightarrow> database \<Rightarrow> database" where
  "add_records r db = db\<lparr>request_logs := request_logs db @ [sr_RequestLog r],
     usage_records := usage_records db @ [sr_UsageRecord r],
     cost_records := cost_records db @ [sr_CostRecord r]\<rparr>"

text \<open>The price in force: the active version of the model.\<close>

definition price_in_force :: "database \<Rightarrow> uuid \<Rightarrow> uuid \<Rightarrow> ModelPricingVersion outcome" where
  "price_in_force db org m = first_row (filter (active_version org m) (model_pricing_versions db))"

definition result_ok :: "database \<Rightarrow> RecordSuccessInput \<Rightarrow> RecordSuccessResult \<Rightarrow> bool" where
  "result_ok db i r \<longleftrightarrow>
     rl_ID (sr_RequestLog r) = si_RequestID i \<and> rl_OrgID (sr_RequestLog r) = si_OrgID i \<and>
     rl_Status (sr_RequestLog r) = successStatus (si_Status i) \<and>
     ur_RequestLogID (sr_UsageRecord r) = si_RequestID i \<and>
     cr_UsageRecordID (sr_CostRecord r) = ur_ID (sr_UsageRecord r) \<and>
     cr_OrgID (sr_CostRecord r) = si_OrgID i \<and>
     (\<exists>v c. price_in_force db (si_OrgID i) (si_ModelID i) = Inr v \<and> Calculate (price_input i v) = Inr c \<and>
        cr_TotalCostMicro (sr_CostRecord r) = co_TotalCostMicro c \<and>
        cr_InputCostMicro (sr_CostRecord r) = co_InputCostMicro c \<and>
        cr_OutputCostMicro (sr_CostRecord r) = co_OutputCostMicro c \<and>
        cr_PricingVersionID (sr_CostRecord r) = Some (pv_ID v))"

definition rows_free :: "database \<Rightarrow> RecordSuccessResult \<Rightarrow> bool" where
  "rows_free db r \<longleftrightarrow> rl_ID (sr_RequestLog r) \<notin> rl_ID ` set (request_logs db) \<and>
     ur_ID (sr_UsageRecord r) \<notin> ur_ID ` set (usage_records db) \<and>
     ur_RequestLogID (sr_UsageRecord r) \<notin> ur_RequestLogID ` set (usage_records db) \<and>
     cr_ID (sr_CostRecord r) \<notin> cr_ID ` set (cost_records db) \<and>
     cr_UsageRecordID (sr_CostRecord r) \<notin> cr_UsageRecordID ` set (cost_records db)"

lemma InsertRequestLog_Inr:
  assumes "InsertRequestLog r E w = (Inr x, w')"
  shows "x = r" "w_db w' = (w_db w)\<lparr>request_logs := request_logs (w_db w) @ [r]\<rparr>"
    "rl_ID r \<notin> rl_ID ` set (request_logs (w_db w))"
  using assms by (auto simp: InsertRequestLog_def act_inr request_log_constraints_def list_ex_iff)

lemma InsertUsageRecord_Inr:
  assumes "InsertUsageRecord r E w = (Inr x, w')"
  shows "x = r" "w_db w' = (w_db w)\<lparr>usage_records := usage_records (w_db w) @ [r]\<rparr>"
    "ur_ID r \<notin> ur_ID ` set (usage_records (w_db w))"
    "ur_RequestLogID r \<notin> ur_RequestLogID ` set (usage_records (w_db w))"
    "ur_TotalTokens r = ur_PromptTokens r + ur_CompletionTokens r"
  using assms by (auto simp: InsertUsageRecord_def act_inr usage_record_constraints_def list_ex_iff)

lemma InsertCostRecord_Inr:
  assumes "InsertCostRecord r E w = (Inr x, w')"
  shows "x = r" "w_db w' = (w_db w)\<lparr>cost_records := cost_records (w_db w) @ [r]\<rparr>"
    "cr_ID r \<notin> cr_ID ` set (cost_records (w_db w))"
    "cr_UsageRecordID r \<notin> cr_UsageRecordID ` set (cost_records (w_db w))"
  using assms by (auto simp: InsertCostRecord_def act_inr cost_record_constraints_def list_ex_iff)

lemma GetActive_Inr: "GetActiveModelPricingVersion_row org m E w = (Inr v, w') \<Longrightarrow>
  price_in_force (w_db w) org m = Inr v \<and> w' = tick w"
  by (simp add: GetActiveModelPricingVersion_row_def act_inr price_in_force_def)

lemma record_success_tx_Inr:
  assumes "record_success_tx settle i E w = (Inr r, w')"
  obtains w1 where "w_db w1 = add_records r (w_db w)" "result_ok (w_db w) i r" "rows_free (w_db w) r"
    "ur_PromptTokens (sr_UsageRecord r) = wrap32 (si_PromptTokens i)"
    "ur_CompletionTokens (sr_UsageRecord r) = wrap32 (si_CompletionTokens i)"
    "ur_TotalTokens (sr_UsageRecord r) = wrap32 (wrap64 (si_PromptTokens i + si_CompletionTokens i))"
    "ur_TotalTokens (sr_UsageRecord r) = ur_PromptTokens (sr_UsageRecord r) + ur_CompletionTokens (sr_UsageRecord r)"
    "cr_CreatedAt (sr_CostRecord r) = rl_CompletedAt (sr_RequestLog r)"
    "settle (si_RequestID i) (cr_TotalCostMicro (sr_CostRecord r)) (rl_CompletedAt (sr_RequestLog r)) E w1 = (Inr (), w')"
proof -
  from assms obtain metadata w2 startedAt completedAt log w3 usageID providerUsage usage w4 v w5 c costID cost w6 where
    log: "InsertRequestLog (success_log i metadata startedAt completedAt) E (tick (tick w)) = (Inr log, w3)"
    and usage: "InsertUsageRecord (usage_row i usageID (rl_ID log) providerUsage completedAt) E (tick w3) = (Inr usage, w4)"
    and v: "GetActiveModelPricingVersion_row (si_OrgID i) (si_ModelID i) E w4 = (Inr v, w5)"
    and c: "Calculate (price_input i v) = Inr c"
    and cost: "InsertCostRecord (cost_row i costID (ur_ID usage) c (pv_ID v) completedAt) E (tick w5) = (Inr cost, w6)"
    and settle: "settle (si_RequestID i) (cr_TotalCostMicro cost) completedAt E w6 = (Inr (), w')"
    and r: "r = \<lparr>sr_RequestLog = log, sr_UsageRecord = usage, sr_CostRecord = cost\<rparr>"
    by (simp only: record_success_tx_def Let_def act_inr old.unit.exhaust) (metis old.unit.exhaust)
  note facts = InsertRequestLog_Inr [OF log] InsertUsageRecord_Inr [OF usage] GetActive_Inr [OF v]
    InsertCostRecord_Inr [OF cost]
  show thesis
  proof (rule that [of w6])
    show "w_db w6 = add_records r (w_db w)" using facts by (simp add: add_records_def r)
    show "result_ok (w_db w) i r"
      using facts c by (simp add: result_ok_def r success_log_def usage_row_def cost_row_def price_in_force_def)
    show "rows_free (w_db w) r" using facts by (simp add: rows_free_def r)
  qed (use facts settle in \<open>simp_all add: r success_log_def usage_row_def cost_row_def\<close>)
qed

section \<open>The settlement interface\<close>

text \<open>
  What recording relies on: the settlement call changes none of the tables the record is written
  to, reaches nothing outside the database, and keeps its own invariant, which in turn does not
  read those tables.
\<close>

definition records_of :: "database \<Rightarrow> RequestLog list \<times> UsageRecord list \<times> CostRecord list" where
  "records_of db = (request_logs db, usage_records db, cost_records db)"

text \<open>
  The books: every log, usage and cost identifier occurs once; the costs belong to the usages one
  to one and in order, each usage to a log of its organisation; sums are right.
\<close>

definition books_ok :: "database \<Rightarrow> bool" where
  "books_ok db \<longleftrightarrow> distinct (map rl_ID (request_logs db)) \<and>
     distinct (map ur_ID (usage_records db)) \<and> distinct (map ur_RequestLogID (usage_records db)) \<and>
     map cr_UsageRecordID (cost_records db) = map ur_ID (usage_records db) \<and>
     list_all (\<lambda>u. ur_RequestLogID u \<in> rl_ID ` set (request_logs db) \<and>
       ur_TotalTokens u = ur_PromptTokens u + ur_CompletionTokens u) (usage_records db)"

lemma books_ok_frame: "records_of db' = records_of db \<Longrightarrow> books_ok db' \<longleftrightarrow> books_ok db"
  by (simp add: records_of_def books_ok_def)

locale settlement =
  fixes settle :: "uuid \<Rightarrow> int \<Rightarrow> time \<Rightarrow> unit act" and inv :: "database \<Rightarrow> bool"
  assumes settle_records: "settle q a t E w = (Inr u, w') \<Longrightarrow> records_of (w_db w') = records_of (w_db w)"
    and settle_silent: "silent (settle q a t)"
    and settle_inv: "keeps_ok inv (settle q a t)"
    and inv_records: "inv (db\<lparr>request_logs := ls, usage_records := us, cost_records := cs\<rparr>) \<longleftrightarrow> inv db"
begin

lemma tx_records:
  assumes "record_success_tx settle i E w = (Inr r, w')"
  shows "records_of (w_db w') = records_of (add_records r (w_db w))"
  using assms by (elim record_success_tx_Inr) (metis settle_records)

lemma tx_silent: "silent (record_success_tx settle i)"
  unfolding record_success_tx_def InsertRequestLog_def InsertUsageRecord_def InsertCostRecord_def
    GetActiveModelPricingVersion_row_def
  by (intro silent_rules settle_silent)

lemma tx_inv: "keeps_ok inv (record_success_tx settle i)"
proof (rule keeps_okI)
  fix E r and w w' :: world
  assume "inv (w_db w)" "record_success_tx settle i E w = (Inr r, w')"
  then show "inv (w_db w')"
    by (elim record_success_tx_Inr) (metis add_records_def inv_records keeps_okD settle_inv)
qed

lemma tx_books: "keeps_ok books_ok (record_success_tx settle i)"
proof (rule keeps_okI)
  fix E r and w w' :: world
  assume ok: "books_ok (w_db w)" and run: "record_success_tx settle i E w = (Inr r, w')"
  from run have "books_ok (add_records r (w_db w))"
  proof (rule record_success_tx_Inr)
    assume "result_ok (w_db w) i r" "rows_free (w_db w) r"
      "ur_TotalTokens (sr_UsageRecord r) = ur_PromptTokens (sr_UsageRecord r) + ur_CompletionTokens (sr_UsageRecord r)"
    then show ?thesis
      using ok by (auto simp: books_ok_def add_records_def result_ok_def rows_free_def list_all_iff)
  qed
  then show "books_ok (w_db w')" using books_ok_frame [OF tx_records [OF run]] by simp
qed

end

lemma ledger_ok_records: "ledger_ok (db\<lparr>request_logs := ls, usage_records := us, cost_records := cs\<rparr>) \<longleftrightarrow> ledger_ok db"
  by (simp add: ledger_ok_def)

interpretation settled: settlement SettleTx ledger_ok
proof unfold_locales
  show "records_of (w_db w') = records_of (w_db w)" if "SettleTx q a t E w = (Inr u, w')" for q a t E w u w'
    using SettleTx_Inr(3) [OF that] by (simp add: records_of_def close_request_def)
qed (simp_all add: silent_SettleTx keeps_SettleTx ledger_ok_records)

section \<open>The books under every operation\<close>

lemma keeps_InsertRequestLog_ledger: "keeps ledger_ok (InsertRequestLog r)"
  unfolding InsertRequestLog_def by (rule keeps_sql_insert) (simp add: ledger_ok_def)

lemma keeps_InsertRequestLog_books: "keeps books_ok (InsertRequestLog r)"
  unfolding InsertRequestLog_def
  by (rule keeps_sql_insert) (auto simp: books_ok_def request_log_constraints_def list_ex_iff list_all_iff)

lemma keeps_sinks [keeps_rules]: "keeps I (publishUsageEvent s e)" "keeps I (writeAnalyticsRecord s a)"
  by (auto intro!: keepsI simp: publishUsageEvent_def writeAnalyticsRecord_def)

lemma keeps_RecordSuccess: "keeps ledger_ok (RecordSuccess s i)" "keeps books_ok (RecordSuccess s i)"
  unfolding RecordSuccess_def
  by (intro keeps_rules keeps_ExecTx_ok [OF settled.tx_inv] keeps_ExecTx_ok [OF settled.tx_books])+

lemma keeps_RecordFailure: "keeps ledger_ok (RecordFailure s f)" "keeps books_ok (RecordFailure s f)"
  unfolding RecordFailure_def
  by (intro keeps_rules keeps_InsertRequestLog_ledger keeps_InsertRequestLog_books)+

lemma keeps_RecordCacheHit: "keeps ledger_ok (RecordCacheHit s h)" "keeps books_ok (RecordCacheHit s h)"
  unfolding RecordCacheHit_def
  by (intro keeps_rules keeps_InsertRequestLog_ledger keeps_InsertRequestLog_books)+

text \<open>
  A predicate that reads the logs, usages and costs only is not touched by the ledger: every
  statement of reserving, settling and releasing keeps it.
\<close>

lemmas ledger_statement_defs = update_counters_def insert_counter_def insert_reservation_def sql_insert_def
  mark_settled_def mark_released_def

locale records_view =
  fixes I :: "database \<Rightarrow> bool"
  assumes view: "records_of db' = records_of db \<Longrightarrow> I db' \<longleftrightarrow> I db"
begin

lemma keeps_ledger_statement:
  assumes "\<And>db a db'. f db = Inr (a, db') \<Longrightarrow> records_of db' = records_of db"
  shows "keeps I (db_exec f)"
  by (rule keeps_db_exec) (metis assms view)

lemma keeps_statements:
  "keeps I (update_counters P g)" "keeps I (insert_counter c k)"
  "keeps I (insert_reservation r)" "keeps I (mark_settled q a t)" "keeps I (mark_released q t)"
  unfolding ledger_statement_defs
  by (rule keeps_ledger_statement; auto simp: records_of_def Let_def split: if_splits option.splits sum.splits)+

lemma keeps_loops: "keeps I (settle_loop rs a t)" "keeps I (release_loop rs t)"
  by (induction rs) (auto intro!: keeps_rules keeps_statements)

lemma keeps_view_Settle: "keeps I (Settle q a)"
  unfolding Settle_def SettleTx_def select_reservations_def
  by (intro keeps_rules keeps_loops keeps_statements)

lemma keeps_view_Release: "keeps I (Release q)"
  unfolding Release_def ReleaseTx_def select_reservations_def
  by (intro keeps_rules keeps_loops keeps_statements)

lemma keeps_view_reserve_one: "keeps I (reserve_one input now item)"
  unfolding reserve_one_def ensureAndLockCounter_def reserve_on_limit_def reserve_on_counter_def
    select_counter_def
  by (intro keeps_rules keeps_statements)

lemma keeps_view_reserve_loop: "keeps I (reserve_loop input now items)"
  by (induction items) (auto intro!: keeps_rules keeps_view_reserve_one)

lemma keeps_view_Reserve: "keeps I (Reserve input)"
  unfolding Reserve_def reserve_body_def
  by (intro keeps_rules keeps_load keeps_view_reserve_loop)

end

interpretation books: records_view books_ok
  by unfold_locales (rule books_ok_frame)

lemmas keeps_books_Settle = books.keeps_view_Settle
lemmas keeps_books_Release = books.keeps_view_Release
lemmas keeps_books_Reserve = books.keeps_view_Reserve

text \<open>Requests are reserved for, recorded and given up in any order.\<close>

inductive metering_step :: "database \<Rightarrow> database \<Rightarrow> bool" where
  cost: "cost_step db db' \<Longrightarrow> metering_step db db'"
| success: "RecordSuccess s i E w = (r, w') \<Longrightarrow> metering_step (w_db w) (w_db w')"
| failure: "RecordFailure s f E w = (l, w') \<Longrightarrow> metering_step (w_db w) (w_db w')"
| cache_hit: "RecordCacheHit s h E w = (l, w') \<Longrightarrow> metering_step (w_db w) (w_db w')"

inductive_cases metering_stepE: "metering_step db db'"

inductive metering_reachable :: "database \<Rightarrow> database \<Rightarrow> bool" for db0 where
  start: "metering_reachable db0 db0"
| step: "metering_reachable db0 db \<Longrightarrow> metering_step db db' \<Longrightarrow> metering_reachable db0 db'"

lemma cost_step_books: "cost_step db db' \<Longrightarrow> books_ok db \<Longrightarrow> books_ok db'"
  by (erule cost_stepE)
    (auto dest: keepsD [OF keeps_books_Reserve] keepsD [OF keeps_books_Settle] keepsD [OF keeps_books_Release])

lemma metering_step_ok: "metering_step db db' \<Longrightarrow> ledger_ok db \<and> books_ok db \<Longrightarrow> ledger_ok db' \<and> books_ok db'"
  by (erule metering_stepE)
    (auto dest: cost_step_ledger cost_step_books keepsD [OF keeps_RecordSuccess(1)]
      keepsD [OF keeps_RecordSuccess(2)] keepsD [OF keeps_RecordFailure(1)] keepsD [OF keeps_RecordFailure(2)]
      keepsD [OF keeps_RecordCacheHit(1)] keepsD [OF keeps_RecordCacheHit(2)])

section \<open>When recording succeeds\<close>

definition started_before :: "environment \<Rightarrow> RecordSuccessInput \<Rightarrow> bool" where
  "started_before E i \<longleftrightarrow>
     (\<forall>n. nonZeroTime (si_StartedAt i) (env_time E n) \<le> nonZeroTime (si_CompletedAt i) (env_time E (Suc n)))"

definition fresh_uuids :: "environment \<Rightarrow> database \<Rightarrow> bool" where
  "fresh_uuids E db \<longleftrightarrow> (\<forall>n. \<not> list_ex (\<lambda>u. ur_ID u = env_uuid E n) (usage_records db) \<and>
     \<not> list_ex (\<lambda>c. cr_ID c = env_uuid E n) (cost_records db))"

text \<open>The rows the record refers to exist, and the request has not been recorded yet.\<close>

definition can_record :: "database \<Rightarrow> RecordSuccessInput \<Rightarrow> bool" where
  "can_record db i \<longleftrightarrow> org_exists db (si_OrgID i) \<and> fk_api_key db (si_OrgID i) (Some (si_APIKeyID i)) \<and>
     fk_provider db (si_OrgID i) (Some (si_ProviderID i)) \<and>
     fk_model db (si_OrgID i) (Some (si_ProviderID i)) (Some (si_ModelID i)) \<and>
     fk_route_policy db (si_OrgID i) (si_RoutePolicyID i) \<and>
     \<not> list_ex (\<lambda>l. rl_ID l = si_RequestID i) (request_logs db) \<and>
     (case si_ProviderLatencyMS i of None \<Rightarrow> True | Some l \<Rightarrow> 0 \<le> l)"

lemma validateSuccessInput_Inr:
  "validateSuccessInput i = Inr u \<longleftrightarrow>
     si_RequestID i \<noteq> uuid_Nil \<and> si_OrgID i \<noteq> uuid_Nil \<and> si_APIKeyID i \<noteq> uuid_Nil \<and> si_ProviderID i \<noteq> uuid_Nil \<and>
     si_ModelID i \<noteq> uuid_Nil \<and> si_Method i \<noteq> [] \<and> si_Path i \<noteq> [] \<and> 100 \<le> si_StatusCode i \<and> si_StatusCode i \<le> 599 \<and>
     si_Status i \<in> {[], ''success'', ''budget_warned''} \<and> 0 \<le> si_LatencyMS i \<and>
     0 \<le> si_PromptTokens i \<and> 0 \<le> si_CompletionTokens i \<and>
     si_PromptTokens i \<le> max_int32 \<and> si_CompletionTokens i \<le> max_int32 \<and>
     wrap64 (si_PromptTokens i + si_CompletionTokens i) \<le> max_int32"
  by (auto simp: validateSuccessInput_def not_le not_less)

lemma validated_tokens:
  assumes "validateSuccessInput i = Inr u"
  shows "wrap32 (si_PromptTokens i) = si_PromptTokens i"
    "wrap32 (si_CompletionTokens i) = si_CompletionTokens i"
    "wrap32 (wrap64 (si_PromptTokens i + si_CompletionTokens i)) = si_PromptTokens i + si_CompletionTokens i"
proof -
  have tokens: "0 \<le> si_PromptTokens i" "0 \<le> si_CompletionTokens i" "si_PromptTokens i \<le> max_int32"
    "si_CompletionTokens i \<le> max_int32" and sum: "wrap64 (si_PromptTokens i + si_CompletionTokens i) \<le> max_int32"
    using assms by (auto simp: validateSuccessInput_Inr)
  have w64: "wrap64 (si_PromptTokens i + si_CompletionTokens i) = si_PromptTokens i + si_CompletionTokens i"
    using tokens by (intro wrap64_id) (simp add: width_defs)
  show "wrap32 (si_PromptTokens i) = si_PromptTokens i" "wrap32 (si_CompletionTokens i) = si_CompletionTokens i"
    using tokens by (auto intro!: wrap32_id simp: width_defs)
  show "wrap32 (wrap64 (si_PromptTokens i + si_CompletionTokens i)) = si_PromptTokens i + si_CompletionTokens i"
    using sum tokens unfolding w64 by (intro wrap32_id) (simp add: width_defs)
qed

lemma fk_records [simp]:
  "org_exists (db\<lparr>request_logs := ls\<rparr>) = org_exists db" "org_exists (db\<lparr>usage_records := us\<rparr>) = org_exists db"
  "fk_api_key (db\<lparr>request_logs := ls\<rparr>) = fk_api_key db" "fk_provider (db\<lparr>request_logs := ls\<rparr>) = fk_provider db"
  "fk_model (db\<lparr>request_logs := ls\<rparr>) = fk_model db"
  by (auto simp: fun_eq_iff org_exists_def fk_api_key_def fk_provider_def fk_model_def split: option.splits)

lemma price_in_force_row: "price_in_force db org m = Inr v \<Longrightarrow>
  list_ex (\<lambda>x. pv_OrgID x = org \<and> pv_ID x = pv_ID v) (model_pricing_versions db)"
  by (auto simp: price_in_force_def active_version_def list_ex_iff dest!: first_row_Inr)

lemma RecordSuccess_total:
  assumes E: "healthy E" "started_before E i" "fresh_uuids E (w_db w)"
    and i: "validateSuccessInput i = Inr ()" "can_record (w_db w) i"
      "json_column (si_Metadata i) = Inr metadata" "json_column (rawMessagePtr (si_ProviderUsageJSON i)) = Inr providerUsage"
    and price: "price_in_force (w_db w) (si_OrgID i) (si_ModelID i) = Inr v" "Calculate (price_input i v) = Inr c"
    and ok: "books_ok (w_db w)" "ledger_ok (w_db w)"
    and fit: "list_all (\<lambda>k. cc_SettledMicroUsd k + co_TotalCostMicro c \<le> max_int64) (cost_limit_counters (w_db w))"
  shows "\<exists>r w'. RecordSuccess ms i E w = (Inr r, w')"
proof -
  let ?w1 = "tick (tick (tick w))"
  define s t where st: "s = nonZeroTime (si_StartedAt i) (env_time E (Suc (w_step w)))"
    "t = nonZeroTime (si_CompletedAt i) (env_time E (Suc (Suc (w_step w))))"
  define log where log_def: "log = success_log i metadata s t"
  define w2 where w2: "w2 = (tick ?w1)\<lparr>w_db := (w_db w)\<lparr>request_logs := request_logs (w_db w) @ [log]\<rparr>\<rparr>"
  define usage where usage_def: "usage = usage_row i (env_uuid E (w_step w2)) (si_RequestID i) providerUsage t"
  define w3 where w3: "w3 = (tick (tick w2))\<lparr>w_db := (w_db w2)\<lparr>usage_records := usage_records (w_db w) @ [usage]\<rparr>\<rparr>"
  define cost where cost_def: "cost = cost_row i (env_uuid E (Suc (w_step w3))) (ur_ID usage) c (pv_ID v) t"
  define w4 where w4: "w4 = (tick (tick (tick w3)))\<lparr>w_db := (w_db w3)\<lparr>cost_records := cost_records (w_db w) @ [cost]\<rparr>\<rparr>"
  note valid = i(1) [unfolded validateSuccessInput_Inr]
  have c: "0 \<le> co_InputCostMicro c" "0 \<le> co_OutputCostMicro c" "co_Currency c = ''USD''"
    "co_TotalCostMicro c = co_InputCostMicro c + co_OutputCostMicro c"
    using price(2) costs_nonneg by (auto simp: Calculate_Inr)
  have "s \<le> t" using E(2) by (simp add: started_before_def st)
  then have log: "InsertRequestLog log E ?w1 = (Inr log, w2)"
    using E(1) i(2) valid unfolding InsertRequestLog_def act_inr w2
    by (auto simp: request_log_constraints_def log_def success_log_def can_record_def successStatus_def)
  have "\<forall>u \<in> set (usage_records (w_db w)). ur_ID u \<noteq> ur_ID usage \<and> ur_RequestLogID u \<noteq> si_RequestID i"
    using E(3) i(2) ok(1)
    by (auto simp: fresh_uuids_def books_ok_def can_record_def list_all_iff list_ex_iff usage_def usage_row_def)
  moreover have "ur_TotalTokens usage = ur_PromptTokens usage + ur_CompletionTokens usage"
    "0 \<le> ur_PromptTokens usage" "0 \<le> ur_CompletionTokens usage"
    using valid validated_tokens [OF i(1)] by (simp_all add: usage_def usage_row_def)
  ultimately have usage: "InsertUsageRecord usage E (tick w2) = (Inr usage, w3)"
    using E(1) i(2) unfolding InsertUsageRecord_def act_inr w3
    by (auto simp: usage_record_constraints_def w2 can_record_def list_ex_iff log_def success_log_def usage_def usage_row_def)
  have "cr_UsageRecordID ` set (cost_records (w_db w)) = ur_ID ` set (usage_records (w_db w))"
    using ok(1) unfolding books_ok_def by (simp flip: set_map)
  then have "env_uuid E n \<notin> cr_UsageRecordID ` set (cost_records (w_db w))" for n
    using E(3) unfolding fresh_uuids_def list_ex_iff by (metis image_iff)
  moreover have fresh: "\<forall>c \<in> set (cost_records (w_db w)). cr_ID c \<noteq> env_uuid E n" for n
    using E(3) by (simp add: fresh_uuids_def list_ex_iff)
  ultimately have "\<forall>c \<in> set (cost_records (w_db w)). cr_UsageRecordID c \<noteq> env_uuid E n" for n
    by (metis image_eqI)
  then have cost: "InsertCostRecord cost E (tick (tick w3)) = (Inr cost, w4)"
    using E(1) i(2) c price_in_force_row [OF price(1)] fresh unfolding InsertCostRecord_def act_inr w4
    by (simp add: cost_record_constraints_def w3 w2 usage_def usage_row_def cost_def cost_row_def can_record_def
        list_ex_iff ball_conj_distrib)
  have "ledger_ok (w_db w4)" using ok(2) by (simp add: ledger_ok_def w4 w3 w2)
  moreover have "list_all (\<lambda>k. cc_SettledMicroUsd k + co_TotalCostMicro c \<le> max_int64) (cost_limit_counters (w_db w4))"
    using fit by (simp add: w4 w3 w2)
  moreover have "si_RequestID i \<noteq> uuid_Nil" "0 \<le> co_TotalCostMicro c" using valid c by simp_all
  ultimately obtain w5 where settle: "SettleTx (si_RequestID i) (co_TotalCostMicro c) t E w4 = (Inr (), w5)"
    using SettleTx_total [OF E(1)] by blast
  have "GetActiveModelPricingVersion_row (si_OrgID i) (si_ModelID i) E w3 = (Inr v, tick w3)"
    using E(1) price(1) by (simp add: GetActiveModelPricingVersion_row_def act_simps price_in_force_def w3 w2)
  moreover have rl_log: "rl_ID log = si_RequestID i" and ur_cost: "cr_TotalCostMicro cost = co_TotalCostMicro c"
    by (simp_all add: log_def success_log_def cost_def cost_row_def)
  ultimately obtain r where "record_success_tx SettleTx i E (tick w) = (Inr r, w5)"
    using log usage cost settle i(3,4) price(2)
    by (simp add: record_success_tx_def act_simps Let_def st [symmetric] log_def [symmetric] rl_log ur_cost
        usage_def [symmetric] cost_def [symmetric])
  then have "ExecTx (record_success_tx SettleTx i) E w = (Inr r, tick w5)"
    by (rule ExecTx_healthy [OF E(1)])
  then show ?thesis
    using i(1) by (auto simp: RecordSuccess_def act_simps publishUsageEvent_def writeAnalyticsRecord_def)
qed

lemma RecordSuccess_Inr:
  assumes "RecordSuccess s i E w = (Inr r, w')"
  obtains w2 where "record_success_tx SettleTx i E (tick w) = (Inr r, w2)" "w_db w' = w_db w2"
    "validateSuccessInput i = Inr ()" "w_events w' \<in> {w_events w2, w_events w2 @ [recorded_event i r]}"
proof -
  obtain w1 w3 where valid: "validateSuccessInput i = Inr ()"
    and tx: "ExecTx (record_success_tx SettleTx i) E w = (Inr r, w1)"
    and pub: "publishUsageEvent s (recorded_event i r) E w1 = (Inr (), w3)"
    and an: "writeAnalyticsRecord s (success_analytics i r) E w3 = (Inr (), w')"
    using assms by (auto simp: RecordSuccess_def act_inr)
  obtain w2 where "record_success_tx SettleTx i E (tick w) = (Inr r, w2)" "w1 = tick w2"
    using tx by (rule ExecTx_Inr)
  then show thesis
    using that valid pub an
    by (auto simp: publishUsageEvent_def writeAnalyticsRecord_def split: if_splits)
qed

lemma RecordSuccess_Inl:
  assumes "RecordSuccess s i E w = (Inl e, w')"
  shows "w_db w' = w_db w" and "sinks w' = sinks w"
proof -
  have "\<exists>e. validateSuccessInput i = Inl e \<and> w' = w \<or> ExecTx (record_success_tx SettleTx i) E w = (Inl e, w')"
    using assms
    by (auto simp: RecordSuccess_def andThen_def lift_def ret_def publishUsageEvent_def writeAnalyticsRecord_def
        split: sum.splits prod.splits if_splits)
  then show "w_db w' = w_db w" "sinks w' = sinks w"
    using silentD [OF silent_ExecTx [OF settled.tx_silent]] ExecTx_cases [of "record_success_tx SettleTx i" E w]
    by (metis Inl_Inr_False prod.inject)+
qed

text \<open>A log on its own: the part \<^verbatim>\<open>RecordFailure\<close> and \<^verbatim>\<open>RecordCacheHit\<close> share.\<close>

lemma InsertRequestLog_cases:
  obtains (refused) e w' where "InsertRequestLog r E w = (Inl e, w')" "w_db w' = w_db w" "sinks w' = sinks w"
  | (logged) w' where "InsertRequestLog r E w = (Inr r, w')" "sinks w' = sinks w"
      "w_db w' = (w_db w)\<lparr>request_logs := request_logs (w_db w) @ [r]\<rparr>"
proof (cases "InsertRequestLog r E w")
  case (Pair res w')
  then have "sinks w' = sinks w"
    unfolding InsertRequestLog_def by (rule silentD [OF silent_statements(2)])
  moreover have "w_db w' = w_db w" if "res = Inl e" for e
    using Pair that by (auto simp: InsertRequestLog_def act_simps split: if_splits option.splits)
  ultimately show thesis
  proof (cases res)
    case (Inl e)
    then show ?thesis using Pair \<open>\<And>e. res = Inl e \<Longrightarrow> w_db w' = w_db w\<close> \<open>sinks w' = sinks w\<close> by (auto intro: refused [of e w'])
  next
    case (Inr x)
    then show ?thesis using Pair InsertRequestLog_Inr [of r E w x w'] \<open>sinks w' = sinks w\<close> by (auto intro: logged [of w'])
  qed
qed

lemma sinks_effect:
  "publishUsageEvent s e E w = (Inr (), w1) \<Longrightarrow> w_db w1 = w_db w \<and> (w_events w1 = w_events w \<or> w_events w1 = w_events w @ [e])"
  "writeAnalyticsRecord s a E w = (Inr (), w1) \<Longrightarrow> w_db w1 = w_db w \<and> w_events w1 = w_events w"
  "\<exists>w1. publishUsageEvent s e E w = (Inr (), w1)" "\<exists>w1. writeAnalyticsRecord s a E w = (Inr (), w1)"
  by (auto simp: publishUsageEvent_def writeAnalyticsRecord_def split: if_splits)

definition log_then :: "metering_service \<Rightarrow> RequestLog \<Rightarrow> bool \<Rightarrow> UsageEvent \<Rightarrow> AnalyticsRecord \<Rightarrow> RequestLog act" where
  "log_then s l announced event record = andThen (InsertRequestLog l) (\<lambda>l'.
     andThen (if announced then publishUsageEvent s event else ret ()) (\<lambda>_.
     andThen (writeAnalyticsRecord s record) (\<lambda>_. ret l')))"

lemma log_then_cases:
  assumes "log_then s l announced event record E w = (res, w')"
  shows "case res of Inl x \<Rightarrow> w_db w' = w_db w \<and> sinks w' = sinks w
    | Inr l' \<Rightarrow> l' = l \<and> w_db w' = (w_db w)\<lparr>request_logs := request_logs (w_db w) @ [l]\<rparr> \<and>
        (w_events w' = w_events w \<or> w_events w' = w_events w @ [event] \<and> announced)"
proof (cases rule: InsertRequestLog_cases [of l E w])
  case (refused x w1)
  then show ?thesis using assms by (auto simp: log_then_def act_simps)
next
  case (logged w1)
  let ?announce = "if announced then publishUsageEvent s event else ret ()"
  obtain w2 where an: "?announce E w1 = (Inr (), w2)" and "w_db w2 = w_db w1"
    "w_events w2 = w_events w1 \<or> w_events w2 = w_events w1 @ [event] \<and> announced"
  proof (cases announced)
    case True
    obtain w2 where pub: "publishUsageEvent s event E w1 = (Inr (), w2)" using sinks_effect(3) by blast
    show thesis using True sinks_effect(1) [OF pub] pub by (intro that [of w2]) simp_all
  next
    case False
    with that show thesis by (simp add: ret_apply)
  qed
  moreover obtain w3 where wa: "writeAnalyticsRecord s record E w2 = (Inr (), w3)"
    using sinks_effect(4) by blast
  moreover from this have "w_db w3 = w_db w2 \<and> w_events w3 = w_events w2" by (rule sinks_effect(2))
  moreover have "w_events w1 = w_events w" using logged by (simp add: sinks_def)
  moreover have "res = Inr l \<and> w' = w3"
    using assms an wa logged(1) unfolding log_then_def andThen_apply ret_apply by auto
  ultimately show ?thesis
    using logged(3) by simp
qed

lemma andThen_cong_Inr:
  assumes "\<And>E w a w'. m E w = (Inr a, w') \<Longrightarrow> f a = g a"
  shows "andThen m f = andThen m g"
  using assms by (auto simp: andThen_def fun_eq_iff split: sum.splits prod.splits)

lemma andThen_ret [simp]: "andThen (ret a) f = f a"
  by (simp add: andThen_def ret_def)

lemma log_then_eq:
  "andThen (InsertRequestLog l) (\<lambda>l'. andThen (if c then publishUsageEvent s (event l') else ret ()) (\<lambda>_.
     andThen (writeAnalyticsRecord s (record l')) (\<lambda>_. ret l'))) = log_then s l c (event l) (record l)"
  "andThen (InsertRequestLog l) (\<lambda>l'. andThen (writeAnalyticsRecord s (record l')) (\<lambda>_. ret l')) =
     log_then s l False e (record l)"
  unfolding log_then_def by (rule andThen_cong_Inr; drule InsertRequestLog_Inr(1); simp)+

section \<open>Accounts\<close>

text \<open>
  The abstract view of the counters: an account holds a settled and a reserved amount per counter
  key, and a request has claims on some of them. Charging a request settles the actual cost on
  every account it has a claim on and drops the claim.
\<close>

type_synonym account = "counter_key \<Rightarrow> (int \<times> int) option"

definition account :: "database \<Rightarrow> account" where
  "account db k = map_option (\<lambda>c. (cc_SettledMicroUsd c, cc_ReservedMicroUsd c)) (counter_for db k)"

definition claims :: "database \<Rightarrow> uuid \<Rightarrow> counter_key \<Rightarrow> int option" where
  "claims db q k = (if outstanding_on db q k = [] then None else Some (request_share db q k))"

definition charge :: "int \<Rightarrow> (counter_key \<Rightarrow> int option) \<Rightarrow> account \<Rightarrow> account" where
  "charge actual claim acc k = map_option (\<lambda>(settled, reserved).
     case claim k of None \<Rightarrow> (settled, reserved) | Some h \<Rightarrow> (settled + actual, reserved - h)) (acc k)"

lemma account_add_records [simp]: "account (add_records r db) = account db" "claims (add_records r db) = claims db"
  "ledger_ok (add_records r db) = ledger_ok db"
  by (simp_all add: fun_eq_iff account_def claims_def add_records_def counter_for_def outstanding_on_def
      request_share_def ledger_ok_def)

lemma request_share_none: "outstanding_on db q k = [] \<Longrightarrow> request_share db q k = 0"
  by (simp add: request_share_def)

lemma SettleTx_charges:
  assumes run: "SettleTx q actual now E w = (Inr u, w')" and ok: "ledger_ok (w_db w)"
  shows "account (w_db w') = charge actual (claims (w_db w) q) (account (w_db w))"
    and "claims (w_db w') q = (\<lambda>_. None)"
proof -
  note settle = closing_settle [OF SettleTx_Inr(2) [OF run]] and db = SettleTx_Inr(3) [OF run]
  have "filter (is_outstanding q) (cost_reservations (w_db w')) = []"
    unfolding db by (rule closing.close_request_none_outstanding [OF settle])
  then show "claims (w_db w') q = (\<lambda>_. None)"
    by (auto simp: claims_def outstanding_on_def fun_eq_iff filter_empty_conv)
  show "account (w_db w') = charge actual (claims (w_db w) q) (account (w_db w))"
  proof
    fix k
    show "account (w_db w') k = charge actual (claims (w_db w) q) (account (w_db w)) k"
    proof (cases "counter_for (w_db w) k")
      case None
      then have "counter_for (w_db w') k = None"
        unfolding db counter_for_None
        by (auto simp: close_request_def closing.close_counter_key [OF settle])
      then show ?thesis using None by (simp add: account_def charge_def)
    next
      case (Some c)
      from closing.close_request_effect [OF settle ok Some, of now q] obtain c' where
        "counter_for (w_db w') k = Some c'"
        "cc_ReservedMicroUsd c' = cc_ReservedMicroUsd c - request_share (w_db w) q k"
        "cc_SettledMicroUsd c' = cc_SettledMicroUsd c + (if outstanding_on (w_db w) q k = [] then 0 else actual)"
        unfolding db by blast
      then show ?thesis
        using Some request_share_none [of "w_db w" q k] by (simp add: account_def charge_def claims_def)
    qed
  qed
qed

section \<open>Properties\<close>

text \<open>
  C7: \<^verbatim>\<open>RecordSuccess\<close> is all or nothing. An error leaves the database, the event stream and the
  analytics sink as they were. A success adds exactly one log, one usage record and one cost
  record that belong together; the token counts are the input's, the cost is the calculator's at
  the price in force, no reservation of the request stays outstanding, and the event, when the
  publisher takes it, carries the recorded cost.
\<close>

theorem record_success_atomic:
  assumes "RecordSuccess s i E w = (res, w')"
  shows "case res of
      Inl e \<Rightarrow> w_db w' = w_db w \<and> sinks w' = sinks w
    | Inr r \<Rightarrow> records_of (w_db w') = records_of (add_records r (w_db w)) \<and>
        result_ok (w_db w) i r \<and>
        ur_PromptTokens (sr_UsageRecord r) = si_PromptTokens i \<and>
        ur_CompletionTokens (sr_UsageRecord r) = si_CompletionTokens i \<and>
        ur_TotalTokens (sr_UsageRecord r) = si_PromptTokens i + si_CompletionTokens i \<and>
        filter (is_outstanding (si_RequestID i)) (cost_reservations (w_db w')) = [] \<and>
        w_events w' \<in> {w_events w, w_events w @ [recorded_event i r]} \<and>
        ue_TotalCostMicroUSD (recorded_event i r) = cr_TotalCostMicro (sr_CostRecord r)"
proof (cases res)
  case (Inl e)
  then show ?thesis using RecordSuccess_Inl assms by auto
next
  case (Inr r)
  obtain w2 where tx: "record_success_tx SettleTx i E (tick w) = (Inr r, w2)" and db: "w_db w' = w_db w2"
    and valid: "validateSuccessInput i = Inr ()" and ev: "w_events w' \<in> {w_events w2, w_events w2 @ [recorded_event i r]}"
    using assms unfolding Inr by (rule RecordSuccess_Inr)
  have "w_events w2 = w_events w" using silentD [OF settled.tx_silent tx] by (simp add: sinks_def)
  moreover obtain w1 where "result_ok (w_db w) i r"
    "ur_PromptTokens (sr_UsageRecord r) = si_PromptTokens i" "ur_CompletionTokens (sr_UsageRecord r) = si_CompletionTokens i"
    "ur_TotalTokens (sr_UsageRecord r) = si_PromptTokens i + si_CompletionTokens i"
    and settle: "SettleTx (si_RequestID i) (cr_TotalCostMicro (sr_CostRecord r)) (rl_CompletedAt (sr_RequestLog r)) E w1 = (Inr (), w2)"
    using tx by (rule record_success_tx_Inr) (simp add: validated_tokens [OF valid])
  moreover have "filter (is_outstanding (si_RequestID i)) (cost_reservations (w_db w2)) = []"
    unfolding SettleTx_Inr(3) [OF settle]
    by (rule closing.close_request_none_outstanding [OF closing_settle [OF SettleTx_Inr(2) [OF settle]]])
  ultimately show ?thesis
    using settled.tx_records [OF tx] ev by (simp add: Inr db recorded_event_def)
qed

definition demo_metering :: metering_service where
  "demo_metering = \<lparr>ms_publisher = True, ms_analytics = True\<rparr>"

definition demo_success :: RecordSuccessInput where
  "demo_success = \<lparr>si_RequestID = 77, si_OrgID = 1, si_APIKeyID = 2, si_ProviderID = 3, si_ModelID = 4,
     si_RoutePolicyID = None, si_Method = ''POST'', si_Path = ''/v1/chat/completions'', si_RequestModel = ''m'',
     si_Status = [], si_StatusCode = 200, si_RequestHash = ''h'', si_ResponseHash = [], si_LatencyMS = 12,
     si_ProviderLatencyMS = Some 10, si_Metadata = Some (RawValid (JObj [])), si_ProviderUsageJSON = RawEmpty,
     si_PromptTokens = 400, si_CompletionTokens = 50, si_InputPriceMicroUSDPer1KTokens = 0,
     si_OutputPriceMicroUSDPer1KTokens = 0, si_StartedAt = zero_time, si_CompletedAt = zero_time\<rparr>"

definition demo_calculation :: CostCalculation where
  "demo_calculation = \<lparr>co_Currency = ''USD'', co_InputCostMicro = 60, co_OutputCostMicro = 30,
     co_TotalCostMicro = 90, co_PricingSnapshot = \<lparr>sn_InputPrice = 150, sn_OutputPrice = 600,
       sn_RoundingMode = ''truncate_to_micro_usd''\<rparr>\<rparr>"

lemma demo_success_valid: "validateSuccessInput demo_success = Inr ()"
  by (simp add: validateSuccessInput_Inr demo_success_def uuid_Nil_def max_int32_def wrap64_def)

lemma demo_can_record: "can_record (w_db demo_reserved) demo_success"
  by (simp add: can_record_def demo_reserved_def demo_loop_run demo_defs demo_success_def org_exists_def
      fk_api_key_def fk_provider_def fk_model_def fk_route_policy_def)

lemma demo_price: "price_in_force (w_db demo_reserved) 1 4 = Inr demo_version"
  "Calculate (price_input demo_success demo_version) = Inr demo_calculation"
  "si_OrgID demo_success = 1" "si_ModelID demo_success = 4"
  by (simp_all add: price_in_force_def demo_reserved_def demo_loop_run demo_defs active_version_def
      Calculate_Inr price_input_def demo_success_def demo_calculation_def valid_input_def input_cost_def
      output_cost_def max_int64_def)

lemma demo_env_ok: "started_before demo_env demo_success" "fresh_uuids demo_env (w_db demo_reserved)"
  by (simp_all add: started_before_def demo_success_def demo_env_def nonZeroTime_def time_IsZero_def
      time_second_def fresh_uuids_def demo_reserved_def demo_loop_run demo_db_def empty_db_def)

lemma demo_books: "books_ok demo_db" "books_ok (w_db demo_reserved)"
  by (simp_all add: books_ok_def demo_reserved_def demo_loop_run demo_db_def empty_db_def)

lemma demo_success_run:
  obtains r w' where "RecordSuccess demo_metering demo_success demo_env demo_reserved = (Inr r, w')"
proof -
  have "json_column (si_Metadata demo_success) = Inr (Some (JObj []))"
    "json_column (rawMessagePtr (si_ProviderUsageJSON demo_success)) = Inr None"
    by (simp_all add: demo_success_def rawMessagePtr_def)
  moreover have "list_all (\<lambda>k. cc_SettledMicroUsd k + co_TotalCostMicro demo_calculation \<le> max_int64)
      (cost_limit_counters (w_db demo_reserved))"
    by (simp add: demo_reserved_def demo_loop_run demo_counter_def demo_calculation_def max_int64_def)
  ultimately show thesis
    using that RecordSuccess_total [OF healthy_demo demo_env_ok demo_success_valid demo_can_record _ _
        _ demo_price(2) demo_books(2) demo_reserved_ledger] demo_price(1,3,4) by metis
qed

theorem record_success_atomic_witness:
  "\<exists>r w'. RecordSuccess demo_metering demo_success demo_env demo_reserved = (Inr r, w') \<and>
     ur_TotalTokens (sr_UsageRecord r) = 450 \<and> cr_TotalCostMicro (sr_CostRecord r) = 90 \<and>
     filter (is_outstanding 77) (cost_reservations (w_db w')) = []"
proof -
  obtain r w' where run: "RecordSuccess demo_metering demo_success demo_env demo_reserved = (Inr r, w')"
    by (rule demo_success_run)
  have "si_RequestID demo_success = 77" "si_PromptTokens demo_success + si_CompletionTokens demo_success = 450"
    "co_TotalCostMicro demo_calculation = 90"
    by (simp_all add: demo_success_def demo_calculation_def)
  then show ?thesis
    using record_success_atomic [OF run] run demo_price by (auto simp: result_ok_def)
qed

text \<open>
  C13: Recording a success refines charging an account: seen through the accounts and claims, the
  transaction is exactly one charge of the recorded cost to every account the request had
  reserved on, and nothing else; the request has no claims left.
\<close>

theorem record_success_refines_charge:
  assumes "RecordSuccess s i E w = (Inr r, w')" and "ledger_ok (w_db w)"
  shows "account (w_db w') =
      charge (cr_TotalCostMicro (sr_CostRecord r)) (claims (w_db w) (si_RequestID i)) (account (w_db w)) \<and>
    claims (w_db w') (si_RequestID i) = (\<lambda>_. None)"
proof -
  obtain w2 where tx: "record_success_tx SettleTx i E (tick w) = (Inr r, w2)" and db: "w_db w' = w_db w2"
    using assms(1) by (rule RecordSuccess_Inr)
  obtain w1 where "w_db w1 = add_records r (w_db w)" and
    "SettleTx (si_RequestID i) (cr_TotalCostMicro (sr_CostRecord r)) (rl_CompletedAt (sr_RequestLog r)) E w1 = (Inr (), w2)"
    using tx by (rule record_success_tx_Inr) simp
  then show ?thesis using SettleTx_charges assms(2) db by auto
qed

theorem record_success_refines_charge_witness:
  "\<exists>r w'. RecordSuccess demo_metering demo_success demo_env demo_reserved = (Inr r, w') \<and>
     account (w_db w') = charge (cr_TotalCostMicro (sr_CostRecord r))
       (claims (w_db demo_reserved) (si_RequestID demo_success)) (account (w_db demo_reserved))"
proof -
  obtain r w' where run: "RecordSuccess demo_metering demo_success demo_env demo_reserved = (Inr r, w')"
    by (rule demo_success_run)
  then show ?thesis using record_success_refines_charge [OF run demo_reserved_ledger] by blast
qed

text \<open>
  Whatever reservations, settlements, releases and records interleave, and whatever fails on
  the way, the ledger and the books stay consistent: no request is logged, metered or charged
  twice, every cost record belongs to exactly one usage record and that to one request log.
\<close>

theorem books_invariant:
  assumes "metering_reachable db0 db" and "ledger_ok db0" and "books_ok db0"
  shows "ledger_ok db \<and> books_ok db"
  using assms by (induction rule: metering_reachable.induct) (use metering_step_ok in blast)+

theorem books_invariant_witness:
  "\<exists>db. metering_reachable demo_db db \<and> length (cost_records db) = 1 \<and> ledger_ok db \<and> books_ok db"
proof -
  obtain r w' where run: "RecordSuccess demo_metering demo_success demo_env demo_reserved = (Inr r, w')"
    by (rule demo_success_run)
  obtain w2 where "record_success_tx SettleTx demo_success demo_env (tick demo_reserved) = (Inr r, w2)"
    and "w_db w' = w_db w2"
    using run by (rule RecordSuccess_Inr)
  then have one: "length (cost_records (w_db w')) = 1"
    using settled.tx_records by (fastforce simp: records_of_def add_records_def demo_reserved_def demo_loop_run
        demo_db_def empty_db_def)
  have "metering_step demo_db (w_db demo_reserved)"
    using metering_step.cost [OF cost_step.reserve [OF demo_reserve_run]] by simp
  then have "metering_reachable demo_db (w_db w')"
    using metering_reachable.start metering_reachable.step metering_step.success [OF run] by metis
  then show ?thesis using books_invariant [OF _ demo_ledger(1) demo_books(1)] one by blast
qed

text \<open>
  C15: Recording never gets stuck: for a validated input whose rows exist, with a price in force,
  counters with room and a working database, \<^verbatim>\<open>RecordSuccess\<close> returns a result, whatever the event
  and analytics sinks do, and the result carries the calculated cost.
\<close>

theorem record_success_returns:
  assumes "healthy E" "started_before E i" "fresh_uuids E (w_db w)"
    and "validateSuccessInput i = Inr ()" "can_record (w_db w) i"
    and "json_column (si_Metadata i) = Inr metadata"
    and "json_column (rawMessagePtr (si_ProviderUsageJSON i)) = Inr providerUsage"
    and "price_in_force (w_db w) (si_OrgID i) (si_ModelID i) = Inr v" "Calculate (price_input i v) = Inr c"
    and "books_ok (w_db w)" "ledger_ok (w_db w)"
    and "list_all (\<lambda>k. cc_SettledMicroUsd k + co_TotalCostMicro c \<le> max_int64) (cost_limit_counters (w_db w))"
  shows "\<exists>r w'. RecordSuccess s i E w = (Inr r, w') \<and> cr_TotalCostMicro (sr_CostRecord r) = co_TotalCostMicro c"
proof -
  obtain r w' where run: "RecordSuccess s i E w = (Inr r, w')"
    using RecordSuccess_total [OF assms] by blast
  obtain w2 where "record_success_tx SettleTx i E (tick w) = (Inr r, w2)"
    using run by (rule RecordSuccess_Inr)
  then have "result_ok (w_db w) i r" by (rule record_success_tx_Inr) simp
  then show ?thesis using run assms(8,9) by (auto simp: result_ok_def)
qed

theorem record_success_returns_witness:
  "\<exists>r w'. RecordSuccess demo_metering demo_success demo_env demo_reserved = (Inr r, w') \<and>
     cr_TotalCostMicro (sr_CostRecord r) = 90"
proof -
  have "json_column (si_Metadata demo_success) = Inr (Some (JObj []))"
    "json_column (rawMessagePtr (si_ProviderUsageJSON demo_success)) = Inr None"
    by (simp_all add: demo_success_def rawMessagePtr_def)
  moreover have "list_all (\<lambda>k. cc_SettledMicroUsd k + co_TotalCostMicro demo_calculation \<le> max_int64)
      (cost_limit_counters (w_db demo_reserved))" and total: "co_TotalCostMicro demo_calculation = 90"
    by (simp_all add: demo_reserved_def demo_loop_run demo_counter_def demo_calculation_def max_int64_def)
  ultimately show ?thesis
    using record_success_returns [OF healthy_demo demo_env_ok demo_success_valid demo_can_record _ _
        _ demo_price(2) demo_books(2) demo_reserved_ledger] demo_price(1,3,4) by metis
qed

text \<open>
  Requests that fail or are answered from a cache cost nothing: \<^verbatim>\<open>RecordFailure\<close> and
  \<^verbatim>\<open>RecordCacheHit\<close> add at most the request log, leave usage, cost, counters and reservations
  alone, and only a request blocked by a budget is announced, with cost zero.
\<close>

theorem records_without_cost:
  assumes "RecordFailure s f E w = (res, w')" and "RecordCacheHit s h E v = (hit, v')"
  shows "(case res of
      Inl e \<Rightarrow> w_db w' = w_db w \<and> sinks w' = sinks w
    | Inr l \<Rightarrow> w_db w' = (w_db w)\<lparr>request_logs := request_logs (w_db w) @ [l]\<rparr> \<and> rl_ID l = fi_RequestID f \<and>
        rl_Status l = fi_Status f \<and> rl_ErrorCode l = textValue (fi_ErrorCode f) \<and>
        (w_events w' = w_events w \<or> w_events w' = w_events w @ [blocked_event f l] \<and>
          fi_Status f = ''budget_blocked'' \<and> fi_ErrorCode f = ''budget_exceeded'')) \<and>
    (case hit of
      Inl e \<Rightarrow> w_db v' = w_db v \<and> sinks v' = sinks v
    | Inr l \<Rightarrow> w_db v' = (w_db v)\<lparr>request_logs := request_logs (w_db v) @ [l]\<rparr> \<and> rl_ID l = hi_RequestID h \<and>
        rl_Status l = successStatus (hi_Status h) \<and> w_events v' = w_events v)"
proof
  show "case res of
      Inl e \<Rightarrow> w_db w' = w_db w \<and> sinks w' = sinks w
    | Inr l \<Rightarrow> w_db w' = (w_db w)\<lparr>request_logs := request_logs (w_db w) @ [l]\<rparr> \<and> rl_ID l = fi_RequestID f \<and>
        rl_Status l = fi_Status f \<and> rl_ErrorCode l = textValue (fi_ErrorCode f) \<and>
        (w_events w' = w_events w \<or> w_events w' = w_events w @ [blocked_event f l] \<and>
          fi_Status f = ''budget_blocked'' \<and> fi_ErrorCode f = ''budget_exceeded'')"
  proof (cases "validateFailureInput f")
    case (Inl e)
    then show ?thesis using assms(1) by (auto simp: RecordFailure_def act_simps)
  next
    case (Inr u)
    show ?thesis
    proof (cases "json_column (fi_Metadata f)")
      case (Inl e)
      then show ?thesis using assms(1) Inr by (auto simp: RecordFailure_def act_simps)
    next
      case (Inr metadata)
      let ?l = "failure_log f metadata (nonZeroTime (fi_StartedAt f) (env_time E (w_step w)))
        (nonZeroTime (fi_CompletedAt f) (env_time E (Suc (w_step w))))"
      have "log_then s ?l (fi_Status f = ''budget_blocked'' \<and> fi_ErrorCode f = ''budget_exceeded'') (blocked_event f ?l)
          (log_analytics (fi_OrgID f) (fi_APIKeyID f) (fi_ProviderID f) (fi_ModelID f) ?l) E (tick (tick w)) = (res, w')"
        using assms(1) Inr \<open>validateFailureInput f = Inr u\<close>
        by (simp add: RecordFailure_def lift_apply clock_now_apply andThen_apply [of "lift _"]
            andThen_apply [of clock_now] log_then_eq split del: if_split)
      from log_then_cases [OF this] show ?thesis
        by (cases res) (auto simp: failure_log_def)
    qed
  qed
  show "case hit of
      Inl e \<Rightarrow> w_db v' = w_db v \<and> sinks v' = sinks v
    | Inr l \<Rightarrow> w_db v' = (w_db v)\<lparr>request_logs := request_logs (w_db v) @ [l]\<rparr> \<and> rl_ID l = hi_RequestID h \<and>
        rl_Status l = successStatus (hi_Status h) \<and> w_events v' = w_events v"
  proof (cases "validateCacheHitInput h")
    case (Inl e)
    then show ?thesis using assms(2) by (auto simp: RecordCacheHit_def act_simps)
  next
    case (Inr u)
    show ?thesis
    proof (cases "json_column (hi_Metadata h)")
      case (Inl e)
      then show ?thesis using assms(2) Inr by (auto simp: RecordCacheHit_def act_simps)
    next
      case (Inr metadata)
      let ?l = "cache_hit_log h metadata (nonZeroTime (hi_StartedAt h) (env_time E (w_step v)))
        (nonZeroTime (hi_CompletedAt h) (env_time E (Suc (w_step v))))"
      have "log_then s ?l False undefined (log_analytics (hi_OrgID h) (Some (hi_APIKeyID h))
          (Some (hi_ProviderID h)) (Some (hi_ModelID h)) ?l) E (tick (tick v)) = (hit, v')"
        using assms(2) Inr \<open>validateCacheHitInput h = Inr u\<close>
        by (simp add: RecordCacheHit_def lift_apply clock_now_apply andThen_apply [of "lift _"]
            andThen_apply [of clock_now] log_then_eq(2) [where e = undefined])
      from log_then_cases [OF this] show ?thesis
        by (cases hit) (auto simp: cache_hit_log_def)
    qed
  qed
qed

definition demo_failure :: RecordFailureInput where
  "demo_failure = \<lparr>fi_RequestID = 78, fi_OrgID = 1, fi_APIKeyID = Some 2, fi_ProviderID = None, fi_ModelID = None,
     fi_RoutePolicyID = None, fi_Method = ''POST'', fi_Path = ''/v1/chat/completions'', fi_RequestModel = ''m'',
     fi_Status = ''budget_blocked'', fi_StatusCode = 402, fi_ErrorCode = ''budget_exceeded'', fi_RequestHash = [],
     fi_ResponseHash = [], fi_LatencyMS = 1, fi_ProviderLatencyMS = None, fi_Metadata = None,
     fi_StartedAt = zero_time, fi_CompletedAt = zero_time\<rparr>"

definition demo_hit :: RecordCacheHitInput where
  "demo_hit = \<lparr>hi_RequestID = 79, hi_OrgID = 1, hi_APIKeyID = 2, hi_ProviderID = 3, hi_ModelID = 4,
     hi_RoutePolicyID = None, hi_Method = ''POST'', hi_Path = ''/v1/chat/completions'', hi_RequestModel = ''m'',
     hi_Status = [], hi_StatusCode = 200, hi_RequestHash = [], hi_ResponseHash = [], hi_LatencyMS = 1,
     hi_ProviderLatencyMS = None, hi_Metadata = None, hi_StartedAt = zero_time, hi_CompletedAt = zero_time\<rparr>"

lemma demo_log_runs:
  "is_ok (fst (RecordFailure demo_metering demo_failure demo_env (world_of demo_db)))"
  "is_ok (fst (RecordCacheHit demo_metering demo_hit demo_env (world_of demo_db)))"
  by code_simp+

theorem records_without_cost_witness:
  "\<exists>l w' h v'. RecordFailure demo_metering demo_failure demo_env (world_of demo_db) = (Inr l, w') \<and>
     RecordCacheHit demo_metering demo_hit demo_env (world_of demo_db) = (Inr h, v') \<and>
     w_db w' = demo_db\<lparr>request_logs := [l]\<rparr> \<and> w_db v' = demo_db\<lparr>request_logs := [h]\<rparr>"
proof -
  obtain l w' h v' where
    runs: "RecordFailure demo_metering demo_failure demo_env (world_of demo_db) = (Inr l, w')"
      "RecordCacheHit demo_metering demo_hit demo_env (world_of demo_db) = (Inr h, v')"
    using demo_log_runs by (metis is_ok.elims(2) prod.collapse)
  moreover have "request_logs demo_db = []" by (simp add: demo_db_def empty_db_def)
  ultimately show ?thesis using records_without_cost [OF runs] by simp
qed

end
