(* ===== verification/Routing.thy ===== *)
theory Routing
  imports Costing
begin

text \<open>
  \<^verbatim>\<open>internal/routing/resolver.go\<close>: route policies and the choice of targets for a requested
  model. Latencies are exact rationals where PostgreSQL computes doubles.
\<close>

section \<open>Data\<close>

record TargetParams =
  tp_ProviderID :: uuid
  tp_ModelID :: uuid
  tp_Priority :: int
  tp_Weight :: int

record CreateRoutePolicyParams =
  crp_OrgID :: uuid
  crp_Name :: string
  crp_MatchModel :: string
  crp_Strategy :: string
  crp_Config :: raw_json
  crp_Targets :: "TargetParams list"

record ResolveParams =
  rq_OrgID :: uuid
  rq_RequestedModel :: string
  rq_EstimatedPromptTokens :: int
  rq_EstimatedMaxTokens :: int

record ResolveResult =
  rz_RoutePolicy :: RoutePolicy
  rz_Provider :: Provider
  rz_Model :: Model

record ResolvedTarget =
  rv_RouteTarget :: RouteTarget
  rv_Provider :: Provider
  rv_Model :: Model
  rv_EstimatedCostMicroUSD :: int
  rv_HasLatencyStats :: bool
  rv_P50LatencyMS :: rat
  rv_P95LatencyMS :: rat

record ResolveTargetsResult =
  tr_RoutePolicy :: RoutePolicy
  tr_Targets :: "ResolvedTarget list"

record PolicyConfig =
  pc_MaxEstimatedCostMicroUSD :: "int option"
  pc_FallbackToPriority :: "bool option"
  pc_LatencyWindowMinutes :: "int option"

section \<open>Policy configuration\<close>

text \<open>
  \<^verbatim>\<open>json.Unmarshal\<close> into the struct: keys match case-insensitively (ASCII), a later key overrides
  an earlier one, \<^verbatim>\<open>null\<close> clears a pointer, unknown keys are skipped, a value of the wrong type is
  an error.
\<close>

fun decode_int64 :: "json \<Rightarrow> int option outcome" where
  "decode_int64 JNull = Inr None"
| "decode_int64 (JInt n) = (if in_int64 n then Inr (Some n) else Inl ErrJSON)"
| "decode_int64 _ = Inl ErrJSON"

fun decode_bool :: "json \<Rightarrow> bool option outcome" where
  "decode_bool JNull = Inr None"
| "decode_bool (JBool b) = Inr (Some b)"
| "decode_bool _ = Inl ErrJSON"

fun decode_fields :: "PolicyConfig \<Rightarrow> (string \<times> json) list \<Rightarrow> PolicyConfig outcome" where
  "decode_fields cfg [] = Inr cfg"
| "decode_fields cfg ((k, v) # members) =
    (if ToLower k = ''max_estimated_cost_micro_usd'' then
       (case decode_int64 v of Inl e \<Rightarrow> Inl e
        | Inr x \<Rightarrow> decode_fields (cfg\<lparr>pc_MaxEstimatedCostMicroUSD := x\<rparr>) members)
     else if ToLower k = ''fallback_to_priority'' then
       (case decode_bool v of Inl e \<Rightarrow> Inl e
        | Inr x \<Rightarrow> decode_fields (cfg\<lparr>pc_FallbackToPriority := x\<rparr>) members)
     else if ToLower k = ''latency_window_minutes'' then
       (case decode_int64 v of Inl e \<Rightarrow> Inl e
        | Inr x \<Rightarrow> decode_fields (cfg\<lparr>pc_LatencyWindowMinutes := x\<rparr>) members)
     else decode_fields cfg members)"

definition empty_config :: PolicyConfig where
  "empty_config = \<lparr>pc_MaxEstimatedCostMicroUSD = None, pc_FallbackToPriority = None, pc_LatencyWindowMinutes = None\<rparr>"

definition check_config :: "PolicyConfig \<Rightarrow> PolicyConfig outcome" where
  "check_config cfg =
    (if (case pc_MaxEstimatedCostMicroUSD cfg of None \<Rightarrow> False | Some m \<Rightarrow> m < 0)
     then Inl (ValidationError ''max_estimated_cost_micro_usd must be non-negative'')
     else if (case pc_LatencyWindowMinutes cfg of None \<Rightarrow> False | Some m \<Rightarrow> m \<le> 0)
     then Inl (ValidationError ''latency_window_minutes must be greater than zero'')
     else Inr cfg)"

fun parsePolicyConfig :: "raw_json \<Rightarrow> PolicyConfig outcome" where
  "parsePolicyConfig RawEmpty = Inr empty_config"
| "parsePolicyConfig RawInvalid = Inl ErrJSON"
| "parsePolicyConfig (RawValid JNull) = check_config empty_config"
| "parsePolicyConfig (RawValid (JObj members)) =
     (case decode_fields empty_config members of Inl e \<Rightarrow> Inl e | Inr cfg \<Rightarrow> check_config cfg)"
| "parsePolicyConfig (RawValid _) = Inl ErrJSON"

definition fallbackToPriority :: "PolicyConfig \<Rightarrow> bool" where
  "fallbackToPriority c = (case pc_FallbackToPriority c of None \<Rightarrow> True | Some b \<Rightarrow> b)"

definition latencyWindowMinutes :: "PolicyConfig \<Rightarrow> int" where
  "latencyWindowMinutes c = (case pc_LatencyWindowMinutes c of None \<Rightarrow> 15 | Some m \<Rightarrow> m)"

fun normalizePolicyConfig :: "raw_json \<Rightarrow> raw_json outcome" where
  "normalizePolicyConfig RawEmpty = Inr (RawValid (JObj []))"
| "normalizePolicyConfig RawInvalid = Inl (ValidationError ''config must be valid JSON'')"
| "normalizePolicyConfig raw = (case parsePolicyConfig raw of Inl e \<Rightarrow> Inl e | Inr _ \<Rightarrow> Inr raw)"

section \<open>Creating a policy\<close>

definition validStrategy :: "string \<Rightarrow> bool" where
  "validStrategy s \<longleftrightarrow> s = ''single'' \<or> s = ''fallback'' \<or> s = ''lowest_cost'' \<or> s = ''lowest_latency''"

fun validate_targets :: "TargetParams list \<Rightarrow> unit outcome" where
  "validate_targets [] = Inr ()"
| "validate_targets (t # ts) =
    (if tp_ProviderID t = uuid_Nil then Inl (ValidationError ''target provider_id is required'')
     else if tp_ModelID t = uuid_Nil then Inl (ValidationError ''target model_id is required'')
     else if tp_Priority t \<le> 0 then Inl (ValidationError ''target priority must be greater than zero'')
     else if tp_Weight t \<le> 0 then Inl (ValidationError ''target weight must be greater than zero'')
     else validate_targets ts)"

definition validateCreateRoutePolicyParams :: "CreateRoutePolicyParams \<Rightarrow> unit outcome" where
  "validateCreateRoutePolicyParams p =
    (if crp_OrgID p = uuid_Nil then Inl (ValidationError ''org_id is required'')
     else if TrimSpace (crp_Name p) = [] then Inl (ValidationError ''name is required'')
     else if TrimSpace (crp_MatchModel p) = [] then Inl (ValidationError ''match_model is required'')
     else if \<not> validStrategy (crp_Strategy p)
     then Inl (ValidationError ''strategy must be single, fallback, lowest_cost or lowest_latency'')
     else if crp_Strategy p = ''single'' \<and> length (crp_Targets p) \<noteq> 1
     then Inl (ValidationError ''single strategy requires exactly one target'')
     else if crp_Strategy p = ''fallback'' \<and> length (crp_Targets p) < 2
     then Inl (ValidationError ''fallback strategy requires at least two targets'')
     else if crp_Strategy p = ''lowest_cost'' \<and> crp_Targets p = []
     then Inl (ValidationError ''lowest_cost strategy requires at least one target'')
     else if crp_Strategy p = ''lowest_latency'' \<and> crp_Targets p = []
     then Inl (ValidationError ''lowest_latency strategy requires at least one target'')
     else validate_targets (crp_Targets p))"

definition validateTargetBelongsToOrg :: "uuid \<Rightarrow> TargetParams \<Rightarrow> unit act" where
  "validateTargetBelongsToOrg orgID target =
    andThen (no_rows_as ErrRouteTargetNotFound (GetProvider orgID (tp_ProviderID target))) (\<lambda>provider.
    andThen (no_rows_as ErrRouteTargetNotFound (GetModel orgID (tp_ModelID target))) (\<lambda>model.
      if md_ProviderID model \<noteq> pr_ID provider then fail ErrRouteTargetNotFound
      else if pr_Status provider \<noteq> ''active'' then fail (ValidationError ''target provider must be active'')
      else if md_Status model \<noteq> ''active'' then fail (ValidationError ''target model must be active'')
      else ret ()))"

fun check_targets :: "uuid \<Rightarrow> TargetParams list \<Rightarrow> unit act" where
  "check_targets orgID [] = ret ()"
| "check_targets orgID (t # ts) = andThen (validateTargetBelongsToOrg orgID t) (\<lambda>_. check_targets orgID ts)"

fun create_targets :: "uuid \<Rightarrow> uuid \<Rightarrow> time \<Rightarrow> TargetParams list \<Rightarrow> unit act" where
  "create_targets orgID policyID now [] = ret ()"
| "create_targets orgID policyID now (t # ts) =
    andThen new_uuid (\<lambda>i.
    andThen (CreateRouteTarget \<lparr>rt_ID = i, rt_OrgID = orgID, rt_RoutePolicyID = policyID,
      rt_ProviderID = tp_ProviderID t, rt_ModelID = tp_ModelID t, rt_Priority = tp_Priority t,
      rt_Weight = tp_Weight t, rt_CreatedAt = now\<rparr>) (\<lambda>_.
    create_targets orgID policyID now ts))"

definition create_policy_tx :: "CreateRoutePolicyParams \<Rightarrow> time \<Rightarrow> RoutePolicy act" where
  "create_policy_tx p now =
    andThen (check_targets (crp_OrgID p) (crp_Targets p)) (\<lambda>_.
    andThen (lift (normalizePolicyConfig (crp_Config p))) (\<lambda>config.
    andThen new_uuid (\<lambda>i.
    andThen (CreateRoutePolicy_row \<lparr>rp_ID = i, rp_OrgID = crp_OrgID p, rp_Name = TrimSpace (crp_Name p),
      rp_MatchModel = TrimSpace (crp_MatchModel p), rp_Strategy = crp_Strategy p, rp_Status = ''active'',
      rp_CreatedAt = now, rp_UpdatedAt = now, rp_Config = config\<rparr>) (\<lambda>policy.
    andThen (create_targets (crp_OrgID p) (rp_ID policy) now (crp_Targets p)) (\<lambda>_.
    ret policy)))))"

definition CreateRoutePolicy :: "CreateRoutePolicyParams \<Rightarrow> RoutePolicy act" where
  "CreateRoutePolicy p =
    andThen (lift (validateCreateRoutePolicyParams p)) (\<lambda>_.
    andThen clock_now (\<lambda>now. ExecTx (create_policy_tx p now)))"

section \<open>Resolving\<close>

definition priority_less :: "ResolvedTarget \<Rightarrow> ResolvedTarget \<Rightarrow> bool" where
  "priority_less a b \<longleftrightarrow>
    (if rt_Priority (rv_RouteTarget a) \<noteq> rt_Priority (rv_RouteTarget b)
     then rt_Priority (rv_RouteTarget a) < rt_Priority (rv_RouteTarget b)
     else uuid_String (rt_ID (rv_RouteTarget a)) < uuid_String (rt_ID (rv_RouteTarget b)))"

definition lowest_cost_less :: "ResolvedTarget \<Rightarrow> ResolvedTarget \<Rightarrow> bool" where
  "lowest_cost_less a b \<longleftrightarrow>
    (if rv_EstimatedCostMicroUSD a \<noteq> rv_EstimatedCostMicroUSD b
     then rv_EstimatedCostMicroUSD a < rv_EstimatedCostMicroUSD b else priority_less a b)"

definition latency_less :: "ResolvedTarget \<Rightarrow> ResolvedTarget \<Rightarrow> bool" where
  "latency_less a b \<longleftrightarrow>
    (if rv_HasLatencyStats a \<noteq> rv_HasLatencyStats b then rv_HasLatencyStats a
     else if rv_HasLatencyStats a \<and> rv_HasLatencyStats b \<and> rv_P95LatencyMS a \<noteq> rv_P95LatencyMS b
     then rv_P95LatencyMS a < rv_P95LatencyMS b
     else if rv_HasLatencyStats a \<and> rv_HasLatencyStats b \<and> rv_P50LatencyMS a \<noteq> rv_P50LatencyMS b
     then rv_P50LatencyMS a < rv_P50LatencyMS b
     else priority_less a b)"

definition sortLowestCostTargets :: "ResolvedTarget list \<Rightarrow> ResolvedTarget list" where
  "sortLowestCostTargets = SliceStable lowest_cost_less"

definition sortLatencyTargets :: "ResolvedTarget list \<Rightarrow> ResolvedTarget list" where
  "sortLatencyTargets = SliceStable latency_less"

definition estimatedCostMicroUSD :: "Model \<Rightarrow> ResolveParams \<Rightarrow> int outcome" where
  "estimatedCostMicroUSD model params =
    (case Calculate \<lparr>ci_PromptTokens = max 0 (rq_EstimatedPromptTokens params),
        ci_CompletionTokens = max 0 (rq_EstimatedMaxTokens params),
        ci_InputPrice = md_InputPriceMicroUsdPer1kTokens model,
        ci_OutputPrice = md_OutputPriceMicroUsdPer1kTokens model\<rparr> of
      Inl e \<Rightarrow> Inl e | Inr c \<Rightarrow> Inr (co_TotalCostMicro c))"

fun estimate_targets :: "ResolveParams \<Rightarrow> ResolvedTarget list \<Rightarrow> ResolvedTarget list outcome" where
  "estimate_targets params [] = Inr []"
| "estimate_targets params (t # ts) =
    (case estimatedCostMicroUSD (rv_Model t) params of
       Inl e \<Rightarrow> Inl e
     | Inr cost \<Rightarrow> (case estimate_targets params ts of
         Inl e \<Rightarrow> Inl e
       | Inr ts' \<Rightarrow> Inr (t\<lparr>rv_EstimatedCostMicroUSD := cost\<rparr> # ts')))"

definition resolveLowestCostTargets :: "RoutePolicy \<Rightarrow> ResolveParams \<Rightarrow> ResolvedTarget list \<Rightarrow> ResolvedTarget list outcome" where
  "resolveLowestCostTargets policy params targets =
    (case parsePolicyConfig (rp_Config policy) of
       Inl e \<Rightarrow> Inl e
     | Inr cfg \<Rightarrow> (case estimate_targets params targets of
         Inl e \<Rightarrow> Inl e
       | Inr estimated \<Rightarrow>
          let sorted = sortLowestCostTargets estimated in
          (case pc_MaxEstimatedCostMicroUSD cfg of
             None \<Rightarrow> Inr sorted
           | Some m \<Rightarrow>
              let eligible = filter (\<lambda>t. rv_EstimatedCostMicroUSD t \<le> m) sorted in
              if eligible \<noteq> [] then Inr eligible
              else if fallbackToPriority cfg then Inr (SliceStable priority_less sorted)
              else Inl ErrRouteNotFound)))"

text \<open>The map of the statistics: a later row of the same pair overrides an earlier one.\<close>

fun stats_by_target :: "LatencyStatsRow list \<Rightarrow> uuid \<times> uuid \<rightharpoonup> LatencyStatsRow" where
  "stats_by_target [] = Map.empty"
| "stats_by_target (item # items) =
    (case (ls_ProviderID item, ls_ModelID item) of
       (Some p, Some m) \<Rightarrow> [(p, m) \<mapsto> item] ++ stats_by_target items
     | _ \<Rightarrow> stats_by_target items)"

definition with_stats :: "(uuid \<times> uuid \<rightharpoonup> LatencyStatsRow) \<Rightarrow> ResolvedTarget \<Rightarrow> ResolvedTarget" where
  "with_stats stats t =
    (case stats (pr_ID (rv_Provider t), md_ID (rv_Model t)) of
       None \<Rightarrow> t
     | Some s \<Rightarrow> if 0 < ls_RequestCount s
         then t\<lparr>rv_HasLatencyStats := True, rv_P50LatencyMS := ls_P50LatencyMs s, rv_P95LatencyMS := ls_P95LatencyMs s\<rparr>
         else t)"

text \<open>
  The start of the statistics window: the duration is a product of 64-bit nanoseconds, the
  instant is stored in microseconds.
\<close>

definition latency_from :: "time \<Rightarrow> int \<Rightarrow> time" where
  "latency_from to minutes = to + wrap64 (- minutes * 60000000000) div 1000"

definition resolveLowestLatencyTargets :: "RoutePolicy \<Rightarrow> ResolveParams \<Rightarrow> ResolvedTarget list \<Rightarrow> ResolvedTarget list act" where
  "resolveLowestLatencyTargets policy params targets =
    andThen (lift (parsePolicyConfig (rp_Config policy))) (\<lambda>cfg.
    andThen clock_now (\<lambda>to.
    andThen (ProviderModelLatencyStats (rq_OrgID params) (latency_from to (latencyWindowMinutes cfg)) to) (\<lambda>stats.
    ret (sortLatencyTargets (map (with_stats (stats_by_target stats)) targets)))))"

definition skips_unusable :: "RoutePolicy \<Rightarrow> bool" where
  "skips_unusable policy \<longleftrightarrow> rp_Strategy policy = ''lowest_cost'' \<or> rp_Strategy policy = ''lowest_latency''"

definition usable :: "Provider \<Rightarrow> Model \<Rightarrow> bool" where
  "usable provider model \<longleftrightarrow> pr_Status provider = ''active'' \<and> md_Status model = ''active'' \<and>
     md_ProviderID model = pr_ID provider"

fun resolve_loop :: "uuid \<Rightarrow> RoutePolicy \<Rightarrow> RouteTarget list \<Rightarrow> ResolvedTarget list act" where
  "resolve_loop orgID policy [] = ret []"
| "resolve_loop orgID policy (target # targets) =
    andThen (no_rows_as ErrRouteNotFound (GetProvider orgID (rt_ProviderID target))) (\<lambda>provider.
    andThen (no_rows_as ErrRouteNotFound (GetModel orgID (rt_ModelID target))) (\<lambda>model.
      if \<not> usable provider model then
        (if skips_unusable policy then resolve_loop orgID policy targets else fail ErrRouteNotFound)
      else andThen (resolve_loop orgID policy targets) (\<lambda>resolved.
        ret (\<lparr>rv_RouteTarget = target, rv_Provider = provider, rv_Model = model,
          rv_EstimatedCostMicroUSD = 0, rv_HasLatencyStats = False, rv_P50LatencyMS = 0,
          rv_P95LatencyMS = 0\<rparr> # resolved))))"

definition order_targets :: "RoutePolicy \<Rightarrow> ResolveParams \<Rightarrow> ResolvedTarget list \<Rightarrow> ResolvedTarget list act" where
  "order_targets policy params targets =
    (if rp_Strategy policy = ''lowest_cost'' then lift (resolveLowestCostTargets policy params targets)
     else if rp_Strategy policy = ''lowest_latency'' then resolveLowestLatencyTargets policy params targets
     else ret targets)"

definition ResolveTargets :: "ResolveParams \<Rightarrow> ResolveTargetsResult act" where
  "ResolveTargets params =
    (let requestedModel = TrimSpace (rq_RequestedModel params) in
     if rq_OrgID params = uuid_Nil \<or> requestedModel = [] then fail ErrRouteNotFound
     else
       andThen (no_rows_as ErrRouteNotFound (GetRoutePolicyByMatchModel (rq_OrgID params) requestedModel)) (\<lambda>policy.
       if \<not> validStrategy (rp_Strategy policy) then fail ErrRouteNotFound
       else andThen (ListRouteTargets (rq_OrgID params) (rp_ID policy)) (\<lambda>targets.
       if targets = [] then fail ErrRouteNotFound
       else andThen (resolve_loop (rq_OrgID params) policy targets) (\<lambda>resolved.
       andThen (order_targets policy params resolved) (\<lambda>ordered.
       if ordered = [] then fail ErrRouteNotFound
       else ret \<lparr>tr_RoutePolicy = policy, tr_Targets = ordered\<rparr>)))))"

definition Resolve :: "ResolveParams \<Rightarrow> ResolveResult act" where
  "Resolve params = andThen (ResolveTargets params) (\<lambda>result.
     case tr_Targets result of
       [] \<Rightarrow> fail ErrRouteNotFound
     | target # _ \<Rightarrow> ret \<lparr>rz_RoutePolicy = tr_RoutePolicy result, rz_Provider = rv_Provider target,
         rz_Model = rv_Model target\<rparr>)"

section \<open>The comparators\<close>

interpretation by_priority: comparator priority_less
  by unfold_locales (auto simp: priority_less_def split: if_splits)

interpretation by_cost: comparator lowest_cost_less
  by unfold_locales (auto simp: lowest_cost_less_def dest: by_priority.asym by_priority.neg_trans split: if_splits)

interpretation by_latency: comparator latency_less
  by unfold_locales (auto simp: latency_less_def dest: by_priority.asym by_priority.neg_trans split: if_splits)

section \<open>A reference for resolving\<close>

text \<open>
  What resolving should return, as a function of the tables and of the instant the latency window
  ends at: the usable targets of the active policy for the model, in the order of its strategy.
\<close>

definition provider_row :: "database \<Rightarrow> uuid \<Rightarrow> uuid \<Rightarrow> Provider outcome" where
  "provider_row db org i = first_row (filter (\<lambda>r. pr_OrgID r = org \<and> pr_ID r = i) (providers db))"

definition model_row :: "database \<Rightarrow> uuid \<Rightarrow> uuid \<Rightarrow> Model outcome" where
  "model_row db org i = first_row (filter (\<lambda>r. md_OrgID r = org \<and> md_ID r = i) (models db))"

definition resolved_of :: "database \<Rightarrow> uuid \<Rightarrow> RouteTarget \<Rightarrow> ResolvedTarget option" where
  "resolved_of db org t =
    (case (provider_row db org (rt_ProviderID t), model_row db org (rt_ModelID t)) of
       (Inr p, Inr m) \<Rightarrow> Some \<lparr>rv_RouteTarget = t, rv_Provider = p, rv_Model = m, rv_EstimatedCostMicroUSD = 0,
         rv_HasLatencyStats = False, rv_P50LatencyMS = 0, rv_P95LatencyMS = 0\<rparr>
     | _ \<Rightarrow> None)"

definition is_usable :: "ResolvedTarget \<Rightarrow> bool" where
  "is_usable t \<longleftrightarrow> usable (rv_Provider t) (rv_Model t)"

definition usable_targets :: "database \<Rightarrow> uuid \<Rightarrow> RoutePolicy \<Rightarrow> RouteTarget list \<Rightarrow> ResolvedTarget list option" where
  "usable_targets db org policy ts =
    (let rows = map (resolved_of db org) ts in
     if None \<in> set rows then None
     else if skips_unusable policy then Some (filter is_usable (map the rows))
     else if list_all is_usable (map the rows) then Some (map the rows) else None)"

definition policy_row :: "database \<Rightarrow> uuid \<Rightarrow> string \<Rightarrow> RoutePolicy outcome" where
  "policy_row db org m = first_row (filter (\<lambda>r. rp_OrgID r = org \<and> rp_MatchModel r = m \<and> rp_Status r = ''active'')
     (route_policies db))"

definition targets_of :: "database \<Rightarrow> uuid \<Rightarrow> RoutePolicy \<Rightarrow> RouteTarget list" where
  "targets_of db org policy = SliceStable target_order
     (filter (\<lambda>r. rt_OrgID r = org \<and> rt_RoutePolicyID r = rp_ID policy) (route_targets db))"

lemma row_reads [act_simps]:
  "GetProvider org i = db_read (\<lambda>db. provider_row db org i)"
  "GetModel org i = db_read (\<lambda>db. model_row db org i)"
  "GetRoutePolicyByMatchModel org m = db_read (\<lambda>db. policy_row db org m)"
  "ListRouteTargets org (rp_ID policy) = db_read (\<lambda>db. Inr (targets_of db org policy))"
  by (simp_all add: GetProvider_def GetModel_def GetRoutePolicyByMatchModel_def ListRouteTargets_def
      provider_row_def model_row_def policy_row_def targets_of_def)

lemma first_row_Inl: "first_row rows = Inl e \<Longrightarrow> e = NoRows"
  by (cases rows) auto

lemma row_errors: "provider_row db org i = Inl e \<Longrightarrow> e = NoRows" "model_row db org i = Inl e \<Longrightarrow> e = NoRows"
  "policy_row db org m = Inl e \<Longrightarrow> e = NoRows"
  by (auto simp: provider_row_def model_row_def policy_row_def dest: first_row_Inl)

lemma usable_targets_Cons:
  "usable_targets db org policy (t # ts) =
    (case resolved_of db org t of
       None \<Rightarrow> None
     | Some r \<Rightarrow> (case usable_targets db org policy ts of
         None \<Rightarrow> None
       | Some rs \<Rightarrow> if is_usable r then Some (r # rs) else if skips_unusable policy then Some rs else None))"
  by (auto simp: usable_targets_def Let_def split: option.splits)

lemma usable_targets_Nil [simp]: "usable_targets db org policy [] = Some []"
  by (simp add: usable_targets_def)

text \<open>A call that answers with a given value unless the database fails.\<close>

definition answers :: "environment \<Rightarrow> 'a outcome \<Rightarrow> 'a outcome \<times> world \<Rightarrow> world \<Rightarrow> bool" where
  "answers E spec res w \<longleftrightarrow> w_db (snd res) = w_db w \<and>
     (fst res = spec \<or> fst res = Inl DbUnavailable \<and> \<not> healthy E)"

lemma answers_read: "env_fault E (w_step w) \<Longrightarrow> answers E spec (Inl DbUnavailable, tick w) w"
  by (auto simp: answers_def healthy_def)

lemma answers_db: "answers E spec res w \<Longrightarrow> w_db w = w_db v \<Longrightarrow> answers E spec res v"
  by (simp add: answers_def)

lemma resolve_loop_eval:
  "answers E (case usable_targets (w_db w) org policy ts of None \<Rightarrow> Inl ErrRouteNotFound | Some rs \<Rightarrow> Inr rs)
     (resolve_loop org policy ts E w) w"
proof (induction ts arbitrary: w)
  case Nil
  then show ?case by (simp add: act_simps answers_def)
next
  case (Cons t ts)
  let ?db = "w_db w"
  obtain res w' where loop: "resolve_loop org policy ts E (tick (tick w)) = (res, w')" and w': "w_db w' = ?db"
    and res: "res = (case usable_targets ?db org policy ts of None \<Rightarrow> Inl ErrRouteNotFound | Some rs \<Rightarrow> Inr rs) \<or>
      res = Inl DbUnavailable \<and> \<not> healthy E"
    using Cons.IH [of "tick (tick w)"] by (cases "resolve_loop org policy ts E (tick (tick w))") (auto simp: answers_def)
  consider (no_provider) "provider_row ?db org (rt_ProviderID t) = Inl NoRows"
    | (no_model) p where "provider_row ?db org (rt_ProviderID t) = Inr p" "model_row ?db org (rt_ModelID t) = Inl NoRows"
    | (rows) p m where "provider_row ?db org (rt_ProviderID t) = Inr p" "model_row ?db org (rt_ModelID t) = Inr m"
    using row_errors by (metis sum.exhaust)
  then show ?case
  proof cases
    case no_provider
    then show ?thesis by (auto simp: act_simps usable_targets_Cons resolved_of_def answers_def healthy_def)
  next
    case no_model
    then show ?thesis by (auto simp: act_simps usable_targets_Cons resolved_of_def answers_def healthy_def)
  next
    case rows
    then show ?thesis
      using loop w' res
      by (auto simp: act_simps usable_targets_Cons resolved_of_def is_usable_def answers_def healthy_def
          split: option.splits)
  qed
qed

definition latency_rows :: "database \<Rightarrow> uuid \<Rightarrow> time \<Rightarrow> time \<Rightarrow> LatencyStatsRow list" where
  "latency_rows db org s e =
    (let rows = filter (\<lambda>r. rl_OrgID r = org \<and> in_window s e (rl_CompletedAt r) \<and>
           rl_ProviderID r \<noteq> None \<and> rl_ModelID r \<noteq> None \<and>
           rl_Status r \<in> {''success'', ''budget_warned''}) (request_logs db);
         keys = remdups (map (\<lambda>r. (rl_ProviderID r, rl_ModelID r)) rows)
     in map (\<lambda>(p, m).
          let ls = map rl_LatencyMs (filter (\<lambda>r. rl_ProviderID r = p \<and> rl_ModelID r = m) rows)
          in \<lparr>ls_ProviderID = p, ls_ModelID = m, ls_RequestCount = int (length ls),
              ls_P50LatencyMs = percentile_cont (1/2) ls, ls_P95LatencyMs = percentile_cont (95/100) ls\<rparr>) keys)"

lemma latency_read: "ProviderModelLatencyStats org s e = db_read (\<lambda>db. Inr (latency_rows db org s e))"
  by (simp add: ProviderModelLatencyStats_def latency_rows_def Let_def)

definition order_spec :: "database \<Rightarrow> RoutePolicy \<Rightarrow> ResolveParams \<Rightarrow> time \<Rightarrow> ResolvedTarget list \<Rightarrow> ResolvedTarget list outcome" where
  "order_spec db policy params now rs =
    (if rp_Strategy policy = ''lowest_cost'' then resolveLowestCostTargets policy params rs
     else if rp_Strategy policy = ''lowest_latency'' then
       (case parsePolicyConfig (rp_Config policy) of
          Inl e \<Rightarrow> Inl e
        | Inr cfg \<Rightarrow> Inr (sortLatencyTargets (map (with_stats (stats_by_target
            (latency_rows db (rq_OrgID params) (latency_from now (latencyWindowMinutes cfg)) now))) rs)))
     else Inr rs)"

definition route_spec :: "database \<Rightarrow> ResolveParams \<Rightarrow> time \<Rightarrow> ResolveTargetsResult outcome" where
  "route_spec db params now =
    (let org = rq_OrgID params; m = TrimSpace (rq_RequestedModel params) in
     if org = uuid_Nil \<or> m = [] then Inl ErrRouteNotFound
     else case policy_row db org m of
       Inl _ \<Rightarrow> Inl ErrRouteNotFound
     | Inr policy \<Rightarrow>
        if \<not> validStrategy (rp_Strategy policy) \<or> targets_of db org policy = [] then Inl ErrRouteNotFound
        else case usable_targets db org policy (targets_of db org policy) of
          None \<Rightarrow> Inl ErrRouteNotFound
        | Some rs \<Rightarrow> (case order_spec db policy params now rs of
            Inl e \<Rightarrow> Inl e
          | Inr os \<Rightarrow> if os = [] then Inl ErrRouteNotFound else Inr \<lparr>tr_RoutePolicy = policy, tr_Targets = os\<rparr>))"

lemma order_targets_eval:
  "\<exists>n. answers E (order_spec (w_db w) policy params (env_time E n) rs) (order_targets policy params rs E w) w"
  by (rule exI [of _ "w_step w"])
    (auto simp: order_targets_def order_spec_def resolveLowestLatencyTargets_def latency_read act_simps
      answers_def healthy_def split: sum.splits)

lemma ResolveTargets_eval:
  "\<exists>n. answers E (route_spec (w_db w) params (env_time E n)) (ResolveTargets params E w) w"
proof (cases "rq_OrgID params = uuid_Nil \<or> TrimSpace (rq_RequestedModel params) = []")
  case True
  then show ?thesis by (auto simp: ResolveTargets_def route_spec_def act_simps answers_def Let_def)
next
  case valid: False
  let ?db = "w_db w" and ?org = "rq_OrgID params"
  let ?w1 = "tick (tick w)"
  have fault: "answers E spec (ResolveTargets params E w) w" if "env_fault E (w_step w)" for spec
    using that valid by (auto simp: ResolveTargets_def act_simps Let_def answers_def healthy_def)
  show ?thesis
  proof (cases "policy_row ?db ?org (TrimSpace (rq_RequestedModel params))")
    case (Inl e)
    then have "e = NoRows" by (rule row_errors)
    then show ?thesis
      using valid Inl fault by (auto simp: ResolveTargets_def route_spec_def act_simps Let_def answers_def healthy_def)
  next
    case (Inr policy)
    let ?ts = "targets_of ?db ?org policy"
    obtain res w2 where loop: "resolve_loop ?org policy ?ts E ?w1 = (res, w2)" and w2: "w_db w2 = ?db"
      and res: "res = (case usable_targets ?db ?org policy ?ts of None \<Rightarrow> Inl ErrRouteNotFound | Some rs \<Rightarrow> Inr rs) \<or>
        res = Inl DbUnavailable \<and> \<not> healthy E"
      using resolve_loop_eval [of E ?w1 ?org policy ?ts]
      by (cases "resolve_loop ?org policy ?ts E ?w1") (auto simp: answers_def)
    show ?thesis
    proof (cases "validStrategy (rp_Strategy policy) \<and> ?ts \<noteq> [] \<and> \<not> env_fault E (w_step w) \<and> \<not> env_fault E (Suc (w_step w))")
      case False
      then show ?thesis
        using valid Inr fault
        by (auto simp: ResolveTargets_def route_spec_def act_simps Let_def answers_def healthy_def)
    next
      case True
      then have run: "ResolveTargets params E w = (case res of Inl e \<Rightarrow> (Inl e, w2)
          | Inr rs \<Rightarrow> andThen (order_targets policy params rs) (\<lambda>ordered. if ordered = [] then fail ErrRouteNotFound
              else ret \<lparr>tr_RoutePolicy = policy, tr_Targets = ordered\<rparr>) E w2)"
        using valid Inr loop by (auto simp: ResolveTargets_def act_simps Let_def split: sum.splits)
      show ?thesis
      proof (cases res)
        case (Inl e)
        then show ?thesis
          using run res w2 True valid \<open>policy_row _ _ _ = Inr policy\<close>
          by (auto simp: answers_def route_spec_def Let_def split: option.splits)
      next
        case (Inr rs)
        then have "usable_targets ?db ?org policy ?ts = Some rs" using res by (auto split: option.splits)
        moreover obtain n where "answers E (order_spec ?db policy params (env_time E n) rs) (order_targets policy params rs E w2) w2"
          using order_targets_eval [of E w2 policy params rs] w2 by auto
        ultimately show ?thesis
          using run Inr w2 True valid \<open>policy_row _ _ _ = Inr policy\<close>
          by (intro exI [of _ n], cases "order_targets policy params rs E w2")
            (auto simp: answers_def route_spec_def Let_def act_simps split: sum.splits)
      qed
    qed
  qed
qed

section \<open>What the strategies return\<close>

definition same_target :: "ResolvedTarget \<Rightarrow> ResolvedTarget \<Rightarrow> bool" where
  "same_target a b \<longleftrightarrow> rv_RouteTarget a = rv_RouteTarget b \<and> rv_Provider a = rv_Provider b \<and> rv_Model a = rv_Model b"

lemma estimate_targets_Inr:
  assumes "estimate_targets params ts = Inr es"
  shows "list_all2 (\<lambda>t e. same_target t e \<and>
    estimatedCostMicroUSD (rv_Model t) params = Inr (rv_EstimatedCostMicroUSD e)) ts es"
  using assms
proof (induction ts arbitrary: es)
  case Nil
  then show ?case by simp
next
  case (Cons t ts)
  then show ?case by (auto simp: same_target_def split: sum.splits)
qed

lemma same_target_refl: "same_target t t"
  by (simp add: same_target_def)

lemma with_stats_same: "same_target t (with_stats stats t)"
  by (auto simp: same_target_def with_stats_def split: option.splits)

lemma resolveLowestCostTargets_Inr:
  assumes "resolveLowestCostTargets policy params rs = Inr os"
  obtains cfg es where "parsePolicyConfig (rp_Config policy) = Inr cfg" "estimate_targets params rs = Inr es"
    "set os \<subseteq> set es"
    "case pc_MaxEstimatedCostMicroUSD cfg of
       None \<Rightarrow> os = sortLowestCostTargets es
     | Some m \<Rightarrow> if list_ex (\<lambda>e. rv_EstimatedCostMicroUSD e \<le> m) es
         then os = filter (\<lambda>e. rv_EstimatedCostMicroUSD e \<le> m) (sortLowestCostTargets es)
         else fallbackToPriority cfg \<and> os = SliceStable priority_less (sortLowestCostTargets es)"
proof -
  obtain cfg es where cfg: "parsePolicyConfig (rp_Config policy) = Inr cfg" and es: "estimate_targets params rs = Inr es"
    using assms by (auto simp: resolveLowestCostTargets_def split: sum.splits)
  show thesis
    using assms cfg es
    by (intro that [OF cfg es])
      (auto simp: resolveLowestCostTargets_def Let_def sortLowestCostTargets_def filter_empty_conv list_ex_iff
        split: option.splits if_splits)
qed

lemma list_all2_in: "list_all2 P xs ys \<Longrightarrow> y \<in> set ys \<Longrightarrow> \<exists>x \<in> set xs. P x y"
  by (induction rule: list_all2_induct) auto

lemma list_all2_in1: "list_all2 P xs ys \<Longrightarrow> x \<in> set xs \<Longrightarrow> \<exists>y \<in> set ys. P x y"
  by (induction rule: list_all2_induct) auto

lemma order_spec_same:
  assumes "order_spec db policy params now rs = Inr os" and "t \<in> set os"
  shows "\<exists>r \<in> set rs. same_target r t"
proof (cases "rp_Strategy policy = ''lowest_cost''")
  case True
  then have "resolveLowestCostTargets policy params rs = Inr os" using assms(1) by (simp add: order_spec_def)
  then obtain cfg es where "estimate_targets params rs = Inr es" "set os \<subseteq> set es"
    by (rule resolveLowestCostTargets_Inr)
  then show ?thesis using list_all2_in [OF estimate_targets_Inr] assms(2) by blast
next
  case False
  then show ?thesis
    using assms
    by (auto simp: order_spec_def sortLatencyTargets_def split: if_splits sum.splits)
      (metis with_stats_same, metis same_target_refl)
qed

lemma usable_targets_Some:
  assumes "usable_targets db org policy ts = Some rs" and "r \<in> set rs"
  shows "is_usable r" and "rv_RouteTarget r \<in> set ts"
    and "provider_row db org (rt_ProviderID (rv_RouteTarget r)) = Inr (rv_Provider r)"
    and "model_row db org (rt_ModelID (rv_RouteTarget r)) = Inr (rv_Model r)"
proof -
  have "is_usable r \<and> (\<exists>t \<in> set ts. resolved_of db org t = Some r)"
    using assms by (auto simp: usable_targets_def Let_def list_all_iff image_iff split: if_splits) (metis option.collapse)+
  then obtain t where "is_usable r" "t \<in> set ts" "resolved_of db org t = Some r" by blast
  then show "is_usable r" "rv_RouteTarget r \<in> set ts"
    "provider_row db org (rt_ProviderID (rv_RouteTarget r)) = Inr (rv_Provider r)"
    "model_row db org (rt_ModelID (rv_RouteTarget r)) = Inr (rv_Model r)"
    by (auto simp: resolved_of_def split: sum.splits)
qed

lemma route_spec_Inr:
  assumes "route_spec db params now = Inr r"
  obtains rs where "policy_row db (rq_OrgID params) (TrimSpace (rq_RequestedModel params)) = Inr (tr_RoutePolicy r)"
    "validStrategy (rp_Strategy (tr_RoutePolicy r))"
    "usable_targets db (rq_OrgID params) (tr_RoutePolicy r) (targets_of db (rq_OrgID params) (tr_RoutePolicy r)) = Some rs"
    "order_spec db (tr_RoutePolicy r) params now rs = Inr (tr_Targets r)" "tr_Targets r \<noteq> []"
  using assms by (auto simp: route_spec_def Let_def split: if_splits sum.splits option.splits)

lemma ResolveTargets_Inr:
  assumes "ResolveTargets params E w = (Inr r, w')"
  obtains n where "route_spec (w_db w) params (env_time E n) = Inr r"
  using ResolveTargets_eval [of E w params] assms by (auto simp: answers_def)

lemma cost_less_sorted: "\<not> lowest_cost_less b a \<Longrightarrow> rv_EstimatedCostMicroUSD a \<le> rv_EstimatedCostMicroUSD b"
  by (auto simp: lowest_cost_less_def split: if_splits)

lemma priority_less_sorted: "\<not> priority_less b a \<Longrightarrow> rt_Priority (rv_RouteTarget a) \<le> rt_Priority (rv_RouteTarget b)"
  by (auto simp: priority_less_def split: if_splits)

lemma hd_least:
  assumes "sorted_wrt R xs" and "x \<in> set xs" and "\<And>a. R a a"
  shows "R (hd xs) x"
  using assms by (cases xs) auto

definition within_cap :: "PolicyConfig \<Rightarrow> ResolvedTarget \<Rightarrow> bool" where
  "within_cap cfg t \<longleftrightarrow> (case pc_MaxEstimatedCostMicroUSD cfg of None \<Rightarrow> True | Some m \<Rightarrow> rv_EstimatedCostMicroUSD t \<le> m)"

lemma lowest_cost_order:
  assumes run: "resolveLowestCostTargets policy params rs = Inr os" and cfg: "parsePolicyConfig (rp_Config policy) = Inr cfg"
    and es: "estimate_targets params rs = Inr es" and e: "e \<in> set es"
  shows "if list_ex (within_cap cfg) os
    then rv_EstimatedCostMicroUSD (hd os) \<le> rv_EstimatedCostMicroUSD e \<and> list_all (within_cap cfg) os
    else fallbackToPriority cfg \<and> rt_Priority (rv_RouteTarget (hd os)) \<le> rt_Priority (rv_RouteTarget e)"
proof -
  let ?costs = "\<lambda>a b. rv_EstimatedCostMicroUSD a \<le> rv_EstimatedCostMicroUSD b"
  have sorted: "sorted_wrt ?costs (sortLowestCostTargets es)"
    unfolding sortLowestCostTargets_def
    by (rule sorted_wrt_mono_rel [OF _ by_cost.sorted_SliceStable]) (auto intro: cost_less_sorted)
  have set: "set (sortLowestCostTargets es) = set es" by (simp add: sortLowestCostTargets_def)
  from run obtain cfg' es' where "parsePolicyConfig (rp_Config policy) = Inr cfg'" "estimate_targets params rs = Inr es'"
    "case pc_MaxEstimatedCostMicroUSD cfg' of None \<Rightarrow> os = sortLowestCostTargets es'
     | Some m \<Rightarrow> if list_ex (\<lambda>e. rv_EstimatedCostMicroUSD e \<le> m) es'
         then os = filter (\<lambda>e. rv_EstimatedCostMicroUSD e \<le> m) (sortLowestCostTargets es')
         else fallbackToPriority cfg' \<and> os = SliceStable priority_less (sortLowestCostTargets es')"
    by (rule resolveLowestCostTargets_Inr)
  then have os: "if list_ex (within_cap cfg) es then os = filter (within_cap cfg) (sortLowestCostTargets es)
      else fallbackToPriority cfg \<and> os = SliceStable priority_less (sortLowestCostTargets es)"
    using cfg es e by (cases "pc_MaxEstimatedCostMicroUSD cfg") (auto simp: within_cap_def [abs_def] list_ex_iff)
  show ?thesis
  proof (cases "list_ex (within_cap cfg) es")
    case True
    then have os: "os = filter (within_cap cfg) (sortLowestCostTargets es)" using os by simp
    then have within: "list_all (within_cap cfg) os" "list_ex (within_cap cfg) os" and "os \<noteq> []"
      using True unfolding os list_all_iff list_ex_iff set [symmetric] by (auto simp: filter_empty_conv)
    have srt: "sorted_wrt ?costs os" unfolding os by (rule sorted_wrt_filter [OF sorted])
    have "rv_EstimatedCostMicroUSD (hd os) \<le> rv_EstimatedCostMicroUSD e" if "within_cap cfg e"
    proof (rule hd_least [OF srt])
      show "e \<in> set os" unfolding os using that e set by simp
    qed simp
    moreover have "within_cap cfg (hd os)" using within \<open>os \<noteq> []\<close> by (cases os) auto
    ultimately show ?thesis
      using within by (cases "within_cap cfg e") (auto simp: within_cap_def split: option.splits)
  next
    case False
    then have "os = SliceStable priority_less (sortLowestCostTargets es)" "fallbackToPriority cfg" using os by simp_all
    moreover have "\<not> list_ex (within_cap cfg) os" using False os set by (auto simp: list_ex_iff)
    moreover have "\<not> priority_less e (hd os)"
      using hd_least [OF by_priority.sorted_SliceStable [of "sortLowestCostTargets es"], of e] e set
        by_priority.asym calculation(1) by auto
    ultimately show ?thesis by (simp add: priority_less_sorted)
  qed
qed

lemma latency_less_sorted: "\<not> latency_less b a \<Longrightarrow> rv_HasLatencyStats b \<Longrightarrow>
  rv_HasLatencyStats a \<and> rv_P95LatencyMS a \<le> rv_P95LatencyMS b"
  by (auto simp: latency_less_def split: if_splits)

section \<open>Properties\<close>


text \<open>
  Requests are only routed to usable targets: whatever \<^verbatim>\<open>ResolveTargets\<close> returns is a non-empty
  list of targets of the active policy for the trimmed model name, each with the provider and
  model row of the organisation, both active and the model offered by that provider.
\<close>

theorem resolve_usable_only:
  assumes "ResolveTargets params E w = (Inr r, w')"
  shows "tr_Targets r \<noteq> [] \<and>
    policy_row (w_db w) (rq_OrgID params) (TrimSpace (rq_RequestedModel params)) = Inr (tr_RoutePolicy r) \<and>
    list_all (\<lambda>t. is_usable t \<and>
      rv_RouteTarget t \<in> set (targets_of (w_db w) (rq_OrgID params) (tr_RoutePolicy r)) \<and>
      provider_row (w_db w) (rq_OrgID params) (rt_ProviderID (rv_RouteTarget t)) = Inr (rv_Provider t) \<and>
      model_row (w_db w) (rq_OrgID params) (rt_ModelID (rv_RouteTarget t)) = Inr (rv_Model t)) (tr_Targets r)"
proof -
  obtain n where "route_spec (w_db w) params (env_time E n) = Inr r" using assms by (rule ResolveTargets_Inr)
  then show ?thesis
  proof (rule route_spec_Inr)
    fix rs
    assume policy: "policy_row (w_db w) (rq_OrgID params) (TrimSpace (rq_RequestedModel params)) = Inr (tr_RoutePolicy r)"
      and usable: "usable_targets (w_db w) (rq_OrgID params) (tr_RoutePolicy r)
        (targets_of (w_db w) (rq_OrgID params) (tr_RoutePolicy r)) = Some rs"
      and order: "order_spec (w_db w) (tr_RoutePolicy r) params (env_time E n) rs = Inr (tr_Targets r)"
      and "tr_Targets r \<noteq> []"
    moreover have "\<exists>u \<in> set rs. same_target u t" if "t \<in> set (tr_Targets r)" for t
      by (rule order_spec_same [OF order that])
    ultimately show ?thesis
      using usable_targets_Some [OF usable] by (auto simp: list_all_iff same_target_def is_usable_def) metis+
  qed
qed

text \<open>
  C23: The cheapest target comes first. For a policy with the strategy \<^verbatim>\<open>lowest_cost\<close> every returned
  target carries the calculator's estimate for its model. Without a cost cap, or when some usable
  target is within the cap, the first target is at most as expensive as any usable target of the
  policy and all returned ones are within the cap; otherwise, with the fallback enabled, the
  first target has the least priority number of all usable ones.
\<close>

theorem lowest_cost_first:
  assumes run: "ResolveTargets params E w = (Inr r, w')" and strategy: "rp_Strategy (tr_RoutePolicy r) = ''lowest_cost''"
    and cfg: "parsePolicyConfig (rp_Config (tr_RoutePolicy r)) = Inr cfg"
    and candidates: "usable_targets (w_db w) (rq_OrgID params) (tr_RoutePolicy r)
      (targets_of (w_db w) (rq_OrgID params) (tr_RoutePolicy r)) = Some rs"
    and u: "u \<in> set rs"
  shows "list_all (\<lambda>t. estimatedCostMicroUSD (rv_Model t) params = Inr (rv_EstimatedCostMicroUSD t)) (tr_Targets r) \<and>
    (\<exists>cost. estimatedCostMicroUSD (rv_Model u) params = Inr cost \<and>
      (if list_ex (within_cap cfg) (tr_Targets r)
       then rv_EstimatedCostMicroUSD (hd (tr_Targets r)) \<le> cost \<and> list_all (within_cap cfg) (tr_Targets r)
       else fallbackToPriority cfg \<and>
         rt_Priority (rv_RouteTarget (hd (tr_Targets r))) \<le> rt_Priority (rv_RouteTarget u)))"
proof -
  obtain n where "route_spec (w_db w) params (env_time E n) = Inr r" using run by (rule ResolveTargets_Inr)
  then have order: "resolveLowestCostTargets (tr_RoutePolicy r) params rs = Inr (tr_Targets r)"
    using candidates strategy by (elim route_spec_Inr) (simp add: order_spec_def)
  obtain es where es: "estimate_targets params rs = Inr es" and sub: "set (tr_Targets r) \<subseteq> set es"
    using order by (rule resolveLowestCostTargets_Inr)
  note all2 = estimate_targets_Inr [OF es]
  have "estimatedCostMicroUSD (rv_Model t) params = Inr (rv_EstimatedCostMicroUSD t)" if "t \<in> set (tr_Targets r)" for t
    using list_all2_in [OF all2, of t] that sub by (metis same_target_def subsetD)
  moreover obtain e where "e \<in> set es" "same_target u e"
    "estimatedCostMicroUSD (rv_Model u) params = Inr (rv_EstimatedCostMicroUSD e)"
    using list_all2_in1 [OF all2 u] by blast
  ultimately show ?thesis
    using lowest_cost_order [OF order cfg es] by (auto simp: list_all_iff same_target_def)
qed

definition demo_cheap :: Model where
  "demo_cheap = demo_model\<lparr>md_ID := 40, md_ProviderModelName := ''small'', md_InputPriceMicroUsdPer1kTokens := 10,
     md_OutputPriceMicroUsdPer1kTokens := 20\<rparr>"

definition demo_policy :: "string \<Rightarrow> RoutePolicy" where
  "demo_policy strategy = \<lparr>rp_ID = 50, rp_OrgID = 1, rp_Name = ''r'', rp_MatchModel = ''chat'', rp_Strategy = strategy,
     rp_Status = ''active'', rp_CreatedAt = demo_t0, rp_UpdatedAt = demo_t0, rp_Config = RawValid (JObj [])\<rparr>"

definition demo_target :: "uuid \<Rightarrow> uuid \<Rightarrow> int \<Rightarrow> RouteTarget" where
  "demo_target i m priority = \<lparr>rt_ID = i, rt_OrgID = 1, rt_RoutePolicyID = 50, rt_ProviderID = 3, rt_ModelID = m,
     rt_Priority = priority, rt_Weight = 1, rt_CreatedAt = demo_t0\<rparr>"

definition demo_route_db :: "string \<Rightarrow> database" where
  "demo_route_db strategy = demo_db\<lparr>models := [demo_model, demo_cheap], route_policies := [demo_policy strategy],
     route_targets := [demo_target 51 4 1, demo_target 52 40 2]\<rparr>"

definition demo_query :: ResolveParams where
  "demo_query = \<lparr>rq_OrgID = 1, rq_RequestedModel = '' chat '', rq_EstimatedPromptTokens = 100, rq_EstimatedMaxTokens = 100\<rparr>"

definition demo_resolved :: "RouteTarget \<Rightarrow> Model \<Rightarrow> int \<Rightarrow> ResolvedTarget" where
  "demo_resolved t m cost = \<lparr>rv_RouteTarget = t, rv_Provider = demo_provider, rv_Model = m, rv_EstimatedCostMicroUSD = cost,
     rv_HasLatencyStats = False, rv_P50LatencyMS = 0, rv_P95LatencyMS = 0\<rparr>"

lemma demo_resolve:
  "fst (ResolveTargets demo_query demo_env (world_of (demo_route_db ''lowest_cost''))) =
    Inr \<lparr>tr_RoutePolicy = demo_policy ''lowest_cost'',
      tr_Targets = [demo_resolved (demo_target 52 40 2) demo_cheap 3, demo_resolved (demo_target 51 4 1) demo_model 75]\<rparr>"
  by code_simp

lemma demo_run:
  obtains w' where "ResolveTargets demo_query demo_env (world_of (demo_route_db ''lowest_cost'')) =
    (Inr \<lparr>tr_RoutePolicy = demo_policy ''lowest_cost'',
      tr_Targets = [demo_resolved (demo_target 52 40 2) demo_cheap 3, demo_resolved (demo_target 51 4 1) demo_model 75]\<rparr>, w')"
  using demo_resolve by (metis prod.collapse)

theorem resolve_usable_only_witness:
  "\<exists>r w'. ResolveTargets demo_query demo_env (world_of (demo_route_db ''lowest_cost'')) = (Inr r, w') \<and>
     length (tr_Targets r) = 2 \<and> list_all is_usable (tr_Targets r)"
proof -
  obtain w' where run: "ResolveTargets demo_query demo_env (world_of (demo_route_db ''lowest_cost'')) =
    (Inr \<lparr>tr_RoutePolicy = demo_policy ''lowest_cost'',
      tr_Targets = [demo_resolved (demo_target 52 40 2) demo_cheap 3, demo_resolved (demo_target 51 4 1) demo_model 75]\<rparr>, w')"
    by (rule demo_run)
  then show ?thesis using resolve_usable_only [OF run] by auto
qed

theorem lowest_cost_first_witness:
  "\<exists>r w' cost. ResolveTargets demo_query demo_env (world_of (demo_route_db ''lowest_cost'')) = (Inr r, w') \<and>
     estimatedCostMicroUSD demo_model demo_query = Inr cost \<and> rv_EstimatedCostMicroUSD (hd (tr_Targets r)) \<le> cost"
proof -
  obtain w' where run: "ResolveTargets demo_query demo_env (world_of (demo_route_db ''lowest_cost'')) =
    (Inr \<lparr>tr_RoutePolicy = demo_policy ''lowest_cost'',
      tr_Targets = [demo_resolved (demo_target 52 40 2) demo_cheap 3, demo_resolved (demo_target 51 4 1) demo_model 75]\<rparr>, w')"
    by (rule demo_run)
  have "usable_targets (demo_route_db ''lowest_cost'') 1 (demo_policy ''lowest_cost'')
      (targets_of (demo_route_db ''lowest_cost'') 1 (demo_policy ''lowest_cost'')) =
      Some [demo_resolved (demo_target 51 4 1) demo_model 0, demo_resolved (demo_target 52 40 2) demo_cheap 0]"
    by code_simp
  moreover have "parsePolicyConfig (rp_Config (demo_policy ''lowest_cost'')) = Inr empty_config" by code_simp
  ultimately show ?thesis
    using run lowest_cost_first [OF run, of empty_config _ "demo_resolved (demo_target 51 4 1) demo_model 0"]
    by (fastforce simp: demo_policy_def demo_query_def within_cap_def empty_config_def demo_resolved_def)
qed

text \<open>
  The fastest target comes first. For the strategy \<^verbatim>\<open>lowest_latency\<close> no usable target is dropped,
  every target with measurements in the window precedes those without, and among measured ones
  the 95th percentile does not decrease.
\<close>

theorem lowest_latency_first:
  assumes run: "ResolveTargets params E w = (Inr r, w')" and strategy: "rp_Strategy (tr_RoutePolicy r) = ''lowest_latency''"
    and candidates: "usable_targets (w_db w) (rq_OrgID params) (tr_RoutePolicy r)
      (targets_of (w_db w) (rq_OrgID params) (tr_RoutePolicy r)) = Some rs"
  shows "mset (map rv_RouteTarget (tr_Targets r)) = mset (map rv_RouteTarget rs) \<and>
    sorted_wrt (\<lambda>a b. rv_HasLatencyStats b \<longrightarrow> rv_HasLatencyStats a \<and> rv_P95LatencyMS a \<le> rv_P95LatencyMS b) (tr_Targets r)"
proof -
  obtain n where "route_spec (w_db w) params (env_time E n) = Inr r" using run by (rule ResolveTargets_Inr)
  then obtain stats where ts: "tr_Targets r = SliceStable latency_less (map (with_stats stats) rs)"
    using candidates strategy
    by (elim route_spec_Inr) (simp add: order_spec_def sortLatencyTargets_def split: sum.splits, metis)
  have "rv_RouteTarget (with_stats stats t) = rv_RouteTarget t" for t
    using with_stats_same [of t stats] by (simp add: same_target_def)
  then have "mset (map rv_RouteTarget (tr_Targets r)) = mset (map rv_RouteTarget rs)"
    unfolding ts by (simp add: image_mset.compositionality comp_def)
  moreover have "sorted_wrt (\<lambda>a b. \<not> latency_less b a) (tr_Targets r)"
    unfolding ts by (rule by_latency.sorted_SliceStable)
  then have "sorted_wrt (\<lambda>a b. rv_HasLatencyStats b \<longrightarrow> rv_HasLatencyStats a \<and> rv_P95LatencyMS a \<le> rv_P95LatencyMS b) (tr_Targets r)"
    by (rule sorted_wrt_mono_rel [rotated]) (blast dest: latency_less_sorted)
  ultimately show ?thesis by blast
qed

lemma demo_candidates:
  "usable_targets (demo_route_db ''lowest_latency'') 1 (demo_policy ''lowest_latency'')
      (targets_of (demo_route_db ''lowest_latency'') 1 (demo_policy ''lowest_latency'')) =
    Some [demo_resolved (demo_target 51 4 1) demo_model 0, demo_resolved (demo_target 52 40 2) demo_cheap 0]"
  "policy_row (demo_route_db ''lowest_latency'') 1 ''chat'' = Inr (demo_policy ''lowest_latency'')"
  "parsePolicyConfig (rp_Config (demo_policy ''lowest_latency'')) = Inr empty_config"
  "targets_of (demo_route_db ''lowest_latency'') 1 (demo_policy ''lowest_latency'') \<noteq> []"
  "rq_OrgID demo_query = 1" "TrimSpace (rq_RequestedModel demo_query) = ''chat''" "validStrategy ''lowest_latency''"
  "rp_Strategy (demo_policy ''lowest_latency'') = ''lowest_latency''"
  by code_simp+

lemma demo_latency_run:
  obtains r w' where "ResolveTargets demo_query demo_env (world_of (demo_route_db ''lowest_latency'')) = (Inr r, w')"
    "tr_RoutePolicy r = demo_policy ''lowest_latency''"
proof -
  have "\<exists>r. route_spec (demo_route_db ''lowest_latency'') demo_query now = Inr r \<and>
      tr_RoutePolicy r = demo_policy ''lowest_latency''" for now
    by (simp add: route_spec_def demo_candidates order_spec_def sortLatencyTargets_def uuid_Nil_def)
  then show thesis
    using that ResolveTargets_eval [of demo_env "world_of (demo_route_db ''lowest_latency'')" demo_query]
    by (auto simp: answers_def) (metis prod.collapse)
qed

theorem lowest_latency_first_witness:
  "\<exists>r w'. ResolveTargets demo_query demo_env (world_of (demo_route_db ''lowest_latency'')) = (Inr r, w') \<and>
     mset (map rv_RouteTarget (tr_Targets r)) = {#demo_target 51 4 1, demo_target 52 40 2#}"
proof -
  obtain r w' where run: "ResolveTargets demo_query demo_env (world_of (demo_route_db ''lowest_latency'')) = (Inr r, w')"
    and "tr_RoutePolicy r = demo_policy ''lowest_latency''"
    by (rule demo_latency_run)
  then show ?thesis
    using lowest_latency_first [OF run] demo_candidates by (simp add: demo_resolved_def)
qed

section \<open>A created policy can be resolved\<close>

definition target_fits :: "uuid \<Rightarrow> uuid \<Rightarrow> TargetParams \<Rightarrow> RouteTarget \<Rightarrow> bool" where
  "target_fits org policyID p t \<longleftrightarrow> rt_OrgID t = org \<and> rt_RoutePolicyID t = policyID \<and>
     rt_ProviderID t = tp_ProviderID p \<and> rt_ModelID t = tp_ModelID p \<and> rt_Priority t = tp_Priority p"

lemma check_targets_Inr:
  assumes "check_targets org ts E w = (Inr u, w')"
  shows "w_db w' = w_db w \<and> (\<forall>t \<in> set ts. \<exists>p m. provider_row (w_db w) org (tp_ProviderID t) = Inr p \<and>
    model_row (w_db w) org (tp_ModelID t) = Inr m \<and> usable p m)"
  using assms
proof (induction ts arbitrary: w)
  case Nil
  then show ?case by (simp add: act_inr)
next
  case (Cons x xs)
  then have "check_targets org xs E (tick (tick w)) = (Inr u, w')"
    and "\<exists>p m. provider_row (w_db w) org (tp_ProviderID x) = Inr p \<and> model_row (w_db w) org (tp_ModelID x) = Inr m \<and> usable p m"
    by (auto simp: act_inr validateTargetBelongsToOrg_def row_reads usable_def split: if_splits)
  then show ?case using Cons.IH [of "tick (tick w)"] by simp
qed

lemma create_targets_Inr:
  assumes "create_targets org i now ps E w = (Inr u, w')"
  obtains new where "w_db w' = (w_db w)\<lparr>route_targets := route_targets (w_db w) @ new\<rparr>"
    "list_all2 (target_fits org i) ps new"
  using assms
proof (induction ps arbitrary: w thesis)
  case Nil
  then show ?case by (simp add: act_inr)
next
  case (Cons p ps)
  define t where t_def: "t = \<lparr>rt_ID = env_uuid E (w_step w), rt_OrgID = org, rt_RoutePolicyID = i,
      rt_ProviderID = tp_ProviderID p, rt_ModelID = tp_ModelID p, rt_Priority = tp_Priority p,
      rt_Weight = tp_Weight p, rt_CreatedAt = now\<rparr>"
  define w1 where w1_def: "w1 = (tick (tick w))\<lparr>w_db := (w_db w)\<lparr>route_targets := route_targets (w_db w) @ [t]\<rparr>\<rparr>"
  have t: "target_fits org i p t" and w1: "w_db w1 = (w_db w)\<lparr>route_targets := route_targets (w_db w) @ [t]\<rparr>"
    by (simp_all add: t_def w1_def target_fits_def)
  have rest: "create_targets org i now ps E w1 = (Inr u, w')"
    using Cons.prems(2) by (auto simp: act_inr CreateRouteTarget_def t_def w1_def)
  from rest obtain new where "w_db w' = (w_db w1)\<lparr>route_targets := route_targets (w_db w1) @ new\<rparr>"
    "list_all2 (target_fits org i) ps new"
    using Cons.IH by blast
  then show ?case using Cons.prems(1) [of "t # new"] t w1 by simp
qed

definition created_policy :: "CreateRoutePolicyParams \<Rightarrow> RoutePolicy \<Rightarrow> database \<Rightarrow> bool" where
  "created_policy p policy db \<longleftrightarrow> rp_OrgID policy = crp_OrgID p \<and> rp_MatchModel policy = TrimSpace (crp_MatchModel p) \<and>
     rp_Strategy policy = crp_Strategy p \<and> rp_Status policy = ''active'' \<and>
     \<not> list_ex (\<lambda>x. rp_ID x = rp_ID policy \<or> rp_OrgID x = rp_OrgID policy \<and> rp_MatchModel x = rp_MatchModel policy) (route_policies db)"

lemma CreateRoutePolicy_Inr:
  assumes "CreateRoutePolicy p E w = (Inr policy, w')"
  obtains new where "w_db w' = (w_db w)\<lparr>route_policies := route_policies (w_db w) @ [policy],
      route_targets := route_targets (w_db w) @ new\<rparr>"
    "list_all2 (target_fits (crp_OrgID p) (rp_ID policy)) (crp_Targets p) new" "created_policy p policy (w_db w)"
    "validateCreateRoutePolicyParams p = Inr ()"
    "\<And>t. t \<in> set (crp_Targets p) \<Longrightarrow> \<exists>q m. provider_row (w_db w) (crp_OrgID p) (tp_ProviderID t) = Inr q \<and>
       model_row (w_db w) (crp_OrgID p) (tp_ModelID t) = Inr m \<and> usable q m"
proof -
  obtain now where valid: "validateCreateRoutePolicyParams p = Inr ()"
    and exec: "ExecTx (create_policy_tx p now) E (tick w) = (Inr policy, w')"
    using assms by (auto simp: CreateRoutePolicy_def act_inr)
  obtain w2 where tx: "create_policy_tx p now E (tick (tick w)) = (Inr policy, w2)" and w': "w' = tick w2"
    using exec by (rule ExecTx_Inr)
  from tx obtain u u' w3 w4 config i where
    checked: "check_targets (crp_OrgID p) (crp_Targets p) E (tick (tick w)) = (Inr u, w3)"
    and row: "CreateRoutePolicy_row \<lparr>rp_ID = i, rp_OrgID = crp_OrgID p, rp_Name = TrimSpace (crp_Name p),
      rp_MatchModel = TrimSpace (crp_MatchModel p), rp_Strategy = crp_Strategy p, rp_Status = ''active'',
      rp_CreatedAt = now, rp_UpdatedAt = now, rp_Config = config\<rparr> E (tick w3) = (Inr policy, w4)"
    and targets: "create_targets (crp_OrgID p) (rp_ID policy) now (crp_Targets p) E w4 = (Inr u', w2)"
    unfolding create_policy_tx_def andThen_Inr lift_Inr new_uuid_Inr ret_Inr by auto
  note db3 = check_targets_Inr [OF checked]
  have policy: "created_policy p policy (w_db w)"
    and db4: "w_db w4 = (w_db w)\<lparr>route_policies := route_policies (w_db w) @ [policy]\<rparr>"
    using row db3 by (auto simp: CreateRoutePolicy_row_def act_inr created_policy_def)
  from targets obtain new where "w_db w2 = (w_db w4)\<lparr>route_targets := route_targets (w_db w4) @ new\<rparr>"
    "list_all2 (target_fits (crp_OrgID p) (rp_ID policy)) (crp_Targets p) new"
    by (rule create_targets_Inr)
  then show thesis
    by (intro that [OF _ _ policy valid]) (use db3 in \<open>simp_all add: w' db4\<close>)
qed

lemma targets_of_created:
  assumes fk: "list_all (\<lambda>t. list_ex (\<lambda>x. rp_ID x = rt_RoutePolicyID t) (route_policies db)) (route_targets db)"
    and fresh: "\<not> list_ex (\<lambda>x. rp_ID x = rp_ID policy) (route_policies db)"
    and new: "list_all2 (target_fits org (rp_ID policy)) ps new"
    and db': "route_targets db' = route_targets db @ new"
  shows "targets_of db' org policy = SliceStable target_order new"
proof -
  have "filter (\<lambda>r. rt_OrgID r = org \<and> rt_RoutePolicyID r = rp_ID policy) (route_targets db) = []"
    using fk fresh by (auto simp: filter_empty_conv list_all_iff list_ex_iff)
  moreover have "filter (\<lambda>r. rt_OrgID r = org \<and> rt_RoutePolicyID r = rp_ID policy) new = new"
    using list_all2_in [OF new] by (auto simp: filter_id_conv target_fits_def)
  ultimately show ?thesis by (simp add: targets_of_def db')
qed

lemma usable_targets_all:
  assumes "\<forall>t \<in> set ts. \<exists>p m. provider_row db org (rt_ProviderID t) = Inr p \<and> model_row db org (rt_ModelID t) = Inr m \<and> usable p m"
  shows "\<exists>rs. usable_targets db org policy ts = Some rs \<and> map rv_RouteTarget rs = ts"
  using assms
  by (induction ts) (auto simp: usable_targets_Cons resolved_of_def is_usable_def)

lemma target_order_priority: "\<not> target_order b a \<Longrightarrow> rt_Priority a \<le> rt_Priority b"
  by (auto simp: target_order_def)

text \<open>
  A policy that was created can be used: after \<^verbatim>\<open>CreateRoutePolicy\<close> of a \<^verbatim>\<open>single\<close> or \<^verbatim>\<open>fallback\<close>
  policy, resolving its model name returns that policy with all of its targets, in the order of
  their priorities, as long as the database answers and nothing else has changed.
\<close>

theorem create_then_resolve:
  assumes create: "CreateRoutePolicy p E w = (Inr policy, w')" and strategy: "crp_Strategy p \<in> {''single'', ''fallback''}"
    and fk: "list_all (\<lambda>t. list_ex (\<lambda>x. rp_ID x = rt_RoutePolicyID t) (route_policies (w_db w))) (route_targets (w_db w))"
    and query: "rq_OrgID q = crp_OrgID p" "TrimSpace (rq_RequestedModel q) = TrimSpace (crp_MatchModel p)"
    and E': "healthy E'"
  shows "\<exists>ts v. ResolveTargets q E' w' = (Inr \<lparr>tr_RoutePolicy = policy, tr_Targets = ts\<rparr>, v) \<and>
    mset (map (\<lambda>t. (rt_ProviderID (rv_RouteTarget t), rt_ModelID (rv_RouteTarget t), rt_Priority (rv_RouteTarget t))) ts) =
      mset (map (\<lambda>t. (tp_ProviderID t, tp_ModelID t, tp_Priority t)) (crp_Targets p)) \<and>
    sorted (map (\<lambda>t. rt_Priority (rv_RouteTarget t)) ts)"
proof -
  obtain new where db': "w_db w' = (w_db w)\<lparr>route_policies := route_policies (w_db w) @ [policy],
      route_targets := route_targets (w_db w) @ new\<rparr>"
    and new: "list_all2 (target_fits (crp_OrgID p) (rp_ID policy)) (crp_Targets p) new"
    and policy: "created_policy p policy (w_db w)" and valid: "validateCreateRoutePolicyParams p = Inr ()"
    and rows: "\<And>t. t \<in> set (crp_Targets p) \<Longrightarrow> \<exists>q m. provider_row (w_db w) (crp_OrgID p) (tp_ProviderID t) = Inr q \<and>
       model_row (w_db w) (crp_OrgID p) (tp_ModelID t) = Inr m \<and> usable q m"
    using create by (rule CreateRoutePolicy_Inr) blast
  let ?db = "w_db w'" and ?ts = "SliceStable target_order new"
  have org: "crp_OrgID p \<noteq> uuid_Nil" "TrimSpace (crp_MatchModel p) \<noteq> []" and "crp_Targets p \<noteq> []"
    using valid strategy by (auto simp: validateCreateRoutePolicyParams_def split: if_splits)
  then have ne: "new \<noteq> []" using new by auto
  have targets: "targets_of ?db (crp_OrgID p) policy = ?ts"
    using policy db' by (intro targets_of_created [OF fk _ new]) (auto simp: created_policy_def list_ex_iff)
  have "filter (\<lambda>r. rp_OrgID r = crp_OrgID p \<and> rp_MatchModel r = TrimSpace (crp_MatchModel p) \<and> rp_Status r = ''active'')
      (route_policies (w_db w)) = []"
    using policy by (auto simp: created_policy_def list_ex_iff filter_empty_conv)
  then have "policy_row ?db (crp_OrgID p) (TrimSpace (crp_MatchModel p)) = Inr policy"
    using policy by (simp add: policy_row_def db' created_policy_def)
  moreover have "\<forall>t \<in> set ?ts. \<exists>p' m. provider_row ?db (crp_OrgID p) (rt_ProviderID t) = Inr p' \<and>
      model_row ?db (crp_OrgID p) (rt_ModelID t) = Inr m \<and> usable p' m"
  proof
    fix t
    assume "t \<in> set ?ts"
    then obtain x where "x \<in> set (crp_Targets p)" "target_fits (crp_OrgID p) (rp_ID policy) x t"
      using list_all2_in [OF new] by auto
    then show "\<exists>p' m. provider_row ?db (crp_OrgID p) (rt_ProviderID t) = Inr p' \<and>
        model_row ?db (crp_OrgID p) (rt_ModelID t) = Inr m \<and> usable p' m"
      using rows [of x] by (simp add: db' provider_row_def model_row_def target_fits_def)
  qed
  then obtain rs where rs: "usable_targets ?db (crp_OrgID p) policy ?ts = Some rs" "map rv_RouteTarget rs = ?ts"
    using usable_targets_all by blast
  moreover have "order_spec ?db policy q now rs = Inr rs" "validStrategy (rp_Strategy policy)" for now
    using policy strategy by (auto simp: order_spec_def created_policy_def validStrategy_def)
  moreover have "rs \<noteq> []" using rs(2) ne SliceStable_eq_Nil [of target_order new] by fastforce
  ultimately have spec: "route_spec ?db q now = Inr \<lparr>tr_RoutePolicy = policy, tr_Targets = rs\<rparr>" for now
    using org ne targets by (simp add: route_spec_def query Let_def)
  have "fst (ResolveTargets q E' w') = Inr \<lparr>tr_RoutePolicy = policy, tr_Targets = rs\<rparr>"
    using ResolveTargets_eval [of E' w' q] E' by (auto simp: answers_def spec)
  moreover have "mset (map (\<lambda>t. (rt_ProviderID t, rt_ModelID t, rt_Priority t)) ?ts) =
      mset (map (\<lambda>t. (tp_ProviderID t, tp_ModelID t, tp_Priority t)) (crp_Targets p))"
  proof -
    have "map (\<lambda>t. (tp_ProviderID t, tp_ModelID t, tp_Priority t)) (crp_Targets p) =
        map (\<lambda>t. (rt_ProviderID t, rt_ModelID t, rt_Priority t)) new"
      using new by (induction rule: list_all2_induct) (auto simp: target_fits_def)
    then show ?thesis by simp
  qed
  moreover have "sorted (map rt_Priority ?ts)"
    unfolding sorted_map
    by (rule sorted_wrt_mono_rel [OF _ target_sql.sorted_SliceStable]) (auto intro: target_order_priority)
  ultimately show ?thesis
    unfolding rs(2) [symmetric] by (intro exI [of _ rs]) (auto simp: comp_def prod_eq_iff)
qed

definition demo_create :: CreateRoutePolicyParams where
  "demo_create = \<lparr>crp_OrgID = 1, crp_Name = '' chat '', crp_MatchModel = ''chat'', crp_Strategy = ''fallback'',
     crp_Config = RawEmpty, crp_Targets =
       [\<lparr>tp_ProviderID = 3, tp_ModelID = 40, tp_Priority = 2, tp_Weight = 1\<rparr>,
        \<lparr>tp_ProviderID = 3, tp_ModelID = 4, tp_Priority = 1, tp_Weight = 1\<rparr>]\<rparr>"

definition demo_before :: database where
  "demo_before = demo_db\<lparr>models := [demo_model, demo_cheap]\<rparr>"

lemma demo_created: "is_ok (fst (CreateRoutePolicy demo_create demo_env (world_of demo_before)))"
  by code_simp

theorem create_then_resolve_witness:
  "\<exists>policy w' ts v. CreateRoutePolicy demo_create demo_env (world_of demo_before) = (Inr policy, w') \<and>
     ResolveTargets demo_query demo_env w' = (Inr \<lparr>tr_RoutePolicy = policy, tr_Targets = ts\<rparr>, v) \<and>
     sorted (map (\<lambda>t. rt_Priority (rv_RouteTarget t)) ts)"
proof -
  obtain policy w' where run: "CreateRoutePolicy demo_create demo_env (world_of demo_before) = (Inr policy, w')"
    using demo_created by (metis is_ok.elims(2) prod.collapse)
  have "route_targets demo_before = []" by (simp add: demo_before_def demo_db_def empty_db_def)
  moreover have "rq_OrgID demo_query = crp_OrgID demo_create"
    "TrimSpace (rq_RequestedModel demo_query) = TrimSpace (crp_MatchModel demo_create)"
    by code_simp+
  ultimately show ?thesis
    using create_then_resolve [OF run _ _ _ _ healthy_demo, of demo_query] run by (auto simp: demo_create_def)
qed

end
