(* ===== verification/ContentPolicy.thy ===== *)
theory ContentPolicy
  imports Samples Strconv
begin

text \<open>
  Content policies (\<^verbatim>\<open>internal/policy\<close>): the PII detector with its four regular expressions, the
  redactor and the policy service. Go's \<^verbatim>\<open>regexp\<close> is modelled by the list of all ends of a
  match in the order of preference of the leftmost-first semantics; the strings are bytes, so
  the two non-ASCII letters that fold to \<^verbatim>\<open>k\<close> and \<^verbatim>\<open>s\<close> under \<^verbatim>\<open>(?i)\<close> are outside the model.
\<close>

section \<open>Regular expressions\<close>

datatype re =
    Cls "char \<Rightarrow> bool"
  | Eps
  | Seq re re
  | Alt re re
  | Many "char \<Rightarrow> bool" nat
  | WordBoundary

definition is_letter :: "char \<Rightarrow> bool" where
  "is_letter c \<longleftrightarrow> 97 \<le> (of_char (lower_char c) :: nat) \<and> (of_char (lower_char c) :: nat) \<le> 122"

definition is_word :: "char \<Rightarrow> bool" where
  "is_word c \<longleftrightarrow> is_letter c \<or> is_digit c \<or> c = CHR ''_''"

definition word_at :: "string \<Rightarrow> nat \<Rightarrow> bool" where
  "word_at t i \<longleftrightarrow> i < length t \<and> is_word (t ! i)"

text \<open>\<open>ends r t i\<close>: where a match of \<open>r\<close> that starts at \<open>i\<close> may end, preferred ends first.\<close>

primrec ends :: "re \<Rightarrow> string \<Rightarrow> nat \<Rightarrow> nat list" where
  "ends (Cls p) t i = (if i < length t \<and> p (t ! i) then [Suc i] else [])"
| "ends Eps t i = [i]"
| "ends (Seq r s) t i = concat (map (ends s t) (ends r t i))"
| "ends (Alt r s) t i = ends r t i @ ends s t i"
| "ends (Many p k) t i = rev [i + k ..< Suc (i + length (takeWhile p (drop i t)))]"
| "ends WordBoundary t i = (if (0 < i \<and> word_at t (i - 1)) \<noteq> word_at t i then [i] else [])"

definition optional :: "re \<Rightarrow> re" where
  "optional r = Alt r Eps"

primrec up_to :: "nat \<Rightarrow> re \<Rightarrow> re" where
  "up_to 0 r = Eps"
| "up_to (Suc k) r = optional (Seq r (up_to k r))"

primrec times :: "nat \<Rightarrow> re \<Rightarrow> re" where
  "times 0 r = Eps"
| "times (Suc k) r = Seq r (times k r)"

text \<open>A literal under \<^verbatim>\<open>(?i)\<close>.\<close>

definition lit :: "string \<Rightarrow> re" where
  "lit s = foldr (\<lambda>c. Seq (Cls (\<lambda>x. lower_char x = lower_char c))) s Eps"

definition one_of :: "string \<Rightarrow> char \<Rightarrow> bool" where
  "one_of s c \<longleftrightarrow> c \<in> set s"

text \<open>The leftmost match at or after \<open>i\<close>.\<close>

fun first_of :: "re \<Rightarrow> string \<Rightarrow> nat list \<Rightarrow> (nat \<times> nat) option" where
  "first_of r t [] = None"
| "first_of r t (s # ss) = (case ends r t s of [] \<Rightarrow> first_of r t ss | e # _ \<Rightarrow> Some (s, e))"

definition leftmost :: "re \<Rightarrow> string \<Rightarrow> nat \<Rightarrow> (nat \<times> nat) option" where
  "leftmost r t i = first_of r t [i ..< Suc (length t)]"

lemma run_le: "length (takeWhile p (drop i t)) \<le> length t - i"
  by (metis length_drop length_takeWhile_le)

lemma ends_bounds: "e \<in> set (ends r t i) \<Longrightarrow> i \<le> length t \<Longrightarrow> i \<le> e \<and> e \<le> length t"
proof (induction r arbitrary: i e)
  case (Seq r s)
  then show ?case by fastforce
next
  case (Many p k)
  then show ?case using run_le [of p i t] by auto
qed (auto split: if_splits)

lemma first_of_Some:
  "first_of r t ss = Some (s, e) \<Longrightarrow> s \<in> set ss \<and> e \<in> set (ends r t s)"
  by (induction ss) (auto split: list.splits)

lemma leftmost_Some:
  assumes "leftmost r t i = Some (s, e)"
  shows "i \<le> s" "s \<le> e" "e \<le> length t" "e \<in> set (ends r t s)"
  using first_of_Some [OF assms [unfolded leftmost_def]] ends_bounds [of e r t s] by auto

text \<open>\<^verbatim>\<open>Regexp.FindAllStringIndex(t, -1)\<close> from position \<open>pos\<close>, the last match having ended at \<open>prev\<close>.\<close>

function find_all :: "re \<Rightarrow> string \<Rightarrow> nat \<Rightarrow> nat option \<Rightarrow> (nat \<times> nat) list" where
  "find_all r t pos prev =
     (if length t < pos then []
      else case leftmost r t pos of
        None \<Rightarrow> []
      | Some (s, e) \<Rightarrow>
          if e = pos
          then (if prev = Some s then [] else [(s, e)]) @ find_all r t (Suc pos) (Some e)
          else (s, e) # find_all r t e (Some e))"
  by pat_completeness auto

termination
  by (relation "measure (\<lambda>(r, t, pos, prev). Suc (length t) - pos)")
    (use leftmost_Some in \<open>fastforce+\<close>)

declare find_all.simps [simp del]

definition FindAllStringIndex :: "re \<Rightarrow> string \<Rightarrow> (nat \<times> nat) list" where
  "FindAllStringIndex r t = find_all r t 0 None"

section \<open>The detector\<close>

definition emailPattern :: re where
  "emailPattern =
     Seq WordBoundary (Seq (Many (\<lambda>c. is_letter c \<or> is_digit c \<or> one_of ''._%+-'' c) 1)
      (Seq (Cls (one_of ''@''))
      (Seq (Many (\<lambda>c. is_letter c \<or> is_digit c \<or> one_of ''.-'' c) 1)
      (Seq (Cls (one_of ''.''))
      (Seq (Many is_letter 2) WordBoundary)))))"

definition regexp_space :: "char \<Rightarrow> bool" where
  "regexp_space c \<longleftrightarrow> c \<in> {CHR 0x09, CHR 0x0A, CHR 0x0C, CHR 0x0D, CHR '' ''}"

definition phonePattern :: re where
  "phonePattern =
     Seq (optional (Cls (one_of ''+''))) (Seq (Cls is_digit)
      (Seq (Many (\<lambda>c. is_digit c \<or> regexp_space c \<or> one_of ''().-'' c) 7) (Cls is_digit)))"

definition creditCardPattern :: re where
  "creditCardPattern =
     (let d = Seq (Cls is_digit) (optional (Cls (one_of '' -''))) in Seq (times 13 d) (up_to 6 d))"

definition token_char :: "char \<Rightarrow> bool" where
  "token_char c \<longleftrightarrow> is_letter c \<or> is_digit c \<or> one_of ''_-'' c"

definition apiKeyPattern :: re where
  "apiKeyPattern =
     Seq WordBoundary (Seq
      (Alt (Seq (lit ''sk-'') (Many token_char 16))
      (Alt (Seq (lit ''llmgw_'') (Many token_char 16))
       (Seq (lit ''api'') (Seq (optional (Cls (one_of ''_-''))) (Seq (lit ''key'')
         (Seq (Cls (one_of '':='')) (Many token_char 12)))))))
      WordBoundary)"

definition PIIEmail :: string where "PIIEmail = ''email''"
definition PIIPhone :: string where "PIIPhone = ''phone''"
definition PIICreditCardLike :: string where "PIICreditCardLike = ''credit_card_like''"
definition PIIAPIKeyLike :: string where "PIIAPIKeyLike = ''api_key_like''"

record PIIHit =
  ph_Type :: string
  ph_Start :: int
  ph_End :: int

definition hit_of :: "string \<Rightarrow> nat \<times> nat \<Rightarrow> PIIHit" where
  "hit_of ty m = \<lparr>ph_Type = ty, ph_Start = int (fst m), ph_End = int (snd m)\<rparr>"

definition appendRegexHits :: "PIIHit list \<Rightarrow> string \<Rightarrow> re \<Rightarrow> string \<Rightarrow> PIIHit list" where
  "appendRegexHits hits hitType pattern t = hits @ map (hit_of hitType) (FindAllStringIndex pattern t)"

definition digitsOnly :: "string \<Rightarrow> string" where
  "digitsOnly v = filter is_digit v"

text \<open>The loop runs from the last digit to the first: \<open>luhn_loop\<close> gets them reversed.\<close>

fun luhn_loop :: "string \<Rightarrow> bool \<Rightarrow> int \<Rightarrow> int" where
  "luhn_loop [] dbl acc = acc"
| "luhn_loop (c # cs) dbl acc =
     (let v = int (digit_value c);
          v = (if dbl then (if 2 * v > 9 then 2 * v - 9 else 2 * v) else v)
      in luhn_loop cs (\<not> dbl) (acc + v))"

definition luhnValid :: "string \<Rightarrow> bool" where
  "luhnValid digits \<longleftrightarrow> luhn_loop (rev digits) False 0 mod 10 = 0"

definition card_like :: "string \<Rightarrow> nat \<times> nat \<Rightarrow> bool" where
  "card_like t m = (let digits = digitsOnly (take (snd m - fst m) (drop (fst m) t))
     in \<not> (length digits < 13 \<or> 19 < length digits \<or> \<not> luhnValid digits))"

definition appendCreditCardHits :: "PIIHit list \<Rightarrow> string \<Rightarrow> PIIHit list" where
  "appendCreditCardHits hits t =
     hits @ map (hit_of PIICreditCardLike) (filter (card_like t) (FindAllStringIndex creditCardPattern t))"

definition overlapsType :: "PIIHit list \<Rightarrow> int \<Rightarrow> int \<Rightarrow> string \<Rightarrow> bool" where
  "overlapsType hits s e hitType \<longleftrightarrow>
     list_ex (\<lambda>h. ph_Type h = hitType \<and> s < ph_End h \<and> ph_Start h < e) hits"

fun phone_loop :: "PIIHit list \<Rightarrow> (nat \<times> nat) list \<Rightarrow> PIIHit list" where
  "phone_loop hits [] = hits"
| "phone_loop hits (m # ms) =
     (if overlapsType hits (int (fst m)) (int (snd m)) PIICreditCardLike then phone_loop hits ms
      else phone_loop (hits @ [hit_of PIIPhone m]) ms)"

definition appendPhoneHits :: "PIIHit list \<Rightarrow> string \<Rightarrow> PIIHit list" where
  "appendPhoneHits hits t = phone_loop hits (FindAllStringIndex phonePattern t)"

definition hit_less :: "PIIHit \<Rightarrow> PIIHit \<Rightarrow> bool" where
  "hit_less a b = (if ph_Start a \<noteq> ph_Start b then ph_Start a < ph_Start b else ph_End a < ph_End b)"

definition Detect :: "string \<Rightarrow> PIIHit list" where
  "Detect t =
     (let hits = appendRegexHits [] PIIEmail emailPattern t;
          hits = appendCreditCardHits hits t;
          hits = appendPhoneHits hits t;
          hits = appendRegexHits hits PIIAPIKeyLike apiKeyPattern t
      in SliceStable hit_less hits)"

interpretation by_span: comparator hit_less
  by unfold_locales (auto simp: hit_less_def split: if_splits)

fun hit_types_loop :: "string set \<Rightarrow> PIIHit list \<Rightarrow> string list" where
  "hit_types_loop seen [] = []"
| "hit_types_loop seen (h # hs) =
     (if ph_Type h \<in> seen then hit_types_loop seen hs
      else ph_Type h # hit_types_loop (insert (ph_Type h) seen) hs)"

definition HitTypes :: "PIIHit list \<Rightarrow> string list" where
  "HitTypes hits = sort (hit_types_loop {} hits)"

section \<open>The redactor\<close>

text \<open>\<^verbatim>\<open>text[a:b]\<close>, which panics out of range.\<close>

definition slice :: "string \<Rightarrow> int \<Rightarrow> int \<Rightarrow> string outcome" where
  "slice t a b = (if 0 \<le> a \<and> a \<le> b \<and> b \<le> int (length t)
     then Inr (take (nat b - nat a) (drop (nat a) t)) else Inl Panic)"

definition placeholder :: "string \<Rightarrow> string" where
  "placeholder ty = ''[REDACTED:'' @ ty @ '']''"

fun merge_loop :: "PIIHit list \<Rightarrow> PIIHit list \<Rightarrow> PIIHit list" where
  "merge_loop merged [] = merged"
| "merge_loop merged (h # hs) =
     (if ph_Start h < 0 \<or> ph_End h \<le> ph_Start h then merge_loop merged hs
      else if merged = [] then merge_loop [h] hs
      else let l = last merged in
        if ph_Start h < ph_End l
        then merge_loop (if ph_End l < ph_End h then butlast merged @ [l\<lparr>ph_End := ph_End h\<rparr>] else merged) hs
        else merge_loop (merged @ [h]) hs)"

definition mergeHits :: "PIIHit list \<Rightarrow> PIIHit list" where
  "mergeHits hits = merge_loop [] hits"

fun redact_loop :: "string \<Rightarrow> int \<Rightarrow> string \<Rightarrow> PIIHit list \<Rightarrow> string outcome" where
  "redact_loop t cursor out [] = (case slice t cursor (int (length t)) of
     Inl e \<Rightarrow> Inl e | Inr s \<Rightarrow> Inr (out @ s))"
| "redact_loop t cursor out (h # hs) =
     (if ph_Start h < cursor then redact_loop t cursor out hs
      else case slice t cursor (ph_Start h) of
        Inl e \<Rightarrow> Inl e
      | Inr s \<Rightarrow> redact_loop t (ph_End h) (out @ s @ placeholder (ph_Type h)) hs)"

definition Redact :: "string \<Rightarrow> PIIHit list \<Rightarrow> string outcome" where
  "Redact t hits = (if hits = [] then Inr t else redact_loop t 0 [] (mergeHits hits))"

section \<open>The service\<close>

record CreateContentPolicyParams =
  cpp_OrgID :: uuid
  cpp_Name :: string
  cpp_PIIAction :: string

definition validAction :: "string \<Rightarrow> bool" where
  "validAction a \<longleftrightarrow> a = ''allow'' \<or> a = ''redact'' \<or> a = ''block''"

definition CreateContentPolicy :: "CreateContentPolicyParams \<Rightarrow> ContentPolicy act" where
  "CreateContentPolicy p =
     (if cpp_OrgID p = uuid_Nil then fail (ErrMsg ''org_id is required'')
      else let name = TrimSpace (cpp_Name p) in
      if name = [] then fail (ErrMsg ''name is required'')
      else if \<not> validAction (cpp_PIIAction p)
        then fail (ErrMsg ''pii_action must be allow, redact or block'')
      else andThen clock_now (\<lambda>now. andThen new_uuid (\<lambda>u.
        CreateContentPolicy_row \<lparr>cp_ID = u, cp_OrgID = cpp_OrgID p, cp_Name = name,
          cp_PiiAction = cpp_PIIAction p, cp_Status = ''active'', cp_CreatedAt = now,
          cp_UpdatedAt = now\<rparr>)))"

definition ListContentPolicies :: "uuid \<Rightarrow> ContentPolicy list act" where
  "ListContentPolicies org =
     (if org = uuid_Nil then fail (ErrMsg ''org_id is required'') else ListContentPolicies_rows org)"

text \<open>The action is returned also when there is an error, so it is part of the result.\<close>

definition ActivePIIAction :: "uuid \<Rightarrow> (string \<times> err option) act" where
  "ActivePIIAction org =
     (if org = uuid_Nil then ret (''allow'', Some (ErrMsg ''org_id is required''))
      else andThen (attempt (GetActiveContentPolicy org)) (\<lambda>r. case r of
          Inl e \<Rightarrow> ret (''allow'', if e = NoRows then None else Some e)
        | Inr item \<Rightarrow> ret (if validAction (cp_PiiAction item) then cp_PiiAction item else ''allow'', None)))"

section \<open>Completeness and bounds of the detection\<close>

lemma leftmost_least:
  assumes "leftmost r t i = Some (s, e)" and "i \<le> j" and "j < s"
  shows "ends r t j = []"
proof -
  have "first_of r t ss = Some (s, e) \<Longrightarrow> sorted_wrt (<) ss \<Longrightarrow> j \<in> set ss \<Longrightarrow> ends r t j = []" for ss
    using assms(3) first_of_Some [of r t _ s e]
    by (induction ss) (force split: list.splits)+
  moreover have "j \<in> set [i ..< Suc (length t)]"
    using assms leftmost_Some [OF assms(1)] by auto
  ultimately show ?thesis
    using assms(1) unfolding leftmost_def by (metis sorted_wrt_upt)
qed

lemma leftmost_None: "leftmost r t i = None \<Longrightarrow> i \<le> j \<Longrightarrow> j \<le> length t \<Longrightarrow> ends r t j = []"
proof -
  have "first_of r t ss = None \<Longrightarrow> j \<in> set ss \<Longrightarrow> ends r t j = []" for ss
    by (induction ss) (auto split: list.splits)
  then show "leftmost r t i = None \<Longrightarrow> i \<le> j \<Longrightarrow> j \<le> length t \<Longrightarrow> ends r t j = []"
    unfolding leftmost_def by (metis atLeastLessThan_iff le_imp_less_Suc set_upt)
qed

text \<open>The contract of a pattern that never matches the empty string.\<close>

locale consuming =
  fixes r :: re
  assumes consumes: "e \<in> set (ends r t i) \<Longrightarrow> i < e"
begin

lemma find_all_step:
  "find_all r t pos prev = (if length t < pos then []
     else case leftmost r t pos of None \<Rightarrow> []
     | Some (s, e) \<Rightarrow> (s, e) # find_all r t e (Some e))"
proof (cases "leftmost r t pos")
  case None
  then show ?thesis by (simp add: find_all.simps [of r t pos])
next
  case (Some se)
  then have "snd se \<noteq> pos"
    using leftmost_Some [of r t pos "fst se" "snd se"] consumes [of "snd se" t "fst se"] by auto
  then show ?thesis using Some by (cases se) (simp add: find_all.simps [of r t pos])
qed

lemma find_all_spans:
  "(s, e) \<in> set (find_all r t pos prev) \<Longrightarrow> pos \<le> s \<and> s < e \<and> e \<le> length t"
proof (induction "Suc (length t) - pos" arbitrary: pos prev rule: less_induct)
  case less
  show ?case
  proof (cases "leftmost r t pos")
    case None
    then show ?thesis using less.prems by (subst (asm) find_all_step) (auto split: if_splits)
  next
    case (Some se)
    obtain s1 e1 where se: "se = (s1, e1)" by fastforce
    note found = leftmost_Some [OF Some [unfolded se]]
    have e1: "s1 < e1" using found(4) by (rule consumes)
    have "(s, e) = (s1, e1) \<or> (s, e) \<in> set (find_all r t e1 (Some e1))"
      using less.prems Some se by (subst (asm) find_all_step) (auto split: if_splits)
    then show ?thesis
      using less.hyps [of e1 "Some e1"] found e1 by fastforce
  qed
qed

text \<open>No match is missed: a position where the pattern matches lies in a reported span.\<close>

lemma find_all_complete:
  "pos \<le> j \<Longrightarrow> j \<le> length t \<Longrightarrow> ends r t j \<noteq> [] \<Longrightarrow>
     \<exists>(s, e) \<in> set (find_all r t pos prev). s \<le> j \<and> j < e"
proof (induction "Suc (length t) - pos" arbitrary: pos prev rule: less_induct)
  case less
  show ?case
  proof (cases "leftmost r t pos")
    case None
    then show ?thesis using less.prems leftmost_None by blast
  next
    case (Some se)
    obtain s1 e1 where se: "se = (s1, e1)" by fastforce
    note found = leftmost_Some [OF Some [unfolded se]]
    have e1: "s1 < e1" using found(4) by (rule consumes)
    have s1: "s1 \<le> j"
      using leftmost_least [OF Some [unfolded se], of j] less.prems by (meson not_le_imp_less)
    have step: "find_all r t pos prev = (s1, e1) # find_all r t e1 (Some e1)"
      using less.prems Some se by (subst find_all_step) simp
    show ?thesis
    proof (cases "j < e1")
      case True
      then show ?thesis using s1 step by auto
    next
      case False
      then show ?thesis
        using less.hyps [of e1 "Some e1"] less.prems found e1 step by fastforce
    qed
  qed
qed

lemmas FindAll_spans = find_all_spans [where pos = 0 and prev = None, folded FindAllStringIndex_def]

lemmas FindAll_complete =
  find_all_complete [where pos = 0 and prev = None, folded FindAllStringIndex_def, simplified]

end

lemma ends_ge: "e \<in> set (ends r t i) \<Longrightarrow> i \<le> e"
proof (induction r arbitrary: i e)
  case (Seq r s)
  then show ?case by fastforce
qed (auto split: if_splits)

lemma consuming_Cls [intro]: "consuming (Cls p)"
  by unfold_locales (auto split: if_splits)

lemma consuming_Seq1: "consuming r \<Longrightarrow> consuming (Seq r s)"
  by (auto simp: consuming_def) (meson ends_ge order_less_le_trans)

lemma consuming_Seq2: "consuming s \<Longrightarrow> consuming (Seq r s)"
  by (auto simp: consuming_def) (meson ends_ge order_le_less_trans)

lemma consuming_Many: "0 < k \<Longrightarrow> consuming (Many p k)"
  by unfold_locales auto

interpretation emails: consuming emailPattern
  unfolding emailPattern_def by (intro consuming_Seq2 [OF consuming_Seq1] consuming_Many) simp

interpretation phones: consuming phonePattern
  unfolding phonePattern_def by (intro consuming_Seq2 [OF consuming_Seq1] consuming_Cls)

interpretation cards: consuming creditCardPattern
  unfolding creditCardPattern_def Let_def
  by (simp only: eval_nat_numeral times.simps) (intro consuming_Seq1 consuming_Cls)

interpretation api_keys_like: consuming apiKeyPattern
proof -
  have "consuming (Alt r s)" if "consuming r" "consuming s" for r s
    using that by (auto simp: consuming_def)
  then show "consuming apiKeyPattern"
    unfolding apiKeyPattern_def
    by (intro consuming_Seq2 [OF consuming_Seq1]) (simp add: consuming_Seq2 consuming_Many)
qed


section \<open>What the detector reports\<close>

text \<open>\<open>spans ty r t\<close>: the hits of one pattern; a hit is sound when it is a non-empty span of the text.\<close>

definition hits_of :: "string \<Rightarrow> re \<Rightarrow> string \<Rightarrow> PIIHit set" where
  "hits_of ty r t = hit_of ty ` set (FindAllStringIndex r t)"

definition hit_ok :: "string \<Rightarrow> PIIHit \<Rightarrow> bool" where
  "hit_ok t h \<longleftrightarrow> 0 \<le> ph_Start h \<and> ph_Start h < ph_End h \<and> ph_End h \<le> int (length t)"

definition overlap :: "PIIHit \<Rightarrow> PIIHit \<Rightarrow> bool" where
  "overlap a b \<longleftrightarrow> ph_Start a < ph_End b \<and> ph_Start b < ph_End a"

definition covered :: "PIIHit list \<Rightarrow> nat \<Rightarrow> bool" where
  "covered hs i \<longleftrightarrow> list_ex (\<lambda>h. ph_Start h \<le> int i \<and> int i < ph_End h) hs"

definition card_hits :: "string \<Rightarrow> PIIHit set" where
  "card_hits t = hit_of PIICreditCardLike ` {m \<in> set (FindAllStringIndex creditCardPattern t). card_like t m}"

lemmas pii_types = PIIEmail_def PIIPhone_def PIICreditCardLike_def PIIAPIKeyLike_def

lemma hit_of_simps [simp]:
  "ph_Type (hit_of ty m) = ty" "ph_Start (hit_of ty m) = int (fst m)" "ph_End (hit_of ty m) = int (snd m)"
  by (simp_all add: hit_of_def)

lemma phone_loop_set:
  "set (phone_loop hits ms) = set hits \<union> hit_of PIIPhone `
     {m \<in> set ms. \<not> overlapsType hits (int (fst m)) (int (snd m)) PIICreditCardLike}"
proof (induction ms arbitrary: hits)
  case (Cons m ms)
  have "overlapsType (hits @ [hit_of PIIPhone n]) a b PIICreditCardLike = overlapsType hits a b PIICreditCardLike"
    for n a b by (simp add: overlapsType_def pii_types)
  then show ?case using Cons by auto
qed simp

lemma Detect_set:
  "set (Detect t) = hits_of PIIEmail emailPattern t \<union> hits_of PIIAPIKeyLike apiKeyPattern t \<union> card_hits t
     \<union> {p \<in> hits_of PIIPhone phonePattern t. \<forall>c \<in> card_hits t. \<not> overlap p c}"
proof -
  let ?before = "appendCreditCardHits (appendRegexHits [] PIIEmail emailPattern t) t"
  have cards: "overlapsType ?before a b PIICreditCardLike \<longleftrightarrow>
      (\<exists>c \<in> card_hits t. a < ph_End c \<and> ph_Start c < b)" for a b
  proof -
    have "set ?before = hits_of PIIEmail emailPattern t \<union> card_hits t"
      by (auto simp: appendCreditCardHits_def appendRegexHits_def hits_of_def card_hits_def)
    moreover have "ph_Type h \<noteq> PIICreditCardLike" if "h \<in> hits_of PIIEmail emailPattern t" for h
      using that by (auto simp: hits_of_def pii_types)
    moreover have "ph_Type h = PIICreditCardLike" if "h \<in> card_hits t" for h
      using that by (auto simp: card_hits_def)
    ultimately show ?thesis unfolding overlapsType_def list_ex_iff by blast
  qed
  have "set (appendPhoneHits ?before t) = set ?before
     \<union> {p \<in> hits_of PIIPhone phonePattern t. \<forall>c \<in> card_hits t. \<not> overlap p c}"
    unfolding appendPhoneHits_def phone_loop_set cards by (auto simp: hits_of_def overlap_def)
  then show ?thesis
    unfolding Detect_def Let_def set_SliceStable
    by (auto simp: appendRegexHits_def appendCreditCardHits_def hits_of_def card_hits_def)
qed

lemma Detect_ok: "h \<in> set (Detect t) \<Longrightarrow> hit_ok t h"
  using emails.FindAll_spans phones.FindAll_spans cards.FindAll_spans api_keys_like.FindAll_spans
  unfolding Detect_set by (fastforce simp: hits_of_def card_hits_def hit_ok_def)

lemma Detect_sorted: "sorted_wrt (\<lambda>a b. ph_Start a \<le> ph_Start b) (Detect t)"
proof -
  have "sorted_wrt (\<lambda>a b. \<not> hit_less b a) (Detect t)"
    unfolding Detect_def Let_def by (rule by_span.sorted_SliceStable)
  then show ?thesis
    by (rule sorted_wrt_mono_rel [rotated]) (auto simp: hit_less_def split: if_splits)
qed

lemma covered_iff: "covered hs i \<longleftrightarrow> (\<exists>h \<in> set hs. ph_Start h \<le> int i \<and> int i < ph_End h)"
  by (simp add: covered_def list_ex_iff)

section \<open>What the redactor keeps\<close>

datatype piece = Keep string | Mask string

primrec render :: "piece \<Rightarrow> string" where
  "render (Keep s) = s"
| "render (Mask ty) = placeholder ty"

primrec kept :: "piece \<Rightarrow> string" where
  "kept (Keep s) = s"
| "kept (Mask ty) = []"

definition mask_types :: "piece list \<Rightarrow> string set" where
  "mask_types ps = {ty. Mask ty \<in> set ps}"

definition chars_at :: "string \<Rightarrow> nat list \<Rightarrow> string" where
  "chars_at t is = map (\<lambda>i. t ! i) is"

abbreviation separated :: "PIIHit list \<Rightarrow> bool" where
  "separated hs \<equiv> sorted_wrt (\<lambda>a b. ph_End a \<le> ph_Start b) hs"

text \<open>\<open>merges t src res\<close>: \<open>res\<close> are disjoint spans in order that cover what \<open>src\<close> covers.\<close>

definition merges :: "string \<Rightarrow> PIIHit list \<Rightarrow> PIIHit list \<Rightarrow> bool" where
  "merges t src res \<longleftrightarrow> separated res \<and> list_all (hit_ok t) res \<and> covered res = covered src \<and>
     ph_Type ` set res \<subseteq> ph_Type ` set src"

lemma merges_via:
  "merges t src' res \<Longrightarrow> covered src' = covered src \<Longrightarrow> ph_Type ` set src' \<subseteq> ph_Type ` set src \<Longrightarrow>
     merges t src res"
  unfolding merges_def by (metis subset_trans)

lemma merge_loop_snoc:
  assumes "separated (m @ [l])" "list_all (hit_ok t) (m @ l # hs)"
    and "sorted_wrt (\<lambda>a b. ph_Start a \<le> ph_Start b) (l # hs)"
  shows "merges t (m @ l # hs) (merge_loop (m @ [l]) hs)"
  using assms
proof (induction hs arbitrary: m l)
  case Nil
  then show ?case by (simp add: merges_def)
next
  case (Cons h hs)
  have h: "hit_ok t h" and l: "hit_ok t l" and lh: "ph_Start l \<le> ph_Start h" using Cons.prems by auto
  have lasts: "\<forall>g \<in> set m. ph_End g \<le> ph_Start l" using Cons.prems by (simp add: sorted_wrt_append)
  consider (apart) "ph_End l \<le> ph_Start h" | (grow) "ph_Start h < ph_End l" "ph_End l < ph_End h"
    | (inside) "ph_Start h < ph_End l" "ph_End h \<le> ph_End l" by linarith
  then show ?case
  proof cases
    case apart
    have "separated ((m @ [l]) @ [h])"
      using Cons.prems(1) apart lasts lh by (auto simp: sorted_wrt_append)
    then have "merges t ((m @ [l]) @ h # hs) (merge_loop ((m @ [l]) @ [h]) hs)"
      by (rule Cons.IH) (use Cons.prems in auto)
    moreover have "merge_loop (m @ [l]) (h # hs) = merge_loop ((m @ [l]) @ [h]) hs"
      using apart h by (simp add: hit_ok_def)
    ultimately show ?thesis by simp
  next
    case grow
    let ?l = "l\<lparr>ph_End := ph_End h\<rparr>"
    have "separated (m @ [?l])" using Cons.prems(1) by (simp add: sorted_wrt_append)
    then have "merges t (m @ ?l # hs) (merge_loop (m @ [?l]) hs)"
      by (rule Cons.IH) (use Cons.prems grow h l in \<open>auto simp: hit_ok_def\<close>)
    moreover have "covered (m @ ?l # hs) = covered (m @ l # h # hs)"
      using grow lh by (intro ext) (auto simp: covered_iff)
    then have "merges t (m @ l # h # hs) (merge_loop (m @ [?l]) hs)"
      by (rule merges_via [OF calculation(1)]) auto
    moreover have "merge_loop (m @ [l]) (h # hs) = merge_loop (m @ [?l]) hs"
      using grow h by (simp add: hit_ok_def)
    ultimately show ?thesis by simp
  next
    case inside
    have "merges t (m @ l # hs) (merge_loop (m @ [l]) hs)"
      using Cons.prems(1) by (rule Cons.IH) (use Cons.prems in auto)
    moreover have "covered (m @ l # hs) = covered (m @ l # h # hs)"
      using inside lh by (intro ext) (auto simp: covered_iff)
    then have "merges t (m @ l # h # hs) (merge_loop (m @ [l]) hs)"
      by (rule merges_via [OF calculation(1)]) auto
    moreover have "merge_loop (m @ [l]) (h # hs) = merge_loop (m @ [l]) hs"
      using inside h by (simp add: hit_ok_def)
    ultimately show ?thesis by simp
  qed
qed

lemma mergeHits_spec:
  assumes "list_all (hit_ok t) hs" and "sorted_wrt (\<lambda>a b. ph_Start a \<le> ph_Start b) hs"
  shows "merges t hs (mergeHits hs)"
proof (cases hs)
  case Nil
  then show ?thesis by (simp add: mergeHits_def merges_def)
next
  case (Cons h hs')
  then have "mergeHits hs = merge_loop ([] @ [h]) hs'"
    using assms by (simp add: mergeHits_def hit_ok_def)
  then show ?thesis using merge_loop_snoc [of "[]" h t hs'] assms Cons by simp
qed

lemma chars_at_interval: "b \<le> length t \<Longrightarrow> chars_at t [a ..< b] = take (b - a) (drop a t)"
  unfolding chars_at_def by (intro nth_equalityI) auto

lemma uncovered_split:
  assumes "separated (h # hs)" "hit_ok t h" "\<forall>g \<in> set hs. hit_ok t g" "int c \<le> ph_Start h"
  shows "filter (\<lambda>i. \<not> covered (h # hs) i) [c ..< length t]
    = [c ..< nat (ph_Start h)] @ filter (\<lambda>i. \<not> covered hs i) [nat (ph_End h) ..< length t]"
proof -
  let ?s = "nat (ph_Start h)" and ?e = "nat (ph_End h)"
  have "c \<le> ?s" "?s \<le> ?e" "?e \<le> length t" using assms(2,4) by (auto simp: hit_ok_def)
  then have "[c ..< length t] = [c ..< ?e] @ [?e ..< length t]" "[c ..< ?e] = [c ..< ?s] @ [?s ..< ?e]"
    by (metis le_add_diff_inverse le_trans upt_add_eq_append)+
  then have sp: "[c ..< length t] = [c ..< ?s] @ [?s ..< ?e] @ [?e ..< length t]" by simp
  have before: "\<not> covered (h # hs) i" if "i < ?s" for i
  proof -
    have "ph_Start h \<le> ph_Start g" if "g \<in> set hs" for g
      using assms(1,2) that by (force simp: hit_ok_def)
    then show ?thesis using that by (fastforce simp: covered_iff)
  qed
  have "filter (\<lambda>i. \<not> covered (h # hs) i) [c ..< nat (ph_Start h)] = [c ..< nat (ph_Start h)]"
    using before by (intro filter_True) auto
  moreover have "filter (\<lambda>i. \<not> covered (h # hs) i) [nat (ph_Start h) ..< nat (ph_End h)] = []"
    using assms by (intro filter_False) (auto simp: covered_iff hit_ok_def)
  moreover have "filter (\<lambda>i. \<not> covered (h # hs) i) [nat (ph_End h) ..< length t] =
      filter (\<lambda>i. \<not> covered hs i) [nat (ph_End h) ..< length t]"
    by (intro filter_cong) (auto simp: covered_iff)
  ultimately show ?thesis by (simp add: sp)
qed

lemma redact_loop_spec:
  assumes "separated hs" "\<forall>h \<in> set hs. hit_ok t h" "\<forall>h \<in> set hs. int c \<le> ph_Start h" "c \<le> length t"
  shows "\<exists>ps. redact_loop t (int c) out hs = Inr (out @ concat (map render ps)) \<and>
    concat (map kept ps) = chars_at t (filter (\<lambda>i. \<not> covered hs i) [c ..< length t]) \<and>
    mask_types ps = ph_Type ` set hs"
  using assms
proof (induction hs arbitrary: c out)
  case Nil
  show ?case
    using Nil chars_at_interval [of "length t" t c]
    by (intro exI [of _ "[Keep (drop c t)]"]) (auto simp: slice_def covered_def mask_types_def)
next
  case (Cons h hs)
  let ?s = "nat (ph_Start h)" and ?e = "nat (ph_End h)"
  have h: "hit_ok t h" using Cons.prems by simp
  have ee: "int ?e = ph_End h" "?e \<le> length t" using h by (auto simp: hit_ok_def)
  define seg where "seg = take (?s - c) (drop c t)"
  obtain ps where ps: "redact_loop t (int ?e) (out @ seg @ placeholder (ph_Type h)) hs
        = Inr ((out @ seg @ placeholder (ph_Type h)) @ concat (map render ps))"
      "concat (map kept ps) = chars_at t (filter (\<lambda>i. \<not> covered hs i) [?e ..< length t])"
      "mask_types ps = ph_Type ` set hs"
    using Cons.IH [of ?e "out @ seg @ placeholder (ph_Type h)"] Cons.prems(1,2) ee by auto
  have "slice t (int c) (ph_Start h) = Inr seg"
    using Cons.prems h by (auto simp: slice_def seg_def hit_ok_def)
  then have "redact_loop t (int c) out (h # hs)
      = Inr (out @ concat (map render (Keep seg # Mask (ph_Type h) # ps)))"
    using ps(1) Cons.prems(3) ee by simp
  moreover have "chars_at t [c ..< ?s] = seg"
    unfolding seg_def using h by (intro chars_at_interval) (auto simp: hit_ok_def)
  then have "concat (map kept (Keep seg # Mask (ph_Type h) # ps))
      = chars_at t (filter (\<lambda>i. \<not> covered (h # hs) i) [c ..< length t])"
    using uncovered_split [of h hs t c] Cons.prems ps(2) by (simp add: chars_at_def)
  moreover have "mask_types (Keep seg # Mask (ph_Type h) # ps) = ph_Type ` set (h # hs)"
    using ps(3) by (auto simp: mask_types_def)
  ultimately show ?case by blast
qed

lemma hit_types_loop_set: "set (hit_types_loop seen hs) = ph_Type ` set hs - seen"
  by (induction seen hs rule: hit_types_loop.induct) auto

lemma HitTypes_set: "set (HitTypes hs) = ph_Type ` set hs"
  by (simp add: HitTypes_def hit_types_loop_set)


section \<open>Luhn's check\<close>

definition luhn_weight :: "bool \<Rightarrow> char \<Rightarrow> int" where
  "luhn_weight dbl c = (let v = int (digit_value c)
     in if dbl then (if 2 * v > 9 then 2 * v - 9 else 2 * v) else v)"

lemma luhn_loop_acc: "luhn_loop cs dbl acc = acc + luhn_loop cs dbl 0"
proof (induction cs arbitrary: dbl acc)
  case (Cons c cs)
  show ?case
    using Cons [of "\<not> dbl" "acc + luhn_weight dbl c"] Cons [of "\<not> dbl" "luhn_weight dbl c"]
    by (simp add: luhn_weight_def Let_def)
qed simp

lemma luhn_loop_append:
  "luhn_loop (xs @ ys) dbl 0 = luhn_loop xs dbl 0 + luhn_loop ys (dbl \<noteq> odd (length xs)) 0"
proof (induction xs arbitrary: dbl)
  case (Cons c xs)
  then show ?case
    using luhn_loop_acc [of "xs @ ys" "\<not> dbl" "luhn_weight dbl c"]
      luhn_loop_acc [of xs "\<not> dbl" "luhn_weight dbl c"]
    by (simp add: luhn_weight_def Let_def) (smt (verit))
qed simp

lemma luhn_weight_inj:
  assumes "is_digit c" "is_digit d" "luhn_weight dbl c mod 10 = luhn_weight dbl d mod 10"
  shows "c = d"
proof -
  have le: "digit_value c \<le> 9" "digit_value d \<le> 9"
    using assms by (auto simp: is_digit_def digit_value_def)
  have "digit_value c = digit_value d"
    using assms(3) le unfolding luhn_weight_def Let_def
    by (auto split: if_splits) presburger+
  then have "(of_char c :: nat) = of_char d"
    using assms(1,2) unfolding is_digit_def digit_value_def by linarith
  then show ?thesis by simp
qed

section \<open>Properties\<close>



text \<open>
  Luhn's check detects every error in a single digit: of two digit strings that differ in
  one place at most one is accepted.
\<close>

theorem luhn_single_digit:
  assumes "is_digit c" "is_digit d" "c \<noteq> d" "luhnValid (xs @ c # ys)"
  shows "\<not> luhnValid (xs @ d # ys)"
proof -
  define dbl where "dbl = odd (length ys)"
  have sum: "luhn_loop (rev (xs @ e # ys)) False 0 = luhn_loop (rev ys) False 0 + luhn_weight dbl e
      + luhn_loop (rev xs) (\<not> dbl) 0" for e
    using luhn_loop_append [of "rev ys" "e # rev xs" False] luhn_loop_acc [of "rev xs" "\<not> dbl" "luhn_weight dbl e"]
    by (simp add: dbl_def luhn_weight_def Let_def)
  have "luhn_weight dbl c mod 10 \<noteq> luhn_weight dbl d mod 10"
    using luhn_weight_inj assms by blast
  then show ?thesis
    using assms(4) unfolding luhnValid_def sum by (smt (verit) mod_diff_cong add_diff_cancel_right')
qed


theorem luhn_single_digit_witness:
  "luhnValid ''4111111111111111'' \<and> \<not> luhnValid ''4111111141111111''"
proof -
  have "luhnValid ''4111111111111111''" by code_simp
  then show ?thesis
    using luhn_single_digit [of "CHR ''1''" "CHR ''4''" "''41111111''" "''1111111''"]
    by (simp add: is_digit_def)
qed

text \<open>
  A phone number right after a card number survives: the match of the phone pattern spans both
  numbers, overlaps the card and is dropped as a whole.
\<close>

lemma rep_numeral [simp]:
  "times (numeral k) r = Seq r (times (pred_numeral k) r)"
  "up_to (numeral k) r = optional (Seq r (up_to (pred_numeral k) r))"
  by (simp_all add: numeral_eq_Suc)

lemmas re_eval = FindAllStringIndex_def find_all.simps leftmost_def phonePattern_def
  creditCardPattern_def emailPattern_def apiKeyPattern_def optional_def one_of_def lit_def
  token_char_def is_letter_def is_digit_def lower_char_def word_at_def is_word_def
  regexp_space_def Let_def upt_rec

definition card_then_phone :: string where
  "card_then_phone = ''4111111111111111 (555) 123-4567''"

lemma card_then_phone_matches:
  "FindAllStringIndex phonePattern card_then_phone = [(0, 31)]"
  "FindAllStringIndex creditCardPattern card_then_phone = [(0, 17)]"
  "FindAllStringIndex emailPattern card_then_phone = []"
  "FindAllStringIndex apiKeyPattern card_then_phone = []"
  by (simp_all add: card_then_phone_def re_eval)

lemma phone_after_card_kept:
  "Redact card_then_phone (Detect card_then_phone) = Inr ''[REDACTED:credit_card_like](555) 123-4567''"
proof -
  have "card_like card_then_phone (0, 17)"
    by (simp add: card_then_phone_def card_like_def luhnValid_def digitsOnly_def is_digit_def digit_value_def)
  then have "Detect card_then_phone = [hit_of PIICreditCardLike (0, 17)]"
    by (simp add: Detect_def appendRegexHits_def appendCreditCardHits_def appendPhoneHits_def
        card_then_phone_matches overlapsType_def)
  then show ?thesis
    by (simp add: Redact_def mergeHits_def slice_def placeholder_def pii_types card_then_phone_def)
qed

lemma newest_row_first:
  assumes "x \<in> set xs" and "\<forall>y \<in> set xs. y = x \<or> tf y < tf x"
  shows "first_row (SliceStable (newest_first tf idf) xs) = Inr x"
proof (cases "SliceStable (newest_first tf idf) xs")
  case Nil
  then show ?thesis using assms(1) by (metis SliceStable_eq_Nil empty_iff empty_set)
next
  case (Cons y ys)
  have "\<not> newest_first tf idf x y" using newest.first_is_minimal [OF Cons assms(1)] .
  moreover have "y \<in> set xs" using Cons by (metis list.set_intros(1) set_SliceStable)
  ultimately have "y = x" using assms(2) by (auto simp: newest_first_def)
  then show ?thesis using Cons by simp
qed

text \<open>
  A content policy takes effect as soon as it is created: when its creation instant is later
  than those of the organization's other policies, the active action of the organization is the
  action it was created with, and every refused creation leaves the database as it was.
\<close>

theorem create_policy_takes_effect:
  assumes "healthy E"
    and "list_all (\<lambda>x. cp_CreatedAt x < env_time E (w_step w)) (content_policies (w_db w))"
  shows "case CreateContentPolicy p E w of
      (Inr r, w') \<Rightarrow> ActivePIIAction (cpp_OrgID p) E w' = (Inr (cpp_PIIAction p, None), tick w')
    | (Inl e, w') \<Rightarrow> w_db w' = w_db w"
proof (cases "CreateContentPolicy p E w")
  case (Pair r w')
  show ?thesis
  proof (cases r)
    case (Inl e)
    then show ?thesis using Pair
      by (auto simp: CreateContentPolicy_def CreateContentPolicy_row_def sql_insert_def Let_def act_simps
          split: if_splits option.splits)
  next
    case (Inr row)
    then have ok: "cpp_OrgID p \<noteq> uuid_Nil" "validAction (cpp_PIIAction p)"
      using Pair by (auto simp: CreateContentPolicy_def Let_def act_simps split: if_splits)
    then have row: "cp_OrgID row = cpp_OrgID p" "cp_PiiAction row = cpp_PIIAction p"
        "cp_Status row = ''active''" "cp_CreatedAt row = env_time E (w_step w)"
        "content_policies (w_db w') = content_policies (w_db w) @ [row]"
      using Pair Inr
      by (auto simp: CreateContentPolicy_def CreateContentPolicy_row_def sql_insert_def Let_def act_simps
          split: if_splits option.splits)
    have "first_row (SliceStable (newest_first cp_CreatedAt cp_ID)
        (filter (\<lambda>r. cp_OrgID r = cpp_OrgID p \<and> cp_Status r = ''active'') (content_policies (w_db w')))) = Inr row"
      using assms(2) row by (intro newest_row_first) (auto simp: list_all_iff)
    then have "GetActiveContentPolicy (cpp_OrgID p) E w' = (Inr row, tick w')"
      using assms(1) by (simp add: GetActiveContentPolicy_def act_simps)
    then show ?thesis
      using Pair Inr ok row by (simp add: ActivePIIAction_def act_simps)
  qed
qed

definition demo_policy_params :: CreateContentPolicyParams where
  "demo_policy_params = \<lparr>cpp_OrgID = 1, cpp_Name = '' pii '', cpp_PIIAction = ''redact''\<rparr>"

lemma demo_policy_created: "is_ok (fst (CreateContentPolicy demo_policy_params demo_env (world_of demo_db)))"
  by code_simp

theorem create_policy_takes_effect_witness:
  "\<exists>r w'. CreateContentPolicy demo_policy_params demo_env (world_of demo_db) = (Inr r, w') \<and>
     ActivePIIAction 1 demo_env w' = (Inr (''redact'', None), tick w')"
proof -
  have "list_all (\<lambda>x. cp_CreatedAt x < env_time demo_env (w_step (world_of demo_db)))
      (content_policies (w_db (world_of demo_db)))"
    by (simp add: demo_db_def empty_db_def)
  then show ?thesis
    using create_policy_takes_effect [OF healthy_demo, of "world_of demo_db" demo_policy_params]
      demo_policy_created
    by (cases "CreateContentPolicy demo_policy_params demo_env (world_of demo_db)")
      (auto simp: demo_policy_params_def split: sum.splits)
qed

end
