(* ===== verification/Auth.thy ===== *)
theory Auth
  imports Samples
begin

text \<open>
  Credentials (\<^verbatim>\<open>internal/auth\<close>): keyed token hashes with rotation, the role and scope tables, API
  keys, their cost quotas and admin tokens. \<^verbatim>\<open>HMAC-SHA256\<close> is the parameter \<open>mac\<close> (secret, then
  token, giving the hexadecimal digest). A key ring is \<open>None\<close> when its constructor failed, which
  the services do not check; using it is then a nil dereference. The iteration order of the
  ring's map is the order of the list, so that theorems about every list hold for every order.
\<close>

section \<open>Token hashes\<close>

type_synonym mac_fun = "string \<Rightarrow> string \<Rightarrow> string"

record TokenHashKeyRing =
  hk_activeVersion :: int
  hk_hashers :: "(int \<times> string) list"

fun check_secrets :: "(int \<times> string) list \<Rightarrow> err option" where
  "check_secrets [] = None"
| "check_secrets ((version, secret) # rest) =
     (if version \<le> 0 then Some (ErrMsg ''token hash secret version must be greater than 0'')
      else if secret = [] then Some (ErrMsg ''token hash secret version is empty'')
      else check_secrets rest)"

definition NewTokenHashKeyRing :: "int \<Rightarrow> (int \<times> string) list \<Rightarrow> TokenHashKeyRing outcome" where
  "NewTokenHashKeyRing activeVersion secrets =
     (if activeVersion \<le> 0 then Inl (ErrMsg ''active token hash secret version must be greater than 0'')
      else if secrets = [] then Inl (ErrMsg ''token hash keyring must contain at least one secret'')
      else case check_secrets secrets of
        Some e \<Rightarrow> Inl e
      | None \<Rightarrow>
          if map_of secrets activeVersion = None
          then Inl (ErrMsg ''active token hash secret version is not present in keyring'')
          else Inr \<lparr>hk_activeVersion = activeVersion, hk_hashers = secrets\<rparr>)"

definition NewSingleTokenHashKeyRing :: "string \<Rightarrow> TokenHashKeyRing outcome" where
  "NewSingleTokenHashKeyRing secret = NewTokenHashKeyRing 1 [(1, secret)]"

definition active_secret :: "TokenHashKeyRing \<Rightarrow> string" where
  "active_secret r = (case map_of (hk_hashers r) (hk_activeVersion r) of Some s \<Rightarrow> s | None \<Rightarrow> [])"

definition token_Hash :: "mac_fun \<Rightarrow> TokenHashKeyRing option \<Rightarrow> string \<Rightarrow> string outcome" where
  "token_Hash mac ring token = (case ring of None \<Rightarrow> Inl Panic | Some r \<Rightarrow> Inr (mac (active_secret r) token))"

definition CandidateHashes :: "mac_fun \<Rightarrow> TokenHashKeyRing option \<Rightarrow> string \<Rightarrow> string list outcome" where
  "CandidateHashes mac ring token = (case ring of
     None \<Rightarrow> Inl Panic
   | Some r \<Rightarrow> Inr (map (\<lambda>(v, secret). mac secret token) (hk_hashers r)))"

definition token_Matches :: "mac_fun \<Rightarrow> TokenHashKeyRing option \<Rightarrow> string \<Rightarrow> string \<Rightarrow> bool outcome" where
  "token_Matches mac ring token storedHash = (case CandidateHashes mac ring token of
     Inl e \<Rightarrow> Inl e
   | Inr hs \<Rightarrow> Inr (list_ex (\<lambda>h. h = storedHash) hs))"

definition generateToken :: "string \<Rightarrow> string act" where
  "generateToken prefix = andThen random_token (\<lambda>r. ret (prefix @ r))"

definition visibleCredentialPrefix :: "string \<Rightarrow> string \<Rightarrow> string" where
  "visibleCredentialPrefix token plainPrefix =
     (let maxLen = length plainPrefix + 8 in if length token \<le> maxLen then token else take maxLen token)"

text \<open>The loop of the three \<^verbatim>\<open>Authenticate\<close> methods over the candidate hashes.\<close>

fun candidate_loop :: "(string \<Rightarrow> 'r act) \<Rightarrow> string list \<Rightarrow> 'r option act" where
  "candidate_loop get [] = ret None"
| "candidate_loop get (h # hs) = andThen (attempt (get h)) (\<lambda>r. case r of
       Inr item \<Rightarrow> ret (Some item)
     | Inl e \<Rightarrow> if e = NoRows then candidate_loop get hs else fail e)"

section \<open>Roles and scopes\<close>

record AdminTokenPrincipal =
  atp_OrgID :: uuid
  atp_AdminTokenID :: uuid
  atp_ActorType :: string
  atp_Role :: string
  atp_UserID :: "uuid option"
  atp_MembershipID :: "uuid option"
  atp_SessionID :: "uuid option"
  atp_UserEmail :: string
  atp_DisplayName :: string
  atp_Scopes :: "string list"

record APIKeyPrincipal =
  kp_OrgID :: uuid
  kp_APIKeyID :: uuid
  kp_Scopes :: "string list"
  kp_RPMLimit :: int

definition ValidRole :: "string \<Rightarrow> bool" where
  "ValidRole role \<longleftrightarrow> role = ''owner'' \<or> role = ''admin'' \<or> role = ''viewer''"

fun scopes_loop :: "string list \<Rightarrow> string \<Rightarrow> bool" where
  "scopes_loop [] required = False"
| "scopes_loop (s # ss) required =
     (let scope = TrimSpace s in
      if scope = [] then scopes_loop ss required
      else if scope = ''*'' \<or> scope = required then True
      else if HasSuffix scope ''*'' then
        (let prefix = TrimSuffix scope ''*''
         in if prefix \<noteq> [] \<and> HasPrefix required prefix then True else scopes_loop ss required)
      else scopes_loop ss required)"

definition scopesAllow :: "string list \<Rightarrow> string \<Rightarrow> bool" where
  "scopesAllow scopes required = (let required = TrimSpace required in
     if required = [] then False else scopes_loop scopes required)"

definition IsServiceToken :: "AdminTokenPrincipal \<Rightarrow> bool" where
  "IsServiceToken p \<longleftrightarrow> atp_ActorType p = [] \<or> atp_ActorType p = ''service_token''"

definition IsUser :: "AdminTokenPrincipal \<Rightarrow> bool" where
  "IsUser p \<longleftrightarrow> atp_ActorType p = ''user''"

definition admin_HasScope :: "AdminTokenPrincipal \<Rightarrow> string \<Rightarrow> bool" where
  "admin_HasScope p scope = scopesAllow (atp_Scopes p) scope"

definition hasAnyScope :: "AdminTokenPrincipal \<Rightarrow> string list \<Rightarrow> bool" where
  "hasAnyScope p scopes = list_ex (admin_HasScope p) scopes"

definition CanManageMembers :: "AdminTokenPrincipal \<Rightarrow> bool" where
  "CanManageMembers p = (if IsServiceToken p then admin_HasScope p ''admin:members:manage''
     else atp_Role p = ''owner'')"

definition CanViewMembers :: "AdminTokenPrincipal \<Rightarrow> bool" where
  "CanViewMembers p = (if IsServiceToken p then hasAnyScope p [''admin:members:view'', ''admin:members:manage'']
     else atp_Role p = ''owner'' \<or> atp_Role p = ''admin'')"

definition CanManageTokens :: "AdminTokenPrincipal \<Rightarrow> bool" where
  "CanManageTokens p = (if IsServiceToken p then admin_HasScope p ''admin:tokens:manage''
     else atp_Role p = ''owner'')"

definition CanManageConfiguration :: "AdminTokenPrincipal \<Rightarrow> bool" where
  "CanManageConfiguration p = (if IsServiceToken p then admin_HasScope p ''admin:configuration:manage''
     else atp_Role p = ''owner'' \<or> atp_Role p = ''admin'')"

definition CanView :: "AdminTokenPrincipal \<Rightarrow> bool" where
  "CanView p = (if IsServiceToken p then admin_HasScope p ''admin:view''
     else atp_Role p = ''owner'' \<or> atp_Role p = ''admin'' \<or> atp_Role p = ''viewer'')"

definition api_key_HasScope :: "APIKeyPrincipal \<Rightarrow> string \<Rightarrow> bool" where
  "api_key_HasScope p scope = (let required = TrimSpace scope in
     if required = [] then False else list_ex (\<lambda>item. TrimSpace item = required) (kp_Scopes p))"

text \<open>The scope loops of both services: trim, check, drop repetitions, keep the first order.\<close>

fun scope_loop :: "(string \<Rightarrow> bool) \<Rightarrow> string \<Rightarrow> string set \<Rightarrow> string list \<Rightarrow> string list outcome" where
  "scope_loop allowed msg seen [] = Inr []"
| "scope_loop allowed msg seen (s # ss) =
     (let scope = TrimSpace s in
      if \<not> allowed scope then Inl (ErrMsg msg)
      else if scope \<in> seen then scope_loop allowed msg seen ss
      else case scope_loop allowed msg (insert scope seen) ss of
        Inl e \<Rightarrow> Inl e
      | Inr r \<Rightarrow> Inr (scope # r))"

definition normalizeAPIKeyScopes :: "string list \<Rightarrow> string list outcome" where
  "normalizeAPIKeyScopes scopes = (if scopes = [] then Inr [''chat.completions'']
     else scope_loop (\<lambda>s. s = ''chat.completions'') ''unsupported api key scope'' {} scopes)"

definition admin_scopes :: "string list" where
  "admin_scopes = [''admin:*'', ''admin:members:manage'', ''admin:members:view'', ''admin:tokens:manage'',
     ''admin:configuration:manage'', ''admin:view'']"

definition normalizeAdminTokenScopes :: "string list \<Rightarrow> string list outcome" where
  "normalizeAdminTokenScopes scopes = (if scopes = [] then Inr [''admin:*'']
     else scope_loop (\<lambda>s. s \<in> set admin_scopes) ''unsupported admin token scope'' {} scopes)"

section \<open>API keys\<close>

definition quotaAction :: "string \<Rightarrow> string" where
  "quotaAction action = (if action = ''warn'' then ''warn'' else ''block'')"

definition validateQuotaLimit :: "string \<Rightarrow> int option \<Rightarrow> unit outcome" where
  "validateQuotaLimit name value = (case value of
     Some v \<Rightarrow> if v < 0 then Inl (ErrMsg (name @ '' must be non-negative'')) else Inr ()
   | None \<Rightarrow> Inr ())"

definition validateQuotaAction :: "string \<Rightarrow> string outcome" where
  "validateQuotaAction action = (if action = [] then Inr ''block''
     else if action \<noteq> ''warn'' \<and> action \<noteq> ''block'' then Inl (ErrMsg ''quota_action must be warn or block'')
     else Inr action)"

record CreateAPIKeyParams =
  ckp_OrgID :: uuid
  ckp_Name :: string
  ckp_Scopes :: "string list"
  ckp_RPMLimit :: int
  ckp_DailyCostLimitMicroUSD :: "int option"
  ckp_MonthlyCostLimitMicroUSD :: "int option"
  ckp_QuotaAction :: string
  ckp_ExpiresAt :: "time option"

definition APIKeyPlainPrefix :: string where "APIKeyPlainPrefix = ''llmgw_live_''"

definition CreateAPIKey :: "mac_fun \<Rightarrow> TokenHashKeyRing option \<Rightarrow> CreateAPIKeyParams \<Rightarrow> (ApiKey \<times> string) act" where
  "CreateAPIKey mac ring p =
     (let name = TrimSpace (ckp_Name p) in
      if name = [] then fail (ErrMsg ''api key name is required'')
      else if ckp_OrgID p = uuid_Nil then fail (ErrMsg ''org_id is required'')
      else if ckp_RPMLimit p \<le> 0 then fail (ErrMsg ''rpm_limit must be greater than zero'')
      else
      andThen (lift (validateQuotaLimit ''daily_cost_limit_micro_usd'' (ckp_DailyCostLimitMicroUSD p))) (\<lambda>_.
      andThen (lift (validateQuotaLimit ''monthly_cost_limit_micro_usd'' (ckp_MonthlyCostLimitMicroUSD p))) (\<lambda>_.
      andThen (lift (validateQuotaAction (ckp_QuotaAction p))) (\<lambda>action.
      andThen (lift (normalizeAPIKeyScopes (ckp_Scopes p))) (\<lambda>scopes.
      andThen (generateToken APIKeyPlainPrefix) (\<lambda>key.
      andThen clock_now (\<lambda>now.
      andThen new_uuid (\<lambda>u.
      andThen (lift (token_Hash mac ring key)) (\<lambda>hash.
      andThen (CreateAPIKey_row \<lparr>ak_ID = u, ak_OrgID = ckp_OrgID p, ak_Name = name,
          ak_KeyPrefix = visibleCredentialPrefix key APIKeyPlainPrefix, ak_KeyHash = hash, ak_Scopes = scopes,
          ak_Status = ''active'', ak_RpmLimit = ckp_RPMLimit p, ak_ExpiresAt = ckp_ExpiresAt p,
          ak_LastUsedAt = None, ak_CreatedAt = now, ak_RevokedAt = None,
          ak_DailyCostLimitMicroUsd = ckp_DailyCostLimitMicroUSD p,
          ak_MonthlyCostLimitMicroUsd = ckp_MonthlyCostLimitMicroUSD p, ak_QuotaAction = action\<rparr>) (\<lambda>apiKey.
      ret (apiKey, key)))))))))))"

definition RevokeAPIKey :: "uuid \<Rightarrow> uuid \<Rightarrow> ApiKey act" where
  "RevokeAPIKey orgID apiKeyID = andThen clock_now (\<lambda>now.
     andThen (attempt (RevokeAPIKey_row orgID apiKeyID now)) (\<lambda>r. case r of
       Inl e \<Rightarrow> fail (if e = NoRows then ErrAPIKeyNotFound else e)
     | Inr apiKey \<Rightarrow> ret apiKey))"

text \<open>\<^verbatim>\<open>!t.After(now)\<close>.\<close>

definition expired :: "time option \<Rightarrow> time \<Rightarrow> bool" where
  "expired expires now = (case expires of None \<Rightarrow> False | Some t \<Rightarrow> \<not> now < t)"

definition principal_of :: "ApiKey \<Rightarrow> APIKeyPrincipal" where
  "principal_of k = \<lparr>kp_OrgID = ak_OrgID k, kp_APIKeyID = ak_ID k, kp_Scopes = ak_Scopes k, kp_RPMLimit = ak_RpmLimit k\<rparr>"

definition APIKey_Authenticate :: "mac_fun \<Rightarrow> TokenHashKeyRing option \<Rightarrow> string \<Rightarrow> APIKeyPrincipal act" where
  "APIKey_Authenticate mac ring key =
     (let key = TrimSpace key in
      if key = [] then fail ErrInvalidAPIKey else
      andThen (lift (CandidateHashes mac ring key)) (\<lambda>hashes.
      andThen (candidate_loop GetAPIKeyByHash hashes) (\<lambda>found. case found of
        None \<Rightarrow> fail ErrInvalidAPIKey
      | Some apiKey \<Rightarrow>
          if ak_Status apiKey \<noteq> ''active'' then fail ErrInvalidAPIKey else
          andThen clock_now (\<lambda>now.
          if expired (ak_ExpiresAt apiKey) now then fail ErrInvalidAPIKey else
          andThen (TouchAPIKeyLastUsed (ak_OrgID apiKey) (ak_ID apiKey) now) (\<lambda>_.
          ret (principal_of apiKey))))))"

section \<open>Cost quotas of API keys\<close>

record APIKeyQuotaStatus =
  qs_APIKey :: ApiKey
  qs_Period :: string
  qs_LimitMicroUSD :: int
  qs_UsedMicroUSD :: int
  qs_RemainingMicroUSD :: int
  qs_Exceeded :: bool
  qs_WindowStart :: time
  qs_WindowEnd :: time

record APIKeyQuotaCheckResult =
  qc_Allowed :: bool
  qc_Exceeded :: bool
  qc_Warning :: bool
  qc_Action :: string
  qc_Status :: "APIKeyQuotaStatus option"

definition quota_window :: "time \<Rightarrow> string \<Rightarrow> (time \<times> time) outcome" where
  "quota_window now period =
     (if period = ''daily'' then
        (let start = time_Date (time_Year now) (time_Month now) (time_Day now)
         in Inr (start, AddDate start 0 0 1))
      else if period = ''monthly'' then
        (let start = time_Date (time_Year now) (time_Month now) 1
         in Inr (start, AddDate start 0 1 0))
      else Inl (ErrMsg ''unsupported api key quota period''))"

definition statusForPeriod :: "ApiKey \<Rightarrow> string \<Rightarrow> int \<Rightarrow> APIKeyQuotaStatus act" where
  "statusForPeriod apiKey period limit =
     andThen clock_now (\<lambda>now.
     andThen (lift (quota_window now period)) (\<lambda>(start, end').
     andThen (GetAPIKeyCostUsedAmount (ak_OrgID apiKey) (ak_ID apiKey) start end') (\<lambda>used.
     let remaining = wrap64 (limit - used) in
     ret \<lparr>qs_APIKey = apiKey, qs_Period = period, qs_LimitMicroUSD = limit, qs_UsedMicroUSD = used,
       qs_RemainingMicroUSD = (if remaining < 0 then 0 else remaining), qs_Exceeded = (limit \<le> used),
       qs_WindowStart = start, qs_WindowEnd = end'\<rparr>)))"

fun quota_loop :: "ApiKey \<Rightarrow> APIKeyQuotaCheckResult \<Rightarrow> (string \<times> int option) list \<Rightarrow> APIKeyQuotaCheckResult act" where
  "quota_loop apiKey result [] = ret result"
| "quota_loop apiKey result ((name, limit) # rest) = (case limit of
     None \<Rightarrow> quota_loop apiKey result rest
   | Some limit \<Rightarrow> andThen (statusForPeriod apiKey name limit) (\<lambda>status.
       if \<not> qs_Exceeded status then quota_loop apiKey result rest
       else if quotaAction (ak_QuotaAction apiKey) = ''block'' then
         ret \<lparr>qc_Allowed = False, qc_Exceeded = True, qc_Warning = False, qc_Action = ''block'',
           qc_Status = Some status\<rparr>
       else if \<not> qc_Warning result then
         quota_loop apiKey (result\<lparr>qc_Exceeded := True, qc_Warning := True, qc_Action := ''warn'',
           qc_Status := Some status\<rparr>) rest
       else quota_loop apiKey result rest))"

definition Quota_Check :: "APIKeyPrincipal \<Rightarrow> APIKeyQuotaCheckResult act" where
  "Quota_Check p = andThen (GetAPIKey (kp_OrgID p) (kp_APIKeyID p)) (\<lambda>apiKey.
     quota_loop apiKey \<lparr>qc_Allowed = True, qc_Exceeded = False, qc_Warning = False, qc_Action = [], qc_Status = None\<rparr>
       [(''daily'', ak_DailyCostLimitMicroUsd apiKey), (''monthly'', ak_MonthlyCostLimitMicroUsd apiKey)])"

section \<open>Admin tokens\<close>

record CreateAdminTokenParams =
  ctp_OrgID :: uuid
  ctp_Name :: string
  ctp_Scopes :: "string list"
  ctp_ExpiresAt :: "time option"

definition AdminTokenPlainPrefix :: string where "AdminTokenPlainPrefix = ''llmgw_admin_''"

definition CreateAdminToken :: "mac_fun \<Rightarrow> TokenHashKeyRing option \<Rightarrow> CreateAdminTokenParams \<Rightarrow> (AdminToken \<times> string) act" where
  "CreateAdminToken mac ring p =
     (let name = TrimSpace (ctp_Name p) in
      if name = [] then fail (ErrMsg ''admin token name is required'')
      else if ctp_OrgID p = uuid_Nil then fail ErrOrganizationNotFound
      else
      andThen (attempt (GetOrganization (ctp_OrgID p))) (\<lambda>r. case r of
        Inl e \<Rightarrow> fail (if e = NoRows then ErrOrganizationNotFound else e)
      | Inr _ \<Rightarrow>
          andThen (lift (normalizeAdminTokenScopes (ctp_Scopes p))) (\<lambda>scopes.
          andThen (generateToken AdminTokenPlainPrefix) (\<lambda>token.
          andThen clock_now (\<lambda>now.
          andThen new_uuid (\<lambda>u.
          andThen (lift (token_Hash mac ring token)) (\<lambda>hash.
          andThen (CreateAdminToken_row \<lparr>at_ID = u, at_OrgID = ctp_OrgID p, at_Name = name,
              at_TokenPrefix = visibleCredentialPrefix token AdminTokenPlainPrefix, at_TokenHash = hash,
              at_Scopes = scopes, at_Status = ''active'', at_ExpiresAt = ctp_ExpiresAt p,
              at_LastUsedAt = None, at_CreatedAt = now, at_RevokedAt = None\<rparr>) (\<lambda>adminToken.
          ret (adminToken, token)))))))))"

definition service_principal :: "AdminToken \<Rightarrow> AdminTokenPrincipal" where
  "service_principal t = \<lparr>atp_OrgID = at_OrgID t, atp_AdminTokenID = at_ID t,
     atp_ActorType = ''service_token'', atp_Role = ''owner'', atp_UserID = None, atp_MembershipID = None,
     atp_SessionID = None, atp_UserEmail = [], atp_DisplayName = [], atp_Scopes = at_Scopes t\<rparr>"

definition AdminToken_Authenticate :: "mac_fun \<Rightarrow> TokenHashKeyRing option \<Rightarrow> string \<Rightarrow> AdminTokenPrincipal act" where
  "AdminToken_Authenticate mac ring token =
     (let token = TrimSpace token in
      if token = [] then fail ErrInvalidToken else
      andThen (lift (CandidateHashes mac ring token)) (\<lambda>hashes.
      andThen (candidate_loop GetAdminTokenByHash hashes) (\<lambda>found. case found of
        None \<Rightarrow> fail ErrInvalidToken
      | Some adminToken \<Rightarrow>
          if at_Status adminToken \<noteq> ''active'' then fail ErrInvalidToken else
          andThen clock_now (\<lambda>now.
          if expired (at_ExpiresAt adminToken) now then fail ErrInvalidToken else
          andThen (TouchAdminTokenLastUsed (at_OrgID adminToken) (at_ID adminToken) now) (\<lambda>_.
          ret (service_principal adminToken))))))"

section \<open>Lookup by hash\<close>

text \<open>The contract of a credential table: a query by hash and the rows it searches.\<close>

locale credential_table =
  fixes get :: "string \<Rightarrow> 'r act" and rows :: "database \<Rightarrow> 'r list" and hash_of :: "'r \<Rightarrow> string"
  assumes get_eq: "get h = db_read (\<lambda>db. first_row (filter (\<lambda>r. hash_of r = h) (rows db)))"
begin

lemma first_row_NoRows: "first_row xs = Inl e \<longleftrightarrow> e = NoRows \<and> xs = []"
  by (cases xs) auto

lemma candidate_step:
  "candidate_loop get (h # hs) E w =
     (if env_fault E (w_step w) then (Inl DbUnavailable, tick w)
      else case filter (\<lambda>r. hash_of r = h) (rows (w_db w)) of
        [] \<Rightarrow> candidate_loop get hs E (tick w)
      | x # _ \<Rightarrow> (Inr (Some x), tick w))"
  unfolding candidate_loop.simps get_eq [of h]
  by (simp add: act_simps split: list.splits)

lemma filter_hash_Cons:
  "filter (\<lambda>r. hash_of r = h) xs = y # ys \<Longrightarrow> y \<in> set xs \<and> hash_of y = h"
  by (metis (mono_tags) filter_eq_Cons_iff in_set_conv_decomp)

lemma lookup_sound:
  "candidate_loop get hs E w = (Inr (Some r), w') \<Longrightarrow> r \<in> set (rows (w_db w)) \<and> hash_of r \<in> set hs \<and> w_db w' = w_db w"
proof (induction hs arbitrary: w)
  case (Cons h hs)
  then show ?case
    by (auto simp: candidate_step simp del: candidate_loop.simps(2)
        split: if_splits list.splits dest: Cons.IH filter_hash_Cons)
qed (simp add: act_simps)

lemma lookup_steps: "candidate_loop get hs E w = (Inr x, w') \<Longrightarrow> w_step w \<le> w_step w'"
proof (induction hs arbitrary: w)
  case (Cons h hs)
  then show ?case
    by (auto simp: candidate_step simp del: candidate_loop.simps(2) split: if_splits list.splits dest!: Cons.IH)
qed (simp add: act_simps)

text \<open>Without faults a row is found exactly when one of the candidates is the hash of a row.\<close>

lemma lookup_finds:
  assumes "healthy E" and "r \<in> set (rows (w_db w))" "hash_of r \<in> set hs"
    and "\<forall>x \<in> set (rows (w_db w)). hash_of x \<in> set hs \<longrightarrow> x = r"
  shows "\<exists>w'. candidate_loop get hs E w = (Inr (Some r), w') \<and> w_db w' = w_db w"
  using assms(2-)
proof (induction hs arbitrary: w)
  case step: (Cons h hs)
  show ?case
  proof (cases "filter (\<lambda>x. hash_of x = h) (rows (w_db w))")
    case Nil
    then have "hash_of r \<noteq> h" using step.prems(1) by (auto simp: filter_empty_conv)
    then have r: "hash_of r \<in> set hs" using step.prems(2) by simp
    have u: "\<forall>x \<in> set (rows (w_db (tick w))). hash_of x \<in> set hs \<longrightarrow> x = r"
      unfolding tick_simps using step.prems(3) by (meson list.set_intros(2))
    have "\<exists>w'. candidate_loop get hs E (tick w) = (Inr (Some r), w') \<and> w_db w' = w_db (tick w)"
      by (rule step.IH [OF _ r u]) (simp add: step.prems(1))
    then show ?thesis
      using Nil assms(1) by (simp add: candidate_step del: candidate_loop.simps(2))
  next
    case (Cons x xs)
    then have "x = r" using filter_hash_Cons [OF Cons] step.prems(3) by simp
    then show ?thesis using Cons assms(1) by (simp add: candidate_step del: candidate_loop.simps(2))
  qed
qed simp

lemma lookup_misses:
  assumes "healthy E" and "\<forall>x \<in> set (rows (w_db w)). hash_of x \<notin> set hs"
  shows "\<exists>w'. candidate_loop get hs E w = (Inr None, w') \<and> w_db w' = w_db w"
  using assms(2)
proof (induction hs arbitrary: w)
  case (Cons h hs)
  then have none: "filter (\<lambda>r. hash_of r = h) (rows (w_db w)) = []" by (auto simp: filter_empty_conv)
  have "\<exists>w'. candidate_loop get hs E (tick w) = (Inr None, w') \<and> w_db w' = w_db (tick w)"
    using Cons.prems by (intro Cons.IH) auto
  then show ?case using none assms(1) by (simp add: candidate_step del: candidate_loop.simps(2))
qed (simp add: act_simps)

end

interpretation api_key_table: credential_table GetAPIKeyByHash api_keys ak_KeyHash
  by unfold_locales (simp add: GetAPIKeyByHash_def)

interpretation admin_token_table: credential_table GetAdminTokenByHash admin_tokens at_TokenHash
  by unfold_locales (simp add: GetAdminTokenByHash_def)

section \<open>Authentication of API keys\<close>

lemma APIKey_Authenticate_sound:
  assumes "APIKey_Authenticate mac ring key E w = (Inr p, w')"
  obtains hashes k now n where "CandidateHashes mac ring (TrimSpace key) = Inr hashes"
    "k \<in> set (api_keys (w_db w))" "ak_KeyHash k \<in> set hashes" "ak_Status k = ''active''"
    "\<not> expired (ak_ExpiresAt k) now" "p = principal_of k" "now = env_time E n" "w_step w \<le> n" "n < w_step w'"
    "w_db w' = (w_db w)\<lparr>api_keys := update_rows (\<lambda>r. ak_OrgID r = ak_OrgID k \<and> ak_ID r = ak_ID k)
        (ak_LastUsedAt_update (\<lambda>_. Some now)) (api_keys (w_db w))\<rparr>"
proof -
  let ?key = "TrimSpace key"
  obtain hashes found w1 where h: "CandidateHashes mac ring ?key = Inr hashes"
    and l: "candidate_loop GetAPIKeyByHash hashes E w = (Inr found, w1)"
    and rest: "(case found of
        None \<Rightarrow> fail ErrInvalidAPIKey
      | Some apiKey \<Rightarrow>
          if ak_Status apiKey \<noteq> ''active'' then fail ErrInvalidAPIKey else
          andThen clock_now (\<lambda>now.
          if expired (ak_ExpiresAt apiKey) now then fail ErrInvalidAPIKey else
          andThen (TouchAPIKeyLastUsed (ak_OrgID apiKey) (ak_ID apiKey) now) (\<lambda>_.
          ret (principal_of apiKey)))) E w1 = (Inr p, w')"
    using assms by (auto simp: APIKey_Authenticate_def Let_def act_inr split: if_splits)
  obtain k where k: "found = Some k" using rest by (cases found) (auto simp: act_simps)
  have "k \<in> set (api_keys (w_db w)) \<and> ak_KeyHash k \<in> set hashes \<and> w_db w1 = w_db w"
    using api_key_table.lookup_sound l k by blast
  then show thesis
    using that [OF h, of k "env_time E (w_step w1)" "w_step w1"] rest k api_key_table.lookup_steps [OF l]
    by (auto simp: act_inr TouchAPIKeyLastUsed_def split: if_splits)
qed

lemma APIKey_Authenticate_accepts:
  assumes "healthy E" "CandidateHashes mac ring (TrimSpace key) = Inr hashes" "TrimSpace key \<noteq> []"
    and "k \<in> set (api_keys (w_db w))" "ak_KeyHash k \<in> set hashes"
    and "\<forall>x \<in> set (api_keys (w_db w)). ak_KeyHash x \<in> set hashes \<longrightarrow> x = k"
  shows "\<exists>w' now. APIKey_Authenticate mac ring key E w =
    (if ak_Status k = ''active'' \<and> \<not> expired (ak_ExpiresAt k) now then Inr (principal_of k) else Inl ErrInvalidAPIKey, w')"
proof -
  obtain w1 where "candidate_loop GetAPIKeyByHash hashes E w = (Inr (Some k), w1)" "w_db w1 = w_db w"
    using api_key_table.lookup_finds [OF assms(1,4,5,6)] by blast
  then have "APIKey_Authenticate mac ring key E w =
      (if ak_Status k = ''active'' \<and> \<not> expired (ak_ExpiresAt k) (env_time E (w_step w1)) then Inr (principal_of k)
       else Inl ErrInvalidAPIKey, snd (APIKey_Authenticate mac ring key E w))"
    using assms(1-3) by (simp add: APIKey_Authenticate_def Let_def act_simps TouchAPIKeyLastUsed_def)
  then show ?thesis by blast
qed

lemma CreateAPIKey_Inr:
  assumes "CreateAPIKey mac ring p E w = (Inr (k, key), w')"
  shows "w_db w' = (w_db w)\<lparr>api_keys := api_keys (w_db w) @ [k]\<rparr> \<and> token_Hash mac ring key = Inr (ak_KeyHash k) \<and>
    ak_Status k = ''active'' \<and> ak_OrgID k = ckp_OrgID p \<and> ak_ExpiresAt k = ckp_ExpiresAt p \<and>
    ak_RpmLimit k = ckp_RPMLimit p \<and> normalizeAPIKeyScopes (ckp_Scopes p) = Inr (ak_Scopes k) \<and>
    key = APIKeyPlainPrefix @ env_token E (w_step w) \<and> ak_ID k \<notin> ak_ID ` set (api_keys (w_db w))"
  using assms
  by (auto simp: CreateAPIKey_def Let_def CreateAPIKey_row_def act_inr generateToken_def list_ex_iff
      split: if_splits)

section \<open>Quotas\<close>

lemma quota_window_eq: "quota_window now p =
  (if p = ''daily'' then Inr (day_window now) else if p = ''monthly'' then Inr (month_window now)
   else Inl (ErrMsg ''unsupported api key quota period''))"
  by (simp add: quota_window_def day_window_def month_window_def Let_def)

interpretation quota_windows: period_windows quota_window
  by unfold_locales
    (auto simp: quota_window_eq dest: day_window_contains month_window_contains
       intro: day_window_const month_window_const split: if_splits)

text \<open>What it means that a key has used up a quota at an instant.\<close>

definition over_quota :: "database \<Rightarrow> ApiKey \<Rightarrow> time \<Rightarrow> string \<times> int option \<Rightarrow> bool" where
  "over_quota db k t = (\<lambda>(period, limit). case limit of None \<Rightarrow> False | Some l \<Rightarrow>
     (case quota_window t period of
        Inr (s, e) \<Rightarrow> l \<le> api_key_cost db (ak_OrgID k) (ak_ID k) s e
      | Inl _ \<Rightarrow> False))"

lemma statusForPeriod_eval:
  assumes "healthy E" "p = ''daily'' \<or> p = ''monthly''"
    and "\<And>s e. in_int64 (api_key_cost (w_db w) (ak_OrgID k) (ak_ID k) s e)"
  obtains st w' where "statusForPeriod k p l E w = (Inr st, w')" "w_db w' = w_db w" "qs_Period st = p"
    "qs_Exceeded st = over_quota (w_db w) k (env_time E (w_step w)) (p, Some l)"
proof -
  obtain s e where "quota_window (env_time E (w_step w)) p = Inr (s, e)"
    using assms(2) by (cases "day_window (env_time E (w_step w))"; cases "month_window (env_time E (w_step w))")
      (auto simp: quota_window_eq)
  then show thesis
    using that assms by (simp add: statusForPeriod_def act_simps GetAPIKeyCostUsedAmount_def pg_bigint_def
        over_quota_def Let_def)
qed

definition refused :: "APIKeyQuotaStatus \<Rightarrow> APIKeyQuotaCheckResult" where
  "refused st = \<lparr>qc_Allowed = False, qc_Exceeded = True, qc_Warning = False, qc_Action = ''block'', qc_Status = Some st\<rparr>"

definition warned :: "APIKeyQuotaCheckResult \<Rightarrow> APIKeyQuotaStatus \<Rightarrow> APIKeyQuotaCheckResult" where
  "warned r st = (if qc_Warning r then r
     else r\<lparr>qc_Exceeded := True, qc_Warning := True, qc_Action := ''warn'', qc_Status := Some st\<rparr>)"

lemma quota_step:
  assumes "healthy E" "p = ''daily'' \<or> p = ''monthly''" "w_db w = db"
    and "\<And>s e. in_int64 (api_key_cost db (ak_OrgID k) (ak_ID k) s e)"
  obtains t w' st where "w_db w' = db" "qs_Period st = p" "quota_loop k r ((p, l) # rest) E w =
    (if \<not> over_quota db k t (p, l) then quota_loop k r rest E w'
     else if quotaAction (ak_QuotaAction k) = ''block'' then (Inr (refused st), w')
     else quota_loop k (warned r st) rest E w')"
proof (cases l)
  case None
  obtain st :: APIKeyQuotaStatus where "qs_Period st = p" by (metis APIKeyQuotaStatus.select_convs(2))
  then show thesis using that [of w st] None assms(3) by (simp add: over_quota_def)
next
  case (Some lim)
  have range: "\<And>s e. in_int64 (api_key_cost (w_db w) (ak_OrgID k) (ak_ID k) s e)" using assms(3,4) by simp
  obtain st w' where "statusForPeriod k p lim E w = (Inr st, w')" "w_db w' = w_db w" "qs_Period st = p"
    "qs_Exceeded st = over_quota (w_db w) k (env_time E (w_step w)) (p, Some lim)"
    by (rule statusForPeriod_eval [OF assms(1,2) range])
  then show thesis
    using that [of w' st "env_time E (w_step w)"] Some assms(3)
    by (simp add: act_simps refused_def warned_def)
qed

section \<open>Properties\<close>

text \<open>
  A quota check without faults always decides. It refuses exactly when the key's action is
  to block and the cost recorded for the key in the current day or month has reached its limit,
  warns exactly when the action is to warn and a limit is reached, names the first such period
  and changes nothing.
\<close>

lemma quota_check_decision:
  assumes "healthy E"
    and "first_row (filter (\<lambda>r. ak_OrgID r = kp_OrgID p \<and> ak_ID r = kp_APIKeyID p) (api_keys (w_db w))) = Inr k"
    and "\<And>s e. in_int64 (api_key_cost (w_db w) (ak_OrgID k) (ak_ID k) s e)"
  shows "\<exists>r w' t1 t2. Quota_Check p E w = (Inr r, w') \<and> w_db w' = w_db w \<and>
    (let day = over_quota (w_db w) k t1 (''daily'', ak_DailyCostLimitMicroUsd k);
         month = over_quota (w_db w) k t2 (''monthly'', ak_MonthlyCostLimitMicroUsd k)
     in qc_Allowed r = (ak_QuotaAction k = ''warn'' \<or> \<not> day \<and> \<not> month) \<and>
        qc_Warning r = (ak_QuotaAction k = ''warn'' \<and> (day \<or> month)) \<and>
        map_option qs_Period (qc_Status r) = (if day then Some ''daily'' else if month then Some ''monthly'' else None))"
proof -
  let ?db = "w_db w"
  define r0 where "r0 = \<lparr>qc_Allowed = True, qc_Exceeded = False, qc_Warning = False, qc_Action = [], qc_Status = None\<rparr>"
  define day month where "day = (''daily'', ak_DailyCostLimitMicroUsd k)"
    and "month = (''monthly'', ak_MonthlyCostLimitMicroUsd k)"
  have run: "Quota_Check p E w = quota_loop k r0 [day, month] E (tick w)"
    using assms(1,2) by (simp add: Quota_Check_def GetAPIKey_def act_simps r0_def day_def month_def del: quota_loop.simps)
  obtain t1 w1 st1 where one: "w_db w1 = ?db" "qs_Period st1 = ''daily''" "quota_loop k r0 [day, month] E (tick w) =
    (if \<not> over_quota ?db k t1 day then quota_loop k r0 [month] E w1
     else if quotaAction (ak_QuotaAction k) = ''block'' then (Inr (refused st1), w1)
     else quota_loop k (warned r0 st1) [month] E w1)"
    unfolding day_def
    by (rule quota_step [OF assms(1) disjI1 [OF refl] tick_simps(1) assms(3), where r = r0 and rest = "[month]"])
  define r1 where "r1 = (if over_quota ?db k t1 day then warned r0 st1 else r0)"
  obtain t2 w2 st2 where two: "w_db w2 = ?db" "qs_Period st2 = ''monthly''" "quota_loop k r1 [month] E w1 =
    (if \<not> over_quota ?db k t2 month then quota_loop k r1 [] E w2
     else if quotaAction (ak_QuotaAction k) = ''block'' then (Inr (refused st2), w2)
     else quota_loop k (warned r1 st2) [] E w2)"
    unfolding month_def
    by (rule quota_step [OF assms(1) disjI2 [OF refl] one(1) assms(3), where r = r1 and rest = "[]"])
  define d m where "d = over_quota ?db k t1 day" and "m = over_quota ?db k t2 month"
  have res: "\<exists>r w'. Quota_Check p E w = (Inr r, w') \<and> w_db w' = ?db \<and>
    qc_Allowed r = (ak_QuotaAction k = ''warn'' \<or> \<not> d \<and> \<not> m) \<and>
    qc_Warning r = (ak_QuotaAction k = ''warn'' \<and> (d \<or> m)) \<and>
    map_option qs_Period (qc_Status r) = (if d then Some ''daily'' else if m then Some ''monthly'' else None)"
    unfolding run
    using one two r1_def d_def m_def
    by (cases d; cases m; cases "ak_QuotaAction k = ''warn''")
      (simp_all add: quotaAction_def act_simps r0_def refused_def warned_def)
  show ?thesis
    using res unfolding d_def m_def day_def month_def Let_def by blast
qed

lemma quota_check_demo:
  "\<exists>r w' t. Quota_Check (principal_of demo_key) demo_env (world_of demo_db) = (Inr r, w') \<and>
     qc_Allowed r = (\<not> over_quota demo_db demo_key t (''daily'', Some 500))"
proof -
  have k: "first_row (filter (\<lambda>r. ak_OrgID r = kp_OrgID (principal_of demo_key) \<and>
      ak_ID r = kp_APIKeyID (principal_of demo_key)) (api_keys (w_db (world_of demo_db)))) = Inr demo_key"
    by (simp add: principal_of_def demo_defs)
  have c: "in_int64 (api_key_cost (w_db (world_of demo_db)) (ak_OrgID demo_key) (ak_ID demo_key) s e)" for s e
    by (simp add: api_key_cost_def demo_defs in_int64_def)
  have "ak_QuotaAction demo_key = ''block''" "ak_DailyCostLimitMicroUsd demo_key = Some 500"
    "ak_MonthlyCostLimitMicroUsd demo_key = None" by (simp_all add: demo_key_def)
  then show ?thesis
    using quota_check_decision [OF healthy_demo k c] by (auto simp: Let_def over_quota_def)
qed

lemma TrimSpace_solid: "list_all (\<lambda>c. \<not> is_space c) s \<Longrightarrow> TrimSpace s = s"
proof -
  assume solid: "list_all (\<lambda>c. \<not> is_space c) s"
  have "dropWhile is_space xs = xs" if "set xs \<subseteq> set s" for xs
    using that solid by (cases xs) (auto simp: list_all_iff)
  then show ?thesis by (simp add: TrimSpace_def TrimLeft_def)
qed

lemma update_rows_snoc:
  assumes "\<forall>x \<in> set xs. \<not> P x" "P k"
  shows "update_rows P f (xs @ [k]) = xs @ [f k]"
  using assms by (induction xs) auto

lemma key_solid:
  assumes "list_all (\<lambda>c. \<not> is_space c) tok"
  shows "TrimSpace (APIKeyPlainPrefix @ tok) = APIKeyPlainPrefix @ tok" "APIKeyPlainPrefix @ tok \<noteq> []"
  using assms by (auto intro!: TrimSpace_solid simp: APIKeyPlainPrefix_def is_space_def)


text \<open>A stand-in for the digest in concrete runs: secret and token joined by a separator.\<close>

definition demo_mac :: mac_fun where
  "demo_mac secret token = secret @ '':'' @ token"

definition demo_ring :: TokenHashKeyRing where
  "demo_ring = \<lparr>hk_activeVersion = 1, hk_hashers = [(1, ''old'')]\<rparr>"

definition rotated_ring :: TokenHashKeyRing where
  "rotated_ring = \<lparr>hk_activeVersion = 2, hk_hashers = [(2, ''new''), (1, ''old'')]\<rparr>"

definition demo_key_params :: CreateAPIKeyParams where
  "demo_key_params = \<lparr>ckp_OrgID = 1, ckp_Name = ''ci'', ckp_Scopes = [], ckp_RPMLimit = 10,
     ckp_DailyCostLimitMicroUSD = None, ckp_MonthlyCostLimitMicroUSD = Some 9, ckp_QuotaAction = [], ckp_ExpiresAt = None\<rparr>"

lemma demo_key_created:
  "is_ok (fst (CreateAPIKey demo_mac (Some demo_ring) demo_key_params demo_env (world_of demo_db)))"
  by code_simp


section \<open>What admin scopes grant\<close>

lemma scope_loop_sound: "scope_loop allowed msg seen ss = Inr r \<Longrightarrow> list_all allowed r"
  by (induction allowed msg seen ss arbitrary: r rule: scope_loop.induct)
    (auto simp: Let_def split: if_splits sum.splits)

definition grants :: "string \<Rightarrow> string \<Rightarrow> bool" where
  "grants scope required \<longleftrightarrow> scope = ''admin:*'' \<or> scope = required"

lemma scope_table:
  "list_all (\<lambda>s. list_all (\<lambda>r. r = ''admin:*'' \<or> scopes_loop [s] r = grants s r) admin_scopes) admin_scopes"
  "list_all (\<lambda>r. TrimSpace r = r \<and> r \<noteq> []) admin_scopes"
  by code_simp+

lemma scopes_loop_admin:
  assumes "set scopes \<subseteq> set admin_scopes" "required \<in> set admin_scopes" "required \<noteq> ''admin:*''"
  shows "scopes_loop scopes required = list_ex (\<lambda>s. grants s required) scopes"
  using assms(1)
proof (induction scopes)
  case (Cons s ss)
  have "scopes_loop [s] required = grants s required"
    using scope_table(1) [unfolded list_all_iff, rule_format, of s required] Cons.prems assms(2,3) by simp
  then show ?case using Cons by (auto simp: Let_def split: if_splits)
qed simp

text \<open>
  A service token can do exactly what its scopes name: with the scopes the service accepts, each
  permission is granted by the scope of its own name or by \<^verbatim>\<open>admin:*\<close>, and by nothing else
  (viewing members also by the right to manage them).
\<close>

theorem admin_scopes_exact:
  assumes "normalizeAdminTokenScopes requested = Inr scopes" and "IsServiceToken p" and "atp_Scopes p = scopes"
  shows "CanManageMembers p = list_ex (\<lambda>s. grants s ''admin:members:manage'') scopes \<and>
    CanViewMembers p = list_ex (\<lambda>s. grants s ''admin:members:view'' \<or> grants s ''admin:members:manage'') scopes \<and>
    CanManageTokens p = list_ex (\<lambda>s. grants s ''admin:tokens:manage'') scopes \<and>
    CanManageConfiguration p = list_ex (\<lambda>s. grants s ''admin:configuration:manage'') scopes \<and>
    CanView p = list_ex (\<lambda>s. grants s ''admin:view'') scopes"
proof -
  have "set scopes \<subseteq> set admin_scopes"
  proof (cases "requested = []")
    case True
    then have "scopes = [''admin:*'']" using assms(1) by (simp add: normalizeAdminTokenScopes_def)
    then show ?thesis by (simp add: admin_scopes_def)
  next
    case False
    then have "list_all (\<lambda>s. s \<in> set admin_scopes) scopes"
      using assms(1) unfolding normalizeAdminTokenScopes_def by (simp only: if_False scope_loop_sound)
    then show ?thesis by (simp only: list_all_iff subset_eq)
  qed
  note table = scopes_loop_admin [OF this]
  have solid: "TrimSpace r = r" "r \<noteq> []" if "r \<in> set admin_scopes" for r
    using that scope_table(2) by (auto simp: list_all_iff)
  have scope: "admin_HasScope p r = list_ex (\<lambda>s. grants s r) scopes"
    if "r \<in> set admin_scopes" "r \<noteq> ''admin:*''" for r
    using table [OF that] solid [OF that(1)] assms(3) by (simp add: admin_HasScope_def scopesAllow_def Let_def)
  have names: "''admin:members:manage'' \<in> set admin_scopes" "''admin:members:view'' \<in> set admin_scopes"
    "''admin:tokens:manage'' \<in> set admin_scopes" "''admin:configuration:manage'' \<in> set admin_scopes"
    "''admin:view'' \<in> set admin_scopes" by (simp_all add: admin_scopes_def)
  have either: "list_ex P xs \<or> list_ex Q xs \<longleftrightarrow> list_ex (\<lambda>s. P s \<or> Q s) xs" for P Q and xs :: "string list"
    by (auto simp: list_ex_iff)
  show ?thesis
    using assms(2) scope [OF names(1)] scope [OF names(2)] scope [OF names(3)] scope [OF names(4)] scope [OF names(5)]
    by (simp add: CanManageMembers_def CanViewMembers_def CanManageTokens_def CanManageConfiguration_def
        CanView_def hasAnyScope_def either)
qed

theorem admin_scopes_exact_witness:
  "let p = \<lparr>atp_OrgID = 1, atp_AdminTokenID = 2, atp_ActorType = ''service_token'', atp_Role = ''owner'',
      atp_UserID = None, atp_MembershipID = None, atp_SessionID = None, atp_UserEmail = [],
      atp_DisplayName = [], atp_Scopes = [''admin:view'', ''admin:members:manage'']\<rparr>
   in CanView p \<and> CanViewMembers p \<and> \<not> CanManageTokens p"
proof -
  have "normalizeAdminTokenScopes ['' admin:view'', ''admin:members:manage'', ''admin:view'']
      = Inr [''admin:view'', ''admin:members:manage'']"
    by code_simp
  from admin_scopes_exact [OF this] show ?thesis
    by (simp add: Let_def IsServiceToken_def grants_def)
qed

end
