(* ===== verification/Anomaly.thy ===== *)
theory Anomaly
  imports Metering
begin

text \<open>
  Cost anomaly policies (\<^verbatim>\<open>internal/anomaly/service.go\<close>): validation of new policies, the statistics
  over request logs and the decision for a request. Products of \<^verbatim>\<open>int64\<close> values wrap as they do in
  Go; durations are nanoseconds in an \<^verbatim>\<open>int64\<close>.
\<close>

section \<open>Policies and decisions\<close>

record CreatePolicyParams =
  app_OrgID :: uuid
  app_Name :: string
  app_RuleType :: string
  app_ScopeType :: string
  app_ScopeID :: "uuid option"
  app_ModelAlias :: string
  app_ThresholdMicroUSD :: "int option"
  app_ThresholdBPS :: "int option"
  app_SpikeMultiplierBPS :: int
  app_CurrentWindowMinutes :: int
  app_BaselineWindowMinutes :: int
  app_MinRequests :: int
  app_Action :: string
  app_FallbackModel :: string

record EvaluateParams =
  ev_OrgID :: uuid
  ev_APIKeyID :: uuid
  ev_RequestedModel :: string

record Decision =
  dc_Triggered :: bool
  dc_Action :: string
  dc_Policy :: "CostAnomalyPolicy option"
  dc_OriginalModel :: string
  dc_EffectiveModel :: string
  dc_Reason :: string

definition no_decision :: Decision where
  "no_decision = \<lparr>dc_Triggered = False, dc_Action = [], dc_Policy = None, dc_OriginalModel = [],
     dc_EffectiveModel = [], dc_Reason = []\<rparr>"

definition MetadataBody :: "Decision \<Rightarrow> (string \<times> json) list option" where
  "MetadataBody d = (case dc_Policy d of
     None \<Rightarrow> None
   | Some p \<Rightarrow> if \<not> dc_Triggered d then None else
       Some ([(''policy_id'', JStr (uuid_String (ap_ID p))), (''policy_name'', JStr (ap_Name p)),
          (''rule_type'', JStr (ap_RuleType p)), (''action'', JStr (dc_Action d)),
          (''reason'', JStr (dc_Reason d)), (''original_model'', JStr (dc_OriginalModel d))] @
         (if dc_Action d = ''downgrade'' then [(''fallback_model'', JStr (dc_EffectiveModel d))] else [])))"

section \<open>Creating policies\<close>

definition validRule :: "string \<Rightarrow> bool" where
  "validRule rule \<longleftrightarrow> rule = ''daily_cost'' \<or> rule = ''api_key_cost_spike'' \<or> rule = ''model_cost_spike'' \<or>
     rule = ''error_rate_spike''"

definition anomaly_validAction :: "string \<Rightarrow> bool" where
  "anomaly_validAction action \<longleftrightarrow> action = ''notify'' \<or> action = ''downgrade'' \<or> action = ''block''"

definition validateScope :: "CreatePolicyParams \<Rightarrow> unit outcome" where
  "validateScope p =
     (if app_ScopeType p = ''org'' \<and> (app_ScopeID p \<noteq> None \<or> app_ModelAlias p \<noteq> [])
        then Inl (ErrMsg ''org scope cannot include scope_id or model_alias'')
      else if app_ScopeType p = ''api_key'' \<and>
          (app_ScopeID p = None \<or> app_ScopeID p = Some uuid_Nil \<or> app_ModelAlias p \<noteq> [])
        then Inl (ErrMsg ''api_key scope requires scope_id only'')
      else if app_ScopeType p = ''model'' \<and> (app_ScopeID p \<noteq> None \<or> app_ModelAlias p = [])
        then Inl (ErrMsg ''model scope requires model_alias only'')
      else if app_ScopeType p \<noteq> ''org'' \<and> app_ScopeType p \<noteq> ''api_key'' \<and> app_ScopeType p \<noteq> ''model''
        then Inl (ErrMsg ''invalid scope_type'')
      else if app_RuleType p = ''api_key_cost_spike'' \<and> app_ScopeType p \<noteq> ''api_key''
        then Inl (ErrMsg ''api_key_cost_spike requires api_key scope'')
      else if app_RuleType p = ''model_cost_spike'' \<and> app_ScopeType p \<noteq> ''model''
        then Inl (ErrMsg ''model_cost_spike requires model scope'')
      else if app_RuleType p = ''daily_cost'' \<and> app_ScopeType p \<noteq> ''org''
        then Inl (ErrMsg ''daily_cost requires org scope'')
      else Inr ())"

definition validateRuleThresholds :: "CreatePolicyParams \<Rightarrow> unit outcome" where
  "validateRuleThresholds p =
     (if (case app_ThresholdMicroUSD p of Some t \<Rightarrow> t < 0 | None \<Rightarrow> False)
        then Inl (ErrMsg ''threshold_micro_usd must be non-negative'')
      else if (case app_ThresholdBPS p of Some t \<Rightarrow> t \<le> 0 | None \<Rightarrow> False)
        then Inl (ErrMsg ''threshold_bps must be positive'')
      else if app_RuleType p = ''daily_cost'' \<and> app_ThresholdMicroUSD p = None
        then Inl (ErrMsg ''threshold_micro_usd is required for daily_cost'')
      else if app_RuleType p = ''error_rate_spike'' \<and> app_ThresholdBPS p = None
        then Inl (ErrMsg ''threshold_bps is required for error_rate_spike'')
      else Inr ())"

definition or_default :: "int \<Rightarrow> int \<Rightarrow> int" where
  "or_default d v = (if v = 0 then d else v)"

definition trim_params :: "CreatePolicyParams \<Rightarrow> CreatePolicyParams" where
  "trim_params p = p\<lparr>app_Name := TrimSpace (app_Name p), app_RuleType := TrimSpace (app_RuleType p),
     app_ScopeType := TrimSpace (app_ScopeType p), app_ModelAlias := TrimSpace (app_ModelAlias p),
     app_Action := TrimSpace (app_Action p), app_FallbackModel := TrimSpace (app_FallbackModel p)\<rparr>"

definition fill_defaults :: "CreatePolicyParams \<Rightarrow> CreatePolicyParams" where
  "fill_defaults p = p\<lparr>app_CurrentWindowMinutes := or_default 60 (app_CurrentWindowMinutes p),
     app_BaselineWindowMinutes := or_default 1440 (app_BaselineWindowMinutes p),
     app_MinRequests := or_default 1 (app_MinRequests p),
     app_SpikeMultiplierBPS := or_default 20000 (app_SpikeMultiplierBPS p)\<rparr>"

definition normalizeCreatePolicyParams :: "CreatePolicyParams \<Rightarrow> CreatePolicyParams outcome" where
  "normalizeCreatePolicyParams raw =
     (let p = trim_params raw in
      if app_OrgID p = uuid_Nil then Inl (ErrMsg ''org_id is required'')
      else if app_Name p = [] then Inl (ErrMsg ''name is required'')
      else if \<not> validRule (app_RuleType p) then Inl (ErrMsg ''invalid rule_type'')
      else if \<not> anomaly_validAction (app_Action p) then Inl (ErrMsg ''invalid action'')
      else if app_Action p = ''downgrade'' \<and> app_FallbackModel p = []
        then Inl (ErrMsg ''fallback_model is required for downgrade'')
      else let p = fill_defaults p in
      if app_CurrentWindowMinutes p < 0 \<or> app_BaselineWindowMinutes p < 0 \<or> app_MinRequests p < 0 \<or>
          app_SpikeMultiplierBPS p < 0
        then Inl (ErrMsg ''window, min_requests, and spike_multiplier_bps must be positive'')
      else case validateScope p of
        Inl e \<Rightarrow> Inl e
      | Inr _ \<Rightarrow> (case validateRuleThresholds p of Inl e \<Rightarrow> Inl e | Inr _ \<Rightarrow> Inr p))"

definition policy_of :: "CreatePolicyParams \<Rightarrow> uuid \<Rightarrow> time \<Rightarrow> CostAnomalyPolicy" where
  "policy_of p u now = \<lparr>ap_ID = u, ap_OrgID = app_OrgID p, ap_Name = app_Name p, ap_RuleType = app_RuleType p,
     ap_ScopeType = app_ScopeType p, ap_ScopeID = app_ScopeID p, ap_ModelAlias = textValue (app_ModelAlias p),
     ap_ThresholdMicroUsd = app_ThresholdMicroUSD p, ap_ThresholdBps = app_ThresholdBPS p,
     ap_SpikeMultiplierBps = app_SpikeMultiplierBPS p, ap_CurrentWindowMinutes = app_CurrentWindowMinutes p,
     ap_BaselineWindowMinutes = app_BaselineWindowMinutes p, ap_MinRequests = app_MinRequests p,
     ap_Action = app_Action p, ap_FallbackModel = textValue (app_FallbackModel p), ap_Status = ''active'',
     ap_CreatedAt = now, ap_UpdatedAt = now\<rparr>"

definition CreatePolicy :: "CreatePolicyParams \<Rightarrow> CostAnomalyPolicy act" where
  "CreatePolicy raw =
     andThen (lift (normalizeCreatePolicyParams raw)) (\<lambda>p.
     andThen clock_now (\<lambda>now.
     andThen new_uuid (\<lambda>u.
     CreateCostAnomalyPolicy (policy_of p u now))))"

definition ListPolicies :: "uuid \<Rightarrow> CostAnomalyPolicy list act" where
  "ListPolicies orgID = (if orgID = uuid_Nil then fail (ErrMsg ''org_id is required'')
     else ListCostAnomalyPolicies orgID)"

section \<open>Statistics\<close>

text \<open>\<^verbatim>\<open>policySQLFilter\<close>: the additional condition on \<^verbatim>\<open>request_logs\<close>; a nil scope id panics.\<close>

definition policySQLFilter :: "CostAnomalyPolicy \<Rightarrow> (RequestLog \<Rightarrow> bool) outcome" where
  "policySQLFilter policy =
     (if ap_ScopeType policy = ''api_key'' then
        (case ap_ScopeID policy of
           None \<Rightarrow> Inl Panic
         | Some key \<Rightarrow> Inr (\<lambda>rl. rl_ApiKeyID rl = Some key))
      else if ap_ScopeType policy = ''model'' then
        Inr (\<lambda>rl. rl_RequestModel rl = Some (case ap_ModelAlias policy of Some a \<Rightarrow> a | None \<Rightarrow> []))
      else Inr (\<lambda>_. True))"

definition logs_in :: "database \<Rightarrow> uuid \<Rightarrow> time \<Rightarrow> time \<Rightarrow> (RequestLog \<Rightarrow> bool) \<Rightarrow> RequestLog list" where
  "logs_in db org from to P = filter (\<lambda>rl. rl_OrgID rl = org \<and> in_window from to (rl_CompletedAt rl) \<and> P rl) (request_logs db)"

text \<open>\<^verbatim>\<open>LEFT JOIN\<close>: a row without partner stays, with nulls on the right.\<close>

definition left_join :: "('a \<Rightarrow> 'b list) \<Rightarrow> 'a list \<Rightarrow> ('a \<times> 'b option) list" where
  "left_join partners xs = concat (map (\<lambda>a. case partners a of
     [] \<Rightarrow> [(a, None)] | bs \<Rightarrow> map (\<lambda>b. (a, Some b)) bs) xs)"

definition cost_rows :: "database \<Rightarrow> RequestLog list \<Rightarrow> ((RequestLog \<times> UsageRecord option) \<times> CostRecord option) list" where
  "cost_rows db logs =
     left_join (\<lambda>(rl, u). case u of None \<Rightarrow> []
         | Some ur \<Rightarrow> filter (\<lambda>cr. cr_OrgID cr = rl_OrgID rl \<and> cr_UsageRecordID cr = ur_ID ur) (cost_records db))
       (left_join (\<lambda>rl. filter (\<lambda>ur. ur_OrgID ur = rl_OrgID rl \<and> ur_RequestLogID ur = rl_ID rl) (usage_records db)) logs)"

definition row_cost :: "(RequestLog \<times> UsageRecord option) \<times> CostRecord option \<Rightarrow> int" where
  "row_cost row = (case snd row of None \<Rightarrow> 0 | Some cr \<Rightarrow> cr_TotalCostMicro cr)"

definition costStats :: "CostAnomalyPolicy \<Rightarrow> time \<Rightarrow> time \<Rightarrow> (int \<times> int) act" where
  "costStats policy from to =
     andThen (lift (policySQLFilter policy)) (\<lambda>P.
     db_read (\<lambda>db. let rows = cost_rows db (logs_in db (ap_OrgID policy) from to P) in
       case pg_bigint (sum_list (map row_cost rows)) of
         Inl e \<Rightarrow> Inl e
       | Inr cost \<Rightarrow> Inr (cost, int (length rows))))"

record errorStats =
  es_Requests :: int
  es_Errors :: int

definition is_error :: "RequestLog \<Rightarrow> bool" where
  "is_error rl \<longleftrightarrow> rl_Status rl \<noteq> ''success'' \<and> rl_Status rl \<noteq> ''budget_warned''"

definition errorStats :: "CostAnomalyPolicy \<Rightarrow> time \<Rightarrow> time \<Rightarrow> errorStats act" where
  "errorStats policy from to =
     andThen (lift (policySQLFilter policy)) (\<lambda>P.
     db_read (\<lambda>db. let rows = logs_in db (ap_OrgID policy) from to P in
       Inr \<lparr>es_Requests = int (length rows), es_Errors = int (length (filter is_error rows))\<rparr>))"

section \<open>Rules\<close>

text \<open>\<^verbatim>\<open>t.Add(-time.Duration(m) * time.Minute)\<close> on an instant in microseconds.\<close>

definition minutes_before :: "time \<Rightarrow> int \<Rightarrow> time" where
  "minutes_before t m = (1000 * t + wrap64 (- m * 60000000000)) div 1000"

definition bpsScale :: int where "bpsScale = 10000"

definition mul64 :: "int \<Rightarrow> int \<Rightarrow> int" where
  "mul64 a b = wrap64 (a * b)"

definition evaluateDailyCost :: "CostAnomalyPolicy \<Rightarrow> (bool \<times> string) act" where
  "evaluateDailyCost policy = (case ap_ThresholdMicroUsd policy of
     None \<Rightarrow> ret (False, [])
   | Some threshold \<Rightarrow>
       andThen clock_now (\<lambda>now.
       let start = time_Date (time_Year now) (time_Month now) (time_Day now) in
       andThen (costStats policy start now) (\<lambda>(cost, _).
       ret (if threshold \<le> cost then (True, ''daily_cost_threshold'') else (False, [])))))"

definition evaluateCostSpike :: "CostAnomalyPolicy \<Rightarrow> (bool \<times> string) act" where
  "evaluateCostSpike policy =
     andThen clock_now (\<lambda>now.
     let currentStart = minutes_before now (ap_CurrentWindowMinutes policy);
         baselineEnd = currentStart;
         baselineStart = minutes_before baselineEnd (ap_BaselineWindowMinutes policy)
     in
     andThen (costStats policy currentStart now) (\<lambda>(currentCost, currentRequests).
     if currentRequests < ap_MinRequests policy \<or> currentCost \<le> 0 then ret (False, [])
     else if (case ap_ThresholdMicroUsd policy of Some t \<Rightarrow> currentCost < t | None \<Rightarrow> False) then ret (False, [])
     else
     andThen (costStats policy baselineStart baselineEnd) (\<lambda>(baselineCost, _).
     if baselineCost \<le> 0 then ret (False, [])
     else
     let left = mul64 (mul64 currentCost (ap_BaselineWindowMinutes policy)) bpsScale;
         right = mul64 (mul64 baselineCost (ap_CurrentWindowMinutes policy)) (ap_SpikeMultiplierBps policy)
     in ret (if right \<le> left then (True, ''cost_spike'') else (False, [])))))"

definition evaluateErrorRateSpike :: "CostAnomalyPolicy \<Rightarrow> (bool \<times> string) act" where
  "evaluateErrorRateSpike policy = (case ap_ThresholdBps policy of
     None \<Rightarrow> ret (False, [])
   | Some thresholdBps \<Rightarrow>
     andThen clock_now (\<lambda>now.
     let currentStart = minutes_before now (ap_CurrentWindowMinutes policy);
         baselineEnd = currentStart;
         baselineStart = minutes_before baselineEnd (ap_BaselineWindowMinutes policy)
     in
     andThen (errorStats policy currentStart now) (\<lambda>current.
     if es_Requests current < ap_MinRequests policy \<or> es_Errors current = 0 then ret (False, [])
     else if mul64 (es_Errors current) bpsScale < mul64 (es_Requests current) thresholdBps then ret (False, [])
     else
     andThen (errorStats policy baselineStart baselineEnd) (\<lambda>baseline.
     if es_Requests baseline = 0 \<or> es_Errors baseline = 0 then ret (True, ''error_rate_spike'')
     else
     let left = mul64 (mul64 (es_Errors current) (es_Requests baseline)) bpsScale;
         right = mul64 (mul64 (es_Errors baseline) (es_Requests current)) (ap_SpikeMultiplierBps policy)
     in ret (if right \<le> left then (True, ''error_rate_spike'') else (False, []))))))"

definition evaluatePolicy :: "CostAnomalyPolicy \<Rightarrow> (bool \<times> string) act" where
  "evaluatePolicy policy =
     (if ap_RuleType policy = ''daily_cost'' then evaluateDailyCost policy
      else if ap_RuleType policy = ''api_key_cost_spike'' \<or> ap_RuleType policy = ''model_cost_spike''
        then evaluateCostSpike policy
      else if ap_RuleType policy = ''error_rate_spike'' then evaluateErrorRateSpike policy
      else ret (False, []))"

section \<open>The decision\<close>

definition policyApplies :: "CostAnomalyPolicy \<Rightarrow> EvaluateParams \<Rightarrow> bool" where
  "policyApplies policy p =
     (if ap_ScopeType policy = ''org'' then True
      else if ap_ScopeType policy = ''api_key'' then ap_ScopeID policy = Some (ev_APIKeyID p)
      else if ap_ScopeType policy = ''model'' then ap_ModelAlias policy = Some (TrimSpace (ev_RequestedModel p))
      else False)"

definition actionRank :: "string \<Rightarrow> int" where
  "actionRank action = (if action = ''block'' then 3 else if action = ''downgrade'' then 2
     else if action = ''notify'' then 1 else 0)"

definition shouldReplaceDecision :: "Decision \<Rightarrow> Decision \<Rightarrow> bool" where
  "shouldReplaceDecision current next' \<longleftrightarrow> \<not> dc_Triggered current \<or> actionRank (dc_Action current) < actionRank (dc_Action next')"

definition decision_of :: "EvaluateParams \<Rightarrow> CostAnomalyPolicy \<Rightarrow> string \<Rightarrow> Decision" where
  "decision_of p policy reason = \<lparr>dc_Triggered = True, dc_Action = ap_Action policy, dc_Policy = Some policy,
     dc_OriginalModel = TrimSpace (ev_RequestedModel p),
     dc_EffectiveModel = (case ap_FallbackModel policy of
        Some m \<Rightarrow> if ap_Action policy = ''downgrade'' then m else TrimSpace (ev_RequestedModel p)
      | None \<Rightarrow> TrimSpace (ev_RequestedModel p)),
     dc_Reason = reason\<rparr>"

fun evaluate_loop :: "EvaluateParams \<Rightarrow> Decision \<Rightarrow> CostAnomalyPolicy list \<Rightarrow> Decision act" where
  "evaluate_loop p best [] = ret best"
| "evaluate_loop p best (policy # policies) =
     (if \<not> policyApplies policy p then evaluate_loop p best policies
      else andThen (evaluatePolicy policy) (\<lambda>(triggered, reason).
        if \<not> triggered then evaluate_loop p best policies
        else let decision = decision_of p policy reason
          in evaluate_loop p (if shouldReplaceDecision best decision then decision else best) policies))"

definition Evaluate :: "EvaluateParams \<Rightarrow> Decision act" where
  "Evaluate p =
     (if ev_OrgID p = uuid_Nil \<or> TrimSpace (ev_RequestedModel p) = [] then ret no_decision
      else andThen (ListActiveCostAnomalyPolicies (ev_OrgID p)) (evaluate_loop p no_decision))"

section \<open>Created policies\<close>

lemma normalize_ok:
  assumes "normalizeCreatePolicyParams raw = Inr p"
  shows "app_Name p \<noteq> []" "validRule (app_RuleType p)" "anomaly_validAction (app_Action p)"
    "app_Action p = ''downgrade'' \<Longrightarrow> app_FallbackModel p \<noteq> []"
    "0 < app_CurrentWindowMinutes p" "0 < app_BaselineWindowMinutes p" "0 < app_MinRequests p" "0 < app_SpikeMultiplierBPS p"
    "validateScope p = Inr ()" "validateRuleThresholds p = Inr ()"
  using assms
  by (auto simp: normalizeCreatePolicyParams_def Let_def fill_defaults_def or_default_def
      split: if_splits sum.splits)

text \<open>
  C37: A policy the service builds satisfies every check constraint of its table: creating one can
  fail on a missing organization or key, a taken identifier or the connection, but never with a
  check violation; the stored policy has a rule, an action and a scope the evaluation knows.
\<close>

theorem created_policy_well_formed:
  "case CreatePolicy raw E w of
     (Inl e, w') \<Rightarrow> e \<noteq> CheckViolation \<and> w_db w' = w_db w
   | (Inr r, w') \<Rightarrow> cost_anomaly_policies (w_db w') = cost_anomaly_policies (w_db w) @ [r] \<and>
       validRule (ap_RuleType r) \<and> 0 < actionRank (ap_Action r) \<and> is_ok (policySQLFilter r) \<and>
       0 < ap_CurrentWindowMinutes r \<and> 0 < ap_BaselineWindowMinutes r"
proof (cases "normalizeCreatePolicyParams raw")
  case (Inl e)
  then have "e \<noteq> CheckViolation"
    by (auto simp: normalizeCreatePolicyParams_def Let_def validateScope_def validateRuleThresholds_def
        split: if_splits sum.splits)
  then show ?thesis using Inl by (simp add: CreatePolicy_def act_simps)
next
  case (Inr p)
  note ok = normalize_ok [OF Inr]
  define r where "r = policy_of p (env_uuid E (Suc (w_step w))) (env_time E (w_step w))"
  have checks: "ap_Name r \<noteq> []"
      "ap_RuleType r \<in> {''daily_cost'', ''api_key_cost_spike'', ''model_cost_spike'', ''error_rate_spike''}"
      "(case ap_ThresholdMicroUsd r of None \<Rightarrow> True | Some t \<Rightarrow> 0 \<le> t)"
      "(case ap_ThresholdBps r of None \<Rightarrow> True | Some t \<Rightarrow> 0 < t)"
      "0 < ap_SpikeMultiplierBps r" "0 < ap_CurrentWindowMinutes r" "0 < ap_BaselineWindowMinutes r" "0 < ap_MinRequests r"
      "ap_Action r \<in> {''notify'', ''downgrade'', ''block''}" "ap_Status r \<in> {''active'', ''disabled''}"
    using ok(1-8,10)
    by (auto simp: r_def policy_of_def validRule_def anomaly_validAction_def validateRuleThresholds_def
        split: if_splits option.splits)
  have scope: "ap_ScopeType r = ''org'' \<and> ap_ScopeID r = None \<and> ap_ModelAlias r = None \<or>
       ap_ScopeType r = ''api_key'' \<and> ap_ScopeID r \<noteq> None \<and> ap_ModelAlias r = None \<or>
       ap_ScopeType r = ''model'' \<and> ap_ScopeID r = None \<and> ap_ModelAlias r \<noteq> None"
    using ok(9) by (auto simp: r_def policy_of_def validateScope_def textValue_def split: if_splits)
  have rule: "ap_RuleType r = ''daily_cost'' \<and> ap_ThresholdMicroUsd r \<noteq> None \<or>
       ap_RuleType r \<in> {''api_key_cost_spike'', ''model_cost_spike''} \<or>
       ap_RuleType r = ''error_rate_spike'' \<and> ap_ThresholdBps r \<noteq> None"
    using ok(2,10) by (auto simp: r_def policy_of_def validRule_def validateRuleThresholds_def split: if_splits)
  have fallback: "ap_Action r \<noteq> ''downgrade'' \<or> ap_FallbackModel r \<noteq> None"
    using ok(4) by (auto simp: r_def policy_of_def textValue_def)
  have run: "CreatePolicy raw E w = CreateCostAnomalyPolicy r E (tick (tick w))"
    by (simp add: CreatePolicy_def Inr act_simps r_def)
  have good: "validRule (ap_RuleType r)" "0 < actionRank (ap_Action r)" "is_ok (policySQLFilter r)"
    using checks(2,9) scope by (auto simp: validRule_def actionRank_def policySQLFilter_def split: option.splits)
  show ?thesis
    unfolding run CreateCostAnomalyPolicy_def
    using checks scope rule fallback good
    by (simp add: act_simps)
qed

section \<open>The strongest decision\<close>

definition fired :: "EvaluateParams \<Rightarrow> CostAnomalyPolicy list \<Rightarrow> (bool \<times> string) list \<Rightarrow> Decision list" where
  "fired p policies results = [decision_of p policy reason. (policy, triggered, reason) \<leftarrow> zip policies results, triggered]"

definition strongest :: "Decision list \<Rightarrow> Decision" where
  "strongest ds = (case filter (\<lambda>d. list_all (\<lambda>e. actionRank (dc_Action e) \<le> actionRank (dc_Action d)) ds) ds of
     [] \<Rightarrow> no_decision | d # _ \<Rightarrow> d)"

definition pick :: "Decision \<Rightarrow> Decision \<Rightarrow> Decision" where
  "pick d best = (if shouldReplaceDecision best d then d else best)"

abbreviation rank :: "Decision \<Rightarrow> int" where
  "rank d \<equiv> actionRank (dc_Action d)"

abbreviation tops :: "Decision list \<Rightarrow> Decision list" where
  "tops ds \<equiv> filter (\<lambda>d. list_all (\<lambda>e. rank e \<le> rank d) ds) ds"

lemma pick_first_top:
  assumes "list_all dc_Triggered ds" "ds \<noteq> []"
  shows "\<exists>rest. tops ds = fold pick ds no_decision # rest"
  using assms
proof (induction ds rule: rev_induct)
  case (snoc x ds)
  show ?case
  proof (cases "ds = []")
    case True
    then show ?thesis by (simp add: pick_def shouldReplaceDecision_def no_decision_def)
  next
    case False
    define b where "b = fold pick ds no_decision"
    obtain rest where rest: "tops ds = b # rest" using snoc False unfolding b_def by auto
    then have "b \<in> set (tops ds)" by simp
    then have b: "b \<in> set ds" "list_all (\<lambda>e. rank e \<le> rank b) ds" by auto
    then have trig: "dc_Triggered b" using snoc.prems by (auto simp: list_all_iff)
    have step: "fold pick (ds @ [x]) no_decision = (if rank b < rank x then x else b)"
      using trig by (simp add: b_def pick_def shouldReplaceDecision_def)
    show ?thesis
    proof (cases "rank b < rank x")
      case True
      have "filter (\<lambda>d. list_all (\<lambda>e. rank e \<le> rank d) (ds @ [x])) ds = []"
        using b(2) True by (force simp: filter_empty_conv list_all_iff)
      moreover have "list_all (\<lambda>e. rank e \<le> rank x) ds" using b(2) True by (force simp: list_all_iff)
      ultimately show ?thesis using True unfolding step by simp
    next
      case False
      have "filter (\<lambda>d. list_all (\<lambda>e. rank e \<le> rank d) (ds @ [x])) ds = tops ds"
        using b(1) False by (intro filter_cong) (force simp: list_all_iff)+
      then show ?thesis using False rest unfolding step by simp
    qed
  qed
qed simp

lemma pick_strongest: "list_all dc_Triggered ds \<Longrightarrow> fold pick ds no_decision = strongest ds"
  using pick_first_top [of ds] by (cases "ds = []") (auto simp: strongest_def)

lemma keeps_evaluate [keeps_rules]: "keeps I (evaluatePolicy policy)"
  unfolding evaluatePolicy_def evaluateDailyCost_def evaluateCostSpike_def evaluateErrorRateSpike_def
    costStats_def errorStats_def Let_def
  by (intro keeps_rules)

lemma evaluate_loop_Inr:
  assumes "evaluate_loop p best policies E w = (Inr d, w')"
  shows "\<exists>results. list_all2 (\<lambda>policy r. \<exists>v v'. w_db v = w_db w \<and> evaluatePolicy policy E v = (Inr r, v'))
      (filter (\<lambda>x. policyApplies x p) policies) results \<and>
    d = fold pick (fired p (filter (\<lambda>x. policyApplies x p) policies) results) best \<and> w_db w' = w_db w"
  using assms
proof (induction policies arbitrary: best w)
  case Nil
  then show ?case by (auto simp: act_simps fired_def)
next
  case (Cons x xs)
  show ?case
  proof (cases "policyApplies x p")
    case False
    then show ?thesis using Cons by simp
  next
    case True
    obtain tr reason w1 where ev: "evaluatePolicy x E w = (Inr (tr, reason), w1)"
      and go: "evaluate_loop p (if tr then pick (decision_of p x reason) best else best) xs E w1 = (Inr d, w')"
      using Cons.prems True by (auto simp: andThen_Inr pick_def Let_def split: if_splits)
    have same: "w_db w1 = w_db w"
      using keeps_same [OF keeps_evaluate, of x E w] ev by simp
    obtain results where "list_all2 (\<lambda>policy r. \<exists>v v'. w_db v = w_db w1 \<and> evaluatePolicy policy E v = (Inr r, v'))
          (filter (\<lambda>x. policyApplies x p) xs) results"
        "d = fold pick (fired p (filter (\<lambda>x. policyApplies x p) xs) results)
          (if tr then pick (decision_of p x reason) best else best)" "w_db w' = w_db w1"
      using Cons.IH [OF go] by blast
    then show ?thesis
      using True ev same by (intro exI [of _ "(tr, reason) # results"]) (auto simp: fired_def)
  qed
qed

text \<open>
  The decision on a request is that of the strongest policy that fires: of the active policies
  that apply to the request, each evaluated once on the unchanged database, those that fire are
  compared by blocking over downgrading over notifying, the oldest policy first among equals;
  without one there is no decision. A downgrade carries the fallback model of its policy.
\<close>

lemma evaluate_strongest:
  assumes "Evaluate p E w = (Inr d, w')" "ev_OrgID p \<noteq> uuid_Nil" "TrimSpace (ev_RequestedModel p) \<noteq> []"
  defines "policies \<equiv> filter (\<lambda>x. policyApplies x p) (SliceStable (oldest_first ap_CreatedAt ap_ID)
       (filter (\<lambda>r. ap_OrgID r = ev_OrgID p \<and> ap_Status r = ''active'') (cost_anomaly_policies (w_db w))))"
  shows "\<exists>results. list_all2 (\<lambda>policy r. \<exists>v v'. w_db v = w_db w \<and> evaluatePolicy policy E v = (Inr r, v')) policies results \<and>
    d = strongest (fired p policies results) \<and> w_db w' = w_db w"
proof -
  have "list_all dc_Triggered (fired p policies results)" for results
    by (auto simp: fired_def list_all_iff decision_of_def)
  note pick = pick_strongest [OF this]
  have "evaluate_loop p no_decision (SliceStable (oldest_first ap_CreatedAt ap_ID)
       (filter (\<lambda>r. ap_OrgID r = ev_OrgID p \<and> ap_Status r = ''active'') (cost_anomaly_policies (w_db w)))) E (tick w) = (Inr d, w')"
    using assms(1-3) by (auto simp: Evaluate_def ListActiveCostAnomalyPolicies_def act_inr)
  from evaluate_loop_Inr [OF this] show ?thesis
    unfolding policies_def [symmetric] tick_simps pick .
qed

section \<open>The spike rule\<close>

text \<open>
  The comparison of rates is done with products; with windows of a month they overflow for costs
  of some twenty thousand dollars and a spike is missed.
\<close>

lemma mul64_exact: "in_int64 (a * b) \<Longrightarrow> mul64 a b = a * b"
  by (simp add: mul64_def wrap64_id)

lemma cost_spike_overflow:
  "\<not> mul64 (mul64 1000000 60) 20000 \<le> mul64 (mul64 22000000000 43200) bpsScale"
  by (simp add: mul64_def wrap64_def bpsScale_def)

definition spend :: "database \<Rightarrow> CostAnomalyPolicy \<Rightarrow> (RequestLog \<Rightarrow> bool) \<Rightarrow> time \<Rightarrow> time \<Rightarrow> int" where
  "spend db policy P from to = sum_list (map row_cost (cost_rows db (logs_in db (ap_OrgID policy) from to P)))"

definition hits :: "database \<Rightarrow> CostAnomalyPolicy \<Rightarrow> (RequestLog \<Rightarrow> bool) \<Rightarrow> time \<Rightarrow> time \<Rightarrow> int" where
  "hits db policy P from to = int (length (cost_rows db (logs_in db (ap_OrgID policy) from to P)))"

lemma costStats_eval:
  "healthy E \<Longrightarrow> policySQLFilter policy = Inr P \<Longrightarrow> in_int64 (spend (w_db w) policy P from to) \<Longrightarrow>
     costStats policy from to E w = (Inr (spend (w_db w) policy P from to, hits (w_db w) policy P from to), tick w)"
  by (simp add: costStats_def act_simps spend_def hits_def Let_def pg_bigint_def)

lemma mul64_mul64:
  assumes "0 \<le> a" "0 < b" "0 < c" "a * b * c < 2 ^ 63"
  shows "mul64 (mul64 a b) c = a * b * c"
proof -
  have "a * b * 1 \<le> a * b * c" using assms by (intro mult_left_mono) auto
  then have "a * b < 2 ^ 63" using assms by simp
  moreover have "0 \<le> a * b" "0 \<le> a * b * c" using assms by simp_all
  ultimately show ?thesis using assms(4) by (simp add: mul64_exact in_int64_def)
qed

text \<open>
  C33: The spike rule compares rates exactly as long as the two products fit into 64 bits: it fires when
  the current window has enough requests, a cost of at least the threshold, a baseline that is
  not empty, and a cost per minute of at least the multiplier times that of the baseline window.
\<close>

theorem cost_spike_exact:
  fixes policy P E w
  defines "now \<equiv> env_time E (w_step w)"
  defines "mid \<equiv> minutes_before now (ap_CurrentWindowMinutes policy)"
  defines "old \<equiv> minutes_before mid (ap_BaselineWindowMinutes policy)"
  defines "cur \<equiv> spend (w_db w) policy P mid now" and "base \<equiv> spend (w_db w) policy P old mid"
  assumes "healthy E" "policySQLFilter policy = Inr P" "in_int64 cur" "in_int64 base"
    and "0 < ap_CurrentWindowMinutes policy" "0 < ap_BaselineWindowMinutes policy" "0 < ap_SpikeMultiplierBps policy"
    and "cur * ap_BaselineWindowMinutes policy * bpsScale < 2 ^ 63"
    and "base * ap_CurrentWindowMinutes policy * ap_SpikeMultiplierBps policy < 2 ^ 63"
  shows "fst (evaluateCostSpike policy E w) = Inr
    (if ap_MinRequests policy \<le> hits (w_db w) policy P mid now \<and> 0 < cur \<and>
        (case ap_ThresholdMicroUsd policy of Some t \<Rightarrow> t \<le> cur | None \<Rightarrow> True) \<and> 0 < base \<and>
        base * ap_CurrentWindowMinutes policy * ap_SpikeMultiplierBps policy
          \<le> cur * ap_BaselineWindowMinutes policy * bpsScale
     then (True, ''cost_spike'') else (False, []))"
proof -
  have one: "costStats policy mid now E (tick w) = (Inr (cur, hits (w_db w) policy P mid now), tick (tick w))"
    using costStats_eval [OF assms(6,7), of "tick w" mid now] assms(8) by (simp add: cur_def)
  have two: "\<exists>n. costStats policy old mid E (tick (tick w)) = (Inr (base, n), tick (tick (tick w)))"
    using costStats_eval [OF assms(6,7), of "tick (tick w)" old mid] assms(9) by (simp add: base_def)
  then obtain n where two: "costStats policy old mid E (tick (tick w)) = (Inr (base, n), tick (tick (tick w)))" ..
  have "mul64 (mul64 cur (ap_BaselineWindowMinutes policy)) bpsScale = cur * ap_BaselineWindowMinutes policy * bpsScale"
    if "0 < cur" using that assms(11,13) by (intro mul64_mul64) (auto simp: bpsScale_def)
  moreover have "mul64 (mul64 base (ap_CurrentWindowMinutes policy)) (ap_SpikeMultiplierBps policy)
      = base * ap_CurrentWindowMinutes policy * ap_SpikeMultiplierBps policy" if "0 < base"
    using that assms(10,12,14) by (intro mul64_mul64) auto
  ultimately show ?thesis
    using one two
    by (auto simp: evaluateCostSpike_def Let_def act_simps now_def [symmetric] mid_def [symmetric] old_def [symmetric]
        split: option.splits)
qed

section \<open>A concrete history\<close>

text \<open>Two requests, one of 100 micro-dollars half an hour ago and one of 12 two hours ago.\<close>

definition spike_log :: "uuid \<Rightarrow> int \<Rightarrow> RequestLog" where
  "spike_log i minutes = \<lparr>rl_ID = i, rl_OrgID = 1, rl_ApiKeyID = Some 2, rl_ProviderID = Some 3, rl_ModelID = Some 4,
     rl_RoutePolicyID = None, rl_Method = ''POST'', rl_Path = ''/'', rl_RequestModel = Some ''m'',
     rl_Status = ''success'', rl_StatusCode = 200, rl_ErrorCode = None, rl_RequestHash = None,
     rl_ResponseHash = None, rl_LatencyMs = 5, rl_ProviderLatencyMs = None, rl_Metadata = None,
     rl_StartedAt = 1779271200000000 - minutes * 60000000, rl_CompletedAt = 1779271200000000 - minutes * 60000000\<rparr>"

definition spike_usage :: "uuid \<Rightarrow> UsageRecord" where
  "spike_usage i = \<lparr>ur_ID = i + 100, ur_RequestLogID = i, ur_OrgID = 1, ur_ApiKeyID = 2, ur_ProviderID = 3, ur_ModelID = 4,
     ur_PromptTokens = 1, ur_CompletionTokens = 1, ur_TotalTokens = 2, ur_ProviderUsageJson = None, ur_CreatedAt = 0\<rparr>"

definition spike_cost :: "uuid \<Rightarrow> int \<Rightarrow> CostRecord" where
  "spike_cost i c = \<lparr>cr_ID = i + 200, cr_UsageRecordID = i + 100, cr_OrgID = 1, cr_ProviderID = 3, cr_ModelID = 4,
     cr_Currency = ''USD'', cr_InputCostMicro = c, cr_OutputCostMicro = 0, cr_TotalCostMicro = c,
     cr_PricingSnapshot = RawEmpty, cr_CreatedAt = 0, cr_PricingVersionID = None\<rparr>"

definition spike_policy :: CostAnomalyPolicy where
  "spike_policy = \<lparr>ap_ID = 9, ap_OrgID = 1, ap_Name = ''spike'', ap_RuleType = ''model_cost_spike'', ap_ScopeType = ''model'',
     ap_ScopeID = None, ap_ModelAlias = Some ''m'', ap_ThresholdMicroUsd = None, ap_ThresholdBps = None,
     ap_SpikeMultiplierBps = 20000, ap_CurrentWindowMinutes = 60, ap_BaselineWindowMinutes = 1440, ap_MinRequests = 1,
     ap_Action = ''downgrade'', ap_FallbackModel = Some ''small'', ap_Status = ''active'', ap_CreatedAt = 0, ap_UpdatedAt = 0\<rparr>"

definition spike_db :: database where
  "spike_db = demo_db\<lparr>request_logs := [spike_log 20 30, spike_log 21 120], usage_records := [spike_usage 20, spike_usage 21],
     cost_records := [spike_cost 20 100, spike_cost 21 12],
     cost_anomaly_policies := [spike_policy, spike_policy\<lparr>ap_ID := 10, ap_Action := ''notify'', ap_FallbackModel := None\<rparr>]\<rparr>"

definition spike_request :: EvaluateParams where
  "spike_request = \<lparr>ev_OrgID = 1, ev_APIKeyID = 2, ev_RequestedModel = ''m ''\<rparr>"

lemma spike_demo_decision:
  "fst (Evaluate spike_request demo_env (world_of spike_db)) = Inr (decision_of spike_request spike_policy ''cost_spike'')"
  by code_simp

lemma evaluate_strongest_demo:
  "\<exists>policies results. decision_of spike_request spike_policy ''cost_spike'' = strongest (fired spike_request policies results)"
proof -
  obtain w' where run: "Evaluate spike_request demo_env (world_of spike_db)
      = (Inr (decision_of spike_request spike_policy ''cost_spike''), w')"
    using spike_demo_decision by (metis prod.collapse)
  have "ev_OrgID spike_request \<noteq> uuid_Nil" "TrimSpace (ev_RequestedModel spike_request) \<noteq> []" by code_simp+
  from evaluate_strongest [OF run this] show ?thesis by blast
qed

definition for_model_m :: "RequestLog \<Rightarrow> bool" where
  "for_model_m = (\<lambda>rl. rl_RequestModel rl = Some ''m'')"

definition spike_mid :: time where
  "spike_mid = minutes_before (env_time demo_env 0) 60"

lemma spike_stats:
  "spend spike_db spike_policy for_model_m spike_mid (env_time demo_env 0) = 100"
  "spend spike_db spike_policy for_model_m (minutes_before spike_mid 1440) spike_mid = 12"
  "hits spike_db spike_policy for_model_m spike_mid (env_time demo_env 0) = 1"
  by code_simp+

theorem cost_spike_exact_witness:
  "fst (evaluateCostSpike spike_policy demo_env (world_of spike_db)) = Inr (True, ''cost_spike'')"
proof -
  have P: "policySQLFilter spike_policy = Inr for_model_m"
    by (simp add: policySQLFilter_def spike_policy_def for_model_m_def)
  have sel: "ap_CurrentWindowMinutes spike_policy = 60" "ap_BaselineWindowMinutes spike_policy = 1440"
    "ap_SpikeMultiplierBps spike_policy = 20000" "ap_MinRequests spike_policy = 1" "ap_ThresholdMicroUsd spike_policy = None"
    "w_step (world_of spike_db) = 0"
    by (simp_all add: spike_policy_def world_of_def)
  show ?thesis
    using cost_spike_exact [OF healthy_demo P, of "world_of spike_db"]
    unfolding sel world_of_db spike_mid_def [symmetric] spike_stats
    by (simp add: in_int64_def bpsScale_def)
qed

end
