(* ===== verification/Providers.thy ===== *)
theory Providers
  imports Samples
begin

text \<open>
  The contract with LLM providers (\<^verbatim>\<open>internal/provider/contract/types.go\<close>, \<^verbatim>\<open>registry.go\<close>) and the
  retries of \<^verbatim>\<open>internal/gateway/retry_policy.go\<close> and \<^verbatim>\<open>chatProviderWithRetry\<close>. An adapter answers
  a request by the number of the interaction; the messages of every call are noted among what
  was sent. A context is what \<^verbatim>\<open>ctx.Err()\<close> shows at an interaction.
\<close>

section \<open>Requests, answers, errors\<close>

record ProviderConfig =
  pf_ID :: uuid
  pf_Name :: string
  pf_Type :: string
  pf_BaseURL :: string
  pf_APIKey :: string
  pf_TimeoutMS :: int

record ModelConfig =
  mf_ID :: uuid
  mf_ProviderModelName :: string
  mf_DisplayName :: string

record ChatMessage =
  cm_Role :: string
  cm_Content :: string

record ChatRequest =
  cq_RequestID :: string
  cq_OrgID :: uuid
  cq_Provider :: ProviderConfig
  cq_Model :: ModelConfig
  cq_Messages :: "ChatMessage list"
  cq_Temperature :: "rat option"
  cq_MaxTokens :: "int option"
  cq_Stream :: bool

record Usage =
  ug_PromptTokens :: int
  ug_CompletionTokens :: int
  ug_TotalTokens :: int

record ChatResponse =
  ans_ProviderResponseID :: string
  ans_Content :: string
  ans_Role :: string
  ans_FinishReason :: string
  ans_Usage :: Usage
  ans_LatencyMS :: int
  ans_RawUsage :: json

record StreamUsage =
  su_PromptTokens :: int
  su_CompletionTokens :: int
  su_TotalTokens :: int
  su_Raw :: json

text \<open>\<^verbatim>\<open>errors.As\<close> with the provider error type, through the chain of causes.\<close>

fun ErrorCode :: "err \<Rightarrow> string" where
  "ErrorCode (ProviderErr code status retryable cause) = code"
| "ErrorCode _ = []"

fun Retryable :: "err \<Rightarrow> bool" where
  "Retryable (ProviderErr code status retryable cause) = retryable"
| "Retryable _ = False"

fun is_canceled :: "err \<Rightarrow> bool" where
  "is_canceled ContextCanceled = True"
| "is_canceled (ProviderErr code status retryable (Some cause)) = is_canceled cause"
| "is_canceled _ = False"

section \<open>Adapters\<close>

record adapter =
  ad_Chat :: "ChatRequest \<Rightarrow> nat \<Rightarrow> ChatResponse outcome"
  ad_StreamChat :: "ChatRequest \<Rightarrow> nat \<Rightarrow> unit outcome"

definition call_of :: "ChatRequest \<Rightarrow> sent_message" where
  "call_of req = ProviderCall (pf_ID (cq_Provider req)) (mf_ID (cq_Model req))
     (map (\<lambda>m. (cm_Role m, cm_Content m)) (cq_Messages req))"

definition call_provider :: "(ChatRequest \<Rightarrow> nat \<Rightarrow> 'a outcome) \<Rightarrow> ChatRequest \<Rightarrow> 'a act" where
  "call_provider f req = (\<lambda>E w. (f req (w_step w), (tick w)\<lparr>w_sent := w_sent w @ [call_of req]\<rparr>))"

type_synonym registry = "(string \<times> adapter) list"

definition AdapterFor :: "registry \<Rightarrow> string \<Rightarrow> adapter outcome" where
  "AdapterFor r providerType = (case map_of r providerType of
     None \<Rightarrow> Inl (ProviderErr ''provider_unavailable'' 0 False None)
   | Some a \<Rightarrow> Inr a)"

section \<open>Retries\<close>

record RetryPolicy =
  ry_MaxRetries :: int
  ry_Backoff :: int

definition retry_Normalize :: "RetryPolicy \<Rightarrow> RetryPolicy" where
  "retry_Normalize p = \<lparr>ry_MaxRetries = (if ry_MaxRetries p < 0 then 1 else ry_MaxRetries p),
     ry_Backoff = (if ry_Backoff p \<le> 0 then 100000000 else ry_Backoff p)\<rparr>"

definition NewRetryPolicy :: "int \<Rightarrow> int \<Rightarrow> RetryPolicy" where
  "NewRetryPolicy maxRetries retryBackoffMS =
     retry_Normalize \<lparr>ry_MaxRetries = maxRetries, ry_Backoff = wrap64 (retryBackoffMS * 1000000)\<rparr>"

definition ShouldRetry :: "err \<Rightarrow> bool" where
  "ShouldRetry e =
     (if is_canceled e then False
      else if Retryable e then True
      else ErrorCode e = ''provider_timeout'' \<or> ErrorCode e = ''provider_unavailable'')"

type_synonym ctx = "nat \<Rightarrow> err option"

text \<open>The wait between two attempts: it ends with the timer or with the context.\<close>

definition backoff :: "ctx \<Rightarrow> err option act" where
  "backoff ctx = (\<lambda>E w. (Inr (ctx (w_step w)), tick w))"

text \<open>
  The loop over \<open>attempt \<le> maxAttempts\<close>; the result pairs the answer or the error with the number
  of attempts made.
\<close>

function retry_loop :: "ctx \<Rightarrow> adapter \<Rightarrow> ChatRequest \<Rightarrow> int \<Rightarrow> int \<Rightarrow> err \<Rightarrow> (ChatResponse outcome \<times> int) act" where
  "retry_loop ctx a req maxAttempts n lastErr =
     (if maxAttempts < n then ret (Inl lastErr, maxAttempts)
      else andThen (attempt (call_provider (ad_Chat a) req)) (\<lambda>r. case r of
          Inr response \<Rightarrow> ret (Inr response, n)
        | Inl e \<Rightarrow>
            if n = maxAttempts \<or> \<not> ShouldRetry e then ret (Inl e, n)
            else andThen (backoff ctx) (\<lambda>stopped. case stopped of
                Some ctxErr \<Rightarrow> ret (Inl ctxErr, n)
              | None \<Rightarrow> retry_loop ctx a req maxAttempts (n + 1) e)))"
  by pat_completeness auto

termination
  by (relation "measure (\<lambda>(ctx, a, req, maxAttempts, n, e). nat (maxAttempts + 1 - n))") auto

declare retry_loop.simps [simp del]

definition max_attempts :: "RetryPolicy \<Rightarrow> int" where
  "max_attempts p = (let m = wrap64 (ry_MaxRetries (retry_Normalize p) + 1) in if m < 1 then 1 else m)"

definition chatProviderWithRetry :: "RetryPolicy \<Rightarrow> ctx \<Rightarrow> adapter \<Rightarrow> ChatRequest \<Rightarrow> (ChatResponse outcome \<times> int) act" where
  "chatProviderWithRetry policy ctx a req = retry_loop ctx a req (max_attempts policy) 1 Panic"

section \<open>Failures and fallback\<close>

definition providerErrorStatus :: "err \<Rightarrow> int \<times> string" where
  "providerErrorStatus e =
     (if ErrorCode e = ''provider_timeout'' then (504, ''provider_timeout'')
      else if ErrorCode e = ''provider_unavailable'' then (503, ''provider_unavailable'')
      else if ErrorCode e = ''usage_missing'' then (502, ''usage_missing'')
      else (502, ''provider_error''))"

definition fallbackRetryable :: "err option \<Rightarrow> bool" where
  "fallbackRetryable e = (case e of
     None \<Rightarrow> False
   | Some e \<Rightarrow> Retryable e \<or> ErrorCode e = ''provider_timeout'' \<or> ErrorCode e = ''provider_unavailable'')"

definition shouldTryNextFallbackTarget :: "bool \<Rightarrow> bool \<Rightarrow> nat \<Rightarrow> nat \<Rightarrow> bool" where
  "shouldTryNextFallbackTarget fallbackPolicy retryable index targetCount \<longleftrightarrow>
     fallbackPolicy \<and> retryable \<and> int index < int targetCount - 1"

section \<open>How often a provider is asked\<close>

lemma keeps_call [keeps_rules]: "keeps I (call_provider f req)" "keeps I (backoff ctx)"
  by (simp_all add: keeps_def call_provider_def backoff_def)

lemma keeps_retry_loop [keeps_rules]: "keeps I (retry_loop ctx a req maxAttempts n e)"
proof (induction ctx a req maxAttempts n e rule: retry_loop.induct)
  case (1 ctx a req maxAttempts n e)
  show ?case
    by (subst retry_loop.simps) (intro keeps_rules 1, auto)
qed

lemma keeps_chatProviderWithRetry [keeps_rules]: "keeps I (chatProviderWithRetry policy ctx a req)"
  unfolding chatProviderWithRetry_def by (rule keeps_rules)

text \<open>The call of attempt number \<open>i\<close>, counted from zero, is made two interactions after the one before.\<close>

definition failed_softly :: "adapter \<Rightarrow> ChatRequest \<Rightarrow> nat \<Rightarrow> nat \<Rightarrow> bool" where
  "failed_softly a req start i = (case ad_Chat a req (start + 2 * i) of Inl e \<Rightarrow> ShouldRetry e | Inr _ \<Rightarrow> False)"

lemma retry_loop_run:
  assumes "n \<le> m"
  shows "\<exists>r k w'. retry_loop ctx a req m n e0 E w = (Inr (r, n + int k), w') \<and> n + int k \<le> m \<and>
    w_sent w' = w_sent w @ replicate (Suc k) (call_of req) \<and> w_db w' = w_db w \<and>
    list_all (failed_softly a req (w_step w)) [0 ..< k] \<and>
    (case r of
       Inr response \<Rightarrow> ad_Chat a req (w_step w + 2 * k) = Inr response
     | Inl e \<Rightarrow> (\<exists>e'. ad_Chat a req (w_step w + 2 * k) = Inl e' \<and>
         (if n + int k < m \<and> ShouldRetry e' then ctx (Suc (w_step w + 2 * k)) = Some e else e = e')))"
  using assms
proof (induction "nat (m - n)" arbitrary: n e0 w rule: less_induct)
  case less
  define w1 where "w1 = (tick w)\<lparr>w_sent := w_sent w @ [call_of req]\<rparr>"
  have w1: "w_step w1 = Suc (w_step w)" "w_sent w1 = w_sent w @ [call_of req]" "w_db w1 = w_db w"
    by (simp_all add: w1_def)
  have step: "retry_loop ctx a req m n e0 E w = (case ad_Chat a req (w_step w) of
      Inr response \<Rightarrow> (Inr (Inr response, n), w1)
    | Inl e \<Rightarrow> if n = m \<or> \<not> ShouldRetry e then (Inr (Inl e, n), w1)
        else (case ctx (w_step w1) of Some c \<Rightarrow> (Inr (Inl c, n), tick w1)
          | None \<Rightarrow> retry_loop ctx a req m (n + 1) e E (tick w1)))"
    using less.prems
    by (subst retry_loop.simps) (simp add: act_simps call_provider_def backoff_def w1_def split: sum.split option.split)
  show ?case
  proof (cases "\<exists>e. ad_Chat a req (w_step w) = Inl e \<and> n \<noteq> m \<and> ShouldRetry e \<and> ctx (w_step w1) = None")
    case False
    then show ?thesis
      using step w1 less.prems
      by (intro exI [of _ "fst (projr (fst (retry_loop ctx a req m n e0 E w)))"] exI [of _ 0]
          exI [of _ "snd (retry_loop ctx a req m n e0 E w)"])
        (auto split: sum.splits option.splits)
  next
    case True
    then obtain e where e: "ad_Chat a req (w_step w) = Inl e" "n \<noteq> m" "ShouldRetry e" "ctx (w_step w1) = None" by blast
    obtain r k w' where ih: "retry_loop ctx a req m (n + 1) e E (tick w1) = (Inr (r, n + 1 + int k), w')" "n + 1 + int k \<le> m"
        "w_sent w' = w_sent (tick w1) @ replicate (Suc k) (call_of req)" "w_db w' = w_db (tick w1)"
        "list_all (failed_softly a req (w_step (tick w1))) [0 ..< k]"
        "case r of
           Inr response \<Rightarrow> ad_Chat a req (w_step (tick w1) + 2 * k) = Inr response
         | Inl x \<Rightarrow> (\<exists>e'. ad_Chat a req (w_step (tick w1) + 2 * k) = Inl e' \<and>
             (if n + 1 + int k < m \<and> ShouldRetry e' then ctx (Suc (w_step (tick w1) + 2 * k)) = Some x else x = e'))"
      using less.hyps [of "n + 1" e "tick w1"] less.prems e(2) by (auto simp: nat_less_iff)
    have "failed_softly a req (w_step w) i" if "i < Suc k" for i
      using that ih(5) e w1 by (cases i) (auto simp: list_all_iff failed_softly_def)
    then have soft: "list_all (failed_softly a req (w_step w)) [0 ..< Suc k]" by (simp add: list_all_iff)
    have "retry_loop ctx a req m n e0 E w = (Inr (r, n + int (Suc k)), w')"
      using step e ih(1) by (simp add: algebra_simps)
    moreover have "w_sent w' = w_sent w @ replicate (Suc (Suc k)) (call_of req)" "w_db w' = w_db w"
      using ih(3,4) w1 by simp_all
    ultimately show ?thesis
      using ih(2,6) soft w1
      by (intro exI [of _ r] exI [of _ "Suc k"] exI [of _ w']) (auto simp: algebra_simps split: sum.splits)
  qed
qed

lemma max_attempts_pos: "1 \<le> max_attempts p"
  by (simp add: max_attempts_def Let_def)

text \<open>
  C14: Asking a provider always ends. It is asked at least once and at most \<^verbatim>\<open>MaxRetries + 1\<close> times,
  always with the same request; every attempt but the last failed with an error worth retrying;
  the result is the last answer, or the error of the context when that ended during the wait.
\<close>

theorem retry_terminates:
  "\<exists>r k w'. chatProviderWithRetry policy ctx a req E w = (Inr (r, 1 + int k), w') \<and>
    1 + int k \<le> max_attempts policy \<and> w_sent w' = w_sent w @ replicate (Suc k) (call_of req) \<and> w_db w' = w_db w \<and>
    list_all (failed_softly a req (w_step w)) [0 ..< k] \<and>
    (case r of
       Inr response \<Rightarrow> ad_Chat a req (w_step w + 2 * k) = Inr response
     | Inl e \<Rightarrow> (\<exists>e'. ad_Chat a req (w_step w + 2 * k) = Inl e' \<and>
         (if 1 + int k < max_attempts policy \<and> ShouldRetry e' then ctx (Suc (w_step w + 2 * k)) = Some e else e = e')))"
  unfolding chatProviderWithRetry_def by (rule retry_loop_run [OF max_attempts_pos])

end
