(* ===== verification/GatewayBase.thy ===== *)
theory GatewayBase
  imports ContentPolicy Auth Anomaly Alerts Routing Providers
begin

text \<open>
  The building blocks of the chat service (\<^verbatim>\<open>internal/gateway/chat_service.go\<close>): the request and its
  decoding, the content policy, cost estimates and reservation, the metadata of the request log,
  cache events, the provider's configuration and the loop over the targets of a route. Metrics,
  tracing and logging are left out, and with them the readings of the clock only they make.
\<close>

section \<open>The service and its collaborators\<close>

text \<open>
  Prompt cache, semantic cache and embedding adapter answer by the number of the interaction, like
  every other collaborator behind the network; the service works the same whatever they answer.
\<close>

record PromptKey =
  pk_RedisKey :: string
  pk_CacheKeyHash :: string
  pk_MessagesHash :: string

record CachedChatResponse =
  cd_ProviderID :: uuid
  cd_ModelID :: uuid
  cd_ProviderName :: string
  cd_ProviderModel :: string
  cd_Role :: string
  cd_Content :: string
  cd_FinishReason :: string

record SemanticMatch =
  sm_CacheKeyHash :: string
  sm_MessagesHash :: string
  sm_Similarity :: rat
  sm_Response :: CachedChatResponse

record ChatCompletionRequest =
  req_Model :: string
  req_Messages :: "ChatMessage list"
  req_Temperature :: "rat option"
  req_MaxTokens :: "int option"
  req_Stream :: bool

record prompt_cache =
  pc_Get :: "PromptKey \<Rightarrow> nat \<Rightarrow> CachedChatResponse outcome"
  pc_Set :: "PromptKey \<Rightarrow> CachedChatResponse \<Rightarrow> nat \<Rightarrow> unit outcome"

record semantic_cache =
  sc_Embed :: "string \<Rightarrow> nat \<Rightarrow> rat list outcome"
  sc_Lookup :: "uuid \<Rightarrow> string \<Rightarrow> rat list \<Rightarrow> nat \<Rightarrow> SemanticMatch outcome"
  sc_Store :: "uuid \<Rightarrow> string \<Rightarrow> string \<Rightarrow> rat list \<Rightarrow> CachedChatResponse \<Rightarrow> nat \<Rightarrow> SemanticMatch outcome"
  sc_MaxTemp :: rat

definition ask :: "(nat \<Rightarrow> 'a outcome) \<Rightarrow> 'a act" where
  "ask f = (\<lambda>E w. (f (w_step w), tick w))"

record chat_service =
  gw_registry :: registry
  gw_retryPolicy :: RetryPolicy
  gw_metering :: metering_service
  gw_alerts :: AlertService
  gw_secretKeyRing :: "SecretKeyRing option"
  gw_publicOutboundOnly :: bool
  gw_promptCache :: "prompt_cache option"
  gw_semanticCache :: "semantic_cache option"
  gw_parse_json :: "string \<Rightarrow> raw_json"
  gw_sha256_hex :: "string \<Rightarrow> string"
  gw_json_Marshal :: "json \<Rightarrow> string"
  gw_FormatFloat :: "rat \<Rightarrow> string"

record ChatInput =
  in_RequestID :: uuid
  in_Principal :: APIKeyPrincipal
  in_Method :: string
  in_Path :: string
  in_RawBody :: string
  in_ctx :: ctx

section \<open>Decoding the body\<close>

text \<open>
  \<^verbatim>\<open>json.Unmarshal\<close> into the request: names are compared without regard to case, \<^verbatim>\<open>null\<close> leaves a field
  as it is, a value of the wrong type is an error, unknown names are ignored.
\<close>

fun decode_string :: "json \<Rightarrow> string \<Rightarrow> string outcome" where
  "decode_string (JStr s) old = Inr s"
| "decode_string JNull old = Inr old"
| "decode_string _ old = Inl ErrJSON"

fun decode_bool :: "json \<Rightarrow> bool \<Rightarrow> bool outcome" where
  "decode_bool (JBool b) old = Inr b"
| "decode_bool JNull old = Inr old"
| "decode_bool _ old = Inl ErrJSON"

fun decode_int :: "json \<Rightarrow> int option outcome" where
  "decode_int (JInt n) = (if in_int64 n then Inr (Some n) else Inl ErrJSON)"
| "decode_int JNull = Inr None"
| "decode_int _ = Inl ErrJSON"

fun decode_number :: "json \<Rightarrow> rat option outcome" where
  "decode_number (JInt n) = Inr (Some (of_int n))"
| "decode_number (JFrac q) = Inr (Some q)"
| "decode_number JNull = Inr None"
| "decode_number _ = Inl ErrJSON"

fun decode_message_members :: "(string \<times> json) list \<Rightarrow> ChatMessage \<Rightarrow> ChatMessage outcome" where
  "decode_message_members [] m = Inr m"
| "decode_message_members ((k, v) # rest) m =
     (if ToLower k = ''role'' then
        (case decode_string v (cm_Role m) of
           Inl e \<Rightarrow> Inl e | Inr s \<Rightarrow> decode_message_members rest (m\<lparr>cm_Role := s\<rparr>))
      else if ToLower k = ''content'' then
        (case decode_string v (cm_Content m) of
           Inl e \<Rightarrow> Inl e | Inr s \<Rightarrow> decode_message_members rest (m\<lparr>cm_Content := s\<rparr>))
      else decode_message_members rest m)"

fun decode_message :: "json \<Rightarrow> ChatMessage outcome" where
  "decode_message (JObj members) = decode_message_members members \<lparr>cm_Role = [], cm_Content = []\<rparr>"
| "decode_message JNull = Inr \<lparr>cm_Role = [], cm_Content = []\<rparr>"
| "decode_message _ = Inl ErrJSON"

fun decode_messages :: "json list \<Rightarrow> ChatMessage list outcome" where
  "decode_messages [] = Inr []"
| "decode_messages (j # js) = (case decode_message j of
     Inl e \<Rightarrow> Inl e
   | Inr m \<Rightarrow> (case decode_messages js of Inl e \<Rightarrow> Inl e | Inr ms \<Rightarrow> Inr (m # ms)))"

fun decode_message_list :: "json \<Rightarrow> ChatMessage list outcome" where
  "decode_message_list (JArr js) = decode_messages js"
| "decode_message_list JNull = Inr []"
| "decode_message_list _ = Inl ErrJSON"

fun decode_request_members :: "(string \<times> json) list \<Rightarrow> ChatCompletionRequest \<Rightarrow> ChatCompletionRequest outcome" where
  "decode_request_members [] r = Inr r"
| "decode_request_members ((k, v) # rest) r =
     (let name = ToLower k in
      if name = ''model'' then
        (case decode_string v (req_Model r) of
           Inl e \<Rightarrow> Inl e | Inr s \<Rightarrow> decode_request_members rest (r\<lparr>req_Model := s\<rparr>))
      else if name = ''messages'' then
        (case decode_message_list v of
           Inl e \<Rightarrow> Inl e | Inr ms \<Rightarrow> decode_request_members rest (r\<lparr>req_Messages := ms\<rparr>))
      else if name = ''temperature'' then
        (case decode_number v of
           Inl e \<Rightarrow> Inl e | Inr t \<Rightarrow> decode_request_members rest (r\<lparr>req_Temperature := t\<rparr>))
      else if name = ''max_tokens'' then
        (case decode_int v of
           Inl e \<Rightarrow> Inl e | Inr t \<Rightarrow> decode_request_members rest (r\<lparr>req_MaxTokens := t\<rparr>))
      else if name = ''stream'' then
        (case decode_bool v (req_Stream r) of
           Inl e \<Rightarrow> Inl e | Inr b \<Rightarrow> decode_request_members rest (r\<lparr>req_Stream := b\<rparr>))
      else decode_request_members rest r)"

definition empty_request :: ChatCompletionRequest where
  "empty_request = \<lparr>req_Model = [], req_Messages = [], req_Temperature = None, req_MaxTokens = None, req_Stream = False\<rparr>"

fun decode_request :: "raw_json \<Rightarrow> ChatCompletionRequest outcome" where
  "decode_request (RawValid (JObj members)) = decode_request_members members empty_request"
| "decode_request (RawValid JNull) = Inr empty_request"
| "decode_request _ = Inl ErrJSON"

section \<open>The content policy\<close>

record contentPolicyDecision =
  cpd_Action :: string
  cpd_Hit :: bool
  cpd_Blocked :: bool
  cpd_Types :: "string list"

fun redact_messages :: "string \<Rightarrow> ChatMessage list \<Rightarrow> (ChatMessage list \<times> PIIHit list) outcome" where
  "redact_messages action [] = Inr ([], [])"
| "redact_messages action (m # ms) =
     (let hits = Detect (cm_Content m) in
      case (if hits \<noteq> [] \<and> action = ''redact''
            then (case Redact (cm_Content m) hits of Inl e \<Rightarrow> Inl e | Inr s \<Rightarrow> Inr (m\<lparr>cm_Content := s\<rparr>))
            else Inr m) of
        Inl e \<Rightarrow> Inl e
      | Inr m' \<Rightarrow> (case redact_messages action ms of
          Inl e \<Rightarrow> Inl e
        | Inr (ms', allHits) \<Rightarrow> Inr (m' # ms', hits @ allHits)))"

definition applyContentPolicy :: "uuid \<Rightarrow> ChatCompletionRequest \<Rightarrow> (ChatCompletionRequest \<times> contentPolicyDecision) act" where
  "applyContentPolicy orgID request =
     andThen (ActivePIIAction orgID) (\<lambda>(action, err). case err of
       Some e \<Rightarrow> fail e
     | None \<Rightarrow> andThen (lift (redact_messages action (req_Messages request))) (\<lambda>(redacted, allHits).
         ret (if allHits \<noteq> [] \<and> action = ''redact'' then request\<lparr>req_Messages := redacted\<rparr> else request,
              \<lparr>cpd_Action = action, cpd_Hit = (allHits \<noteq> []),
               cpd_Blocked = (allHits \<noteq> [] \<and> action = ''block''), cpd_Types = HitTypes allHits\<rparr>)))"

section \<open>Estimates\<close>

text \<open>\<^verbatim>\<open>utf8.RuneCountInString\<close> on valid UTF-8, which decoded JSON strings are: continuation bytes do not count.\<close>

definition rune_count :: "string \<Rightarrow> int" where
  "rune_count s = int (length (filter (\<lambda>c. \<not> (128 \<le> (of_char c :: nat) \<and> (of_char c :: nat) < 192)) s))"

definition estimatePromptTokens :: "ChatMessage list \<Rightarrow> int" where
  "estimatePromptTokens messages =
     (let totalRunes = sum_list (map (\<lambda>m. rune_count (cm_Content m)) messages) in
      if totalRunes = 0 \<and> messages \<noteq> [] then 1
      else let tokens = (totalRunes + 3) div 4 in
        if tokens < 1 \<and> messages \<noteq> [] then 1 else tokens)"

definition estimateMaxTokens :: "int option \<Rightarrow> int" where
  "estimateMaxTokens maxTokens = (case maxTokens of None \<Rightarrow> 0 | Some n \<Rightarrow> if n \<le> 0 then 0 else n)"

definition estimateReservationCompletionTokens :: "int option \<Rightarrow> int \<Rightarrow> Model \<Rightarrow> int" where
  "estimateReservationCompletionTokens maxTokens promptTokens model =
     (case (case maxTokens of Some n \<Rightarrow> if 0 < n then Some n else None | None \<Rightarrow> None) of
        Some n \<Rightarrow> n
      | None \<Rightarrow> (case md_ContextWindow model of
          None \<Rightarrow> 4096
        | Some window \<Rightarrow> (let remaining = wrap64 (window - promptTokens) in if remaining < 0 then 0 else remaining)))"

fun max_cost_loop :: "int option \<Rightarrow> int \<Rightarrow> int \<Rightarrow> Model list \<Rightarrow> int outcome" where
  "max_cost_loop maxTokens promptTokens maxCost [] = Inr maxCost"
| "max_cost_loop maxTokens promptTokens maxCost (m # ms) =
     (case Calculate \<lparr>ci_PromptTokens = promptTokens,
          ci_CompletionTokens = estimateReservationCompletionTokens maxTokens promptTokens m,
          ci_InputPrice = md_InputPriceMicroUsdPer1kTokens m, ci_OutputPrice = md_OutputPriceMicroUsdPer1kTokens m\<rparr> of
        Inl e \<Rightarrow> Inl e
      | Inr c \<Rightarrow> max_cost_loop maxTokens promptTokens
          (if maxCost < co_TotalCostMicro c then co_TotalCostMicro c else maxCost) ms)"

definition estimateReservationCost :: "ChatCompletionRequest \<Rightarrow> Model list \<Rightarrow> int outcome" where
  "estimateReservationCost request ms =
     max_cost_loop (req_MaxTokens request) (estimatePromptTokens (req_Messages request)) 0 ms"

section \<open>Metadata\<close>

text \<open>
  The metadata of a request log is a \<^verbatim>\<open>map[string]any\<close>, marshalled with its keys in order. Adding to
  it decodes and encodes it again, whereby numbers pass through \<^verbatim>\<open>float64\<close>.
\<close>

fun extra_bits :: "nat \<Rightarrow> nat" where
  "extra_bits n = (if n < 2 ^ 53 then 0 else Suc (extra_bits (n div 2)))"

declare extra_bits.simps [simp del]

definition float64_nat :: "nat \<Rightarrow> nat" where
  "float64_nat n = (let k = extra_bits n; q = n div 2 ^ k; r = n mod 2 ^ k in
     if k = 0 then n
     else (if 2 ^ k < 2 * r \<or> 2 ^ k = 2 * r \<and> odd q then q + 1 else q) * 2 ^ k)"

definition float64_int :: "int \<Rightarrow> int" where
  "float64_int i = sgn i * int (float64_nat (nat \<bar>i\<bar>))"

fun json_any :: "json \<Rightarrow> json" where
  "json_any (JInt n) = JInt (float64_int n)"
| "json_any (JArr js) = JArr (map json_any js)"
| "json_any (JObj members) = JObj (map (\<lambda>(k, v). (k, json_any v)) members)"
| "json_any j = j"

fun obj_put :: "string \<Rightarrow> json \<Rightarrow> (string \<times> json) list \<Rightarrow> (string \<times> json) list" where
  "obj_put k v [] = [(k, v)]"
| "obj_put k v ((k', v') # rest) =
     (if k = k' then (k, v) # rest else if k < k' then (k, v) # (k', v') # rest else (k', v') # obj_put k v rest)"

definition obj_of :: "(string \<times> json) list \<Rightarrow> (string \<times> json) list" where
  "obj_of kvs = fold (\<lambda>(k, v). obj_put k v) kvs []"

type_synonym metadata = "raw_json option"

definition metadata_body :: "metadata \<Rightarrow> (string \<times> json) list" where
  "metadata_body m = (case m of
     Some (RawValid (JObj members)) \<Rightarrow> map (\<lambda>(k, v). (k, json_any v)) members
   | _ \<Rightarrow> [])"

definition metadata_put :: "metadata \<Rightarrow> string \<Rightarrow> json \<Rightarrow> metadata" where
  "metadata_put m k v = Some (RawValid (JObj (obj_put k v (metadata_body m))))"

text \<open>\<^verbatim>\<open>time.Time\<close> in JSON: RFC 3339 with the fraction cut of its trailing zeros.\<close>

definition pad :: "nat \<Rightarrow> int \<Rightarrow> string" where
  "pad k n = (let s = itoa n in replicate (k - length s) CHR ''0'' @ s)"

definition fraction :: "int \<Rightarrow> string" where
  "fraction us = (let s = rev (dropWhile (\<lambda>c. c = CHR ''0'') (rev (pad 6 us))) in if s = [] then [] else CHR ''.'' # s)"

definition rfc3339 :: "time \<Rightarrow> string" where
  "rfc3339 t = (let us = t mod us_per_day in
     pad 4 (time_Year t) @ ''-'' @ pad 2 (time_Month t) @ ''-'' @ pad 2 (time_Day t) @ ''T'' @
     pad 2 (us div time_hour) @ '':'' @ pad 2 (us mod time_hour div time_minute) @ '':'' @
     pad 2 (us mod time_minute div time_second) @ fraction (us mod time_second) @ ''Z'')"

definition budgetMetadataBody :: "CheckResult \<Rightarrow> json option" where
  "budgetMetadataBody result = map_option (\<lambda>s. JObj (obj_of
     [(''id'', JStr (uuid_String (bg_ID (bs_Budget s)))), (''action'', JStr (ck_Action result)),
      (''used_micro_usd'', JInt (bs_UsedMicroUSD s)), (''limit_micro_usd'', JInt (bg_LimitMicroUsd (bs_Budget s))),
      (''remaining_micro_usd'', JInt (bs_RemainingMicroUSD s)), (''exceeded'', JBool (bs_Exceeded s)),
      (''period'', JStr (bg_Period (bs_Budget s))), (''window_start'', JStr (rfc3339 (bs_WindowStart s))),
      (''window_end'', JStr (rfc3339 (bs_WindowEnd s))), (''pre_check_only'', JBool True),
      (''projected_cost_known'', JBool False)])) (ck_Status result)"

definition apiKeyQuotaMetadataBody :: "APIKeyQuotaCheckResult \<Rightarrow> json option" where
  "apiKeyQuotaMetadataBody result = map_option (\<lambda>s. JObj (obj_of
     [(''id'', JStr (uuid_String (ak_ID (qs_APIKey s)))), (''action'', JStr (qc_Action result)),
      (''used_micro_usd'', JInt (qs_UsedMicroUSD s)), (''limit_micro_usd'', JInt (qs_LimitMicroUSD s)),
      (''remaining_micro_usd'', JInt (qs_RemainingMicroUSD s)), (''exceeded'', JBool (qs_Exceeded s)),
      (''period'', JStr (qs_Period s)), (''window_start'', JStr (rfc3339 (qs_WindowStart s))),
      (''window_end'', JStr (rfc3339 (qs_WindowEnd s))), (''pre_check_only'', JBool True),
      (''projected_cost_known'', JBool False)])) (qc_Status result)"

definition budgetMetadata :: "CheckResult \<Rightarrow> metadata" where
  "budgetMetadata result = map_option (\<lambda>b. RawValid (JObj [(''budget'', b)])) (budgetMetadataBody result)"

definition apiKeyQuotaMetadata :: "APIKeyQuotaCheckResult \<Rightarrow> metadata" where
  "apiKeyQuotaMetadata result = map_option (\<lambda>b. RawValid (JObj [(''api_key_quota'', b)])) (apiKeyQuotaMetadataBody result)"

record providerAttemptMetadata =
  pa_ProviderID :: uuid
  pa_ModelID :: uuid
  pa_Priority :: int
  pa_Result :: string
  pa_ErrorCode :: string
  pa_Retryable :: bool
  pa_Attempts :: int

definition attempt_json :: "providerAttemptMetadata \<Rightarrow> json" where
  "attempt_json a = JObj ([(''provider_id'', JStr (uuid_String (pa_ProviderID a))),
       (''model_id'', JStr (uuid_String (pa_ModelID a))), (''priority'', JInt (pa_Priority a)),
       (''result'', JStr (pa_Result a))] @
     (if pa_ErrorCode a = [] then [] else [(''error_code'', JStr (pa_ErrorCode a))]) @
     (if pa_Retryable a then [(''retryable'', JBool True)] else []) @
     [(''attempts'', JInt (pa_Attempts a))])"

definition attempts_json :: "providerAttemptMetadata list \<Rightarrow> json" where
  "attempts_json attempts = (if attempts = [] then JNull else JArr (map attempt_json attempts))"

definition opt_member :: "string \<Rightarrow> json option \<Rightarrow> (string \<times> json) list" where
  "opt_member k v = (case v of None \<Rightarrow> [] | Some j \<Rightarrow> [(k, j)])"

definition chatMetadata ::
  "CheckResult \<Rightarrow> APIKeyQuotaCheckResult \<Rightarrow> providerAttemptMetadata list \<Rightarrow> bool \<Rightarrow> bool \<Rightarrow> metadata" where
  "chatMetadata result quotaResult attempts includeFallback includeAttempts =
     (let body = obj_of (opt_member ''budget'' (budgetMetadataBody result) @
        opt_member ''api_key_quota'' (apiKeyQuotaMetadataBody quotaResult) @
        (if includeFallback then [(''fallback_count'', JInt (max 0 (int (length attempts) - 1)))] else []) @
        (if includeAttempts then [(''attempted_targets'', attempts_json attempts)] else []))
      in if body = [] then None else Some (RawValid (JObj body)))"

definition streamMetadata :: "CheckResult \<Rightarrow> APIKeyQuotaCheckResult \<Rightarrow> bool \<Rightarrow> metadata" where
  "streamMetadata result quotaResult usageMissing = Some (RawValid (JObj (obj_of
     ([(''stream'', JBool True)] @ (if usageMissing then [(''usage_missing'', JBool True)] else []) @
      opt_member ''budget'' (budgetMetadataBody result) @
      opt_member ''api_key_quota'' (apiKeyQuotaMetadataBody quotaResult)))))"

definition withCacheMetadata :: "metadata \<Rightarrow> string \<Rightarrow> string \<Rightarrow> metadata" where
  "withCacheMetadata existing status cacheKeyHash = metadata_put existing ''cache''
     (JObj (obj_of [(''status'', JStr status), (''cache_key_hash'', JStr cacheKeyHash)]))"

definition withSemanticCacheMetadata :: "metadata \<Rightarrow> string \<Rightarrow> string \<Rightarrow> rat \<Rightarrow> metadata" where
  "withSemanticCacheMetadata existing status cacheKeyHash similarity = metadata_put existing ''cache''
     (JObj (obj_of [(''status'', JStr status), (''cache_key_hash'', JStr cacheKeyHash), (''similarity'', JFrac similarity)]))"

definition withAnomalyMetadata :: "metadata \<Rightarrow> Decision \<Rightarrow> metadata" where
  "withAnomalyMetadata existing decision = (case MetadataBody decision of
     None \<Rightarrow> existing
   | Some body \<Rightarrow> metadata_put existing ''cost_anomaly'' (JObj (obj_of body)))"

definition withContentPolicyMetadata :: "metadata \<Rightarrow> contentPolicyDecision \<Rightarrow> metadata" where
  "withContentPolicyMetadata existing decision = (if \<not> cpd_Hit decision then existing
     else metadata_put existing ''content_policy'' (JObj (obj_of [(''policy_hit'', JBool True),
       (''action'', JStr (cpd_Action decision)), (''types'', JArr (map JStr (cpd_Types decision)))])))"

definition contentPolicyMetadata :: "contentPolicyDecision \<Rightarrow> metadata" where
  "contentPolicyMetadata decision = withContentPolicyMetadata None decision"

definition hasRetriedTarget :: "providerAttemptMetadata list \<Rightarrow> bool" where
  "hasRetriedTarget attempts = list_ex (\<lambda>a. 1 < pa_Attempts a) attempts"

definition appendProviderAttempt ::
  "providerAttemptMetadata list \<Rightarrow> ResolvedTarget \<Rightarrow> string \<Rightarrow> string \<Rightarrow> bool \<Rightarrow> int \<Rightarrow> providerAttemptMetadata list" where
  "appendProviderAttempt attempts target result errorCode retryable attemptCount =
     attempts @ [\<lparr>pa_ProviderID = pr_ID (rv_Provider target), pa_ModelID = md_ID (rv_Model target),
       pa_Priority = rt_Priority (rv_RouteTarget target), pa_Result = result, pa_ErrorCode = errorCode,
       pa_Retryable = retryable, pa_Attempts = (if attemptCount < 1 then 1 else attemptCount)\<rparr>]"

section \<open>Prompt keys and cache events\<close>

definition message_json :: "ChatMessage \<Rightarrow> json" where
  "message_json m = JObj [(''role'', JStr (cm_Role m)), (''content'', JStr (cm_Content m))]"

definition BuildPromptKey :: "chat_service \<Rightarrow> uuid \<Rightarrow> ChatCompletionRequest \<Rightarrow> PromptKey outcome" where
  "BuildPromptKey svc orgID request =
     (if orgID = uuid_Nil then Inl (ErrMsg ''invalid prompt cache key: org_id is required'')
      else if TrimSpace (req_Model request) = [] then Inl (ErrMsg ''invalid prompt cache key: requested_model is required'')
      else if req_Messages request = [] then Inl (ErrMsg ''invalid prompt cache key: messages are required'')
      else
        let messagesHash = gw_sha256_hex svc (gw_json_Marshal svc (JArr (map message_json (req_Messages request))));
            payload = JObj [(''org_id'', JStr (uuid_String orgID)),
              (''requested_model'', JStr (TrimSpace (req_Model request))), (''messages_hash'', JStr messagesHash),
              (''temperature'', JStr (case req_Temperature request of None \<Rightarrow> ''null'' | Some t \<Rightarrow> gw_FormatFloat svc t)),
              (''max_tokens'', JStr (case req_MaxTokens request of None \<Rightarrow> ''null'' | Some n \<Rightarrow> itoa n))];
            cacheKeyHash = gw_sha256_hex svc (gw_json_Marshal svc payload)
        in Inr \<lparr>pk_RedisKey = ''prompt_exact:'' @ uuid_String orgID @ '':'' @ cacheKeyHash,
             pk_CacheKeyHash = cacheKeyHash, pk_MessagesHash = messagesHash\<rparr>)"

definition promptCacheKey :: "chat_service \<Rightarrow> ChatCompletionRequest \<Rightarrow> uuid \<Rightarrow> (prompt_cache \<times> PromptKey) option" where
  "promptCacheKey svc request orgID = (case gw_promptCache svc of
     None \<Rightarrow> None
   | Some cache \<Rightarrow> if req_Stream request then None
       else (case BuildPromptKey svc orgID request of Inl _ \<Rightarrow> None | Inr key \<Rightarrow> Some (cache, key)))"

definition InsertCacheEvent :: "CacheEvent \<Rightarrow> CacheEvent act" where
  "InsertCacheEvent r = sql_insert (\<lambda>db.
     [(\<not> list_ex (\<lambda>x. ce_ID x = ce_ID r) (cache_events db), UniqueViolation),
      (ce_EventType r \<in> {''hit'', ''miss'', ''store'', ''skip'', ''read_error'', ''write_error'', ''semantic_hit'',
         ''semantic_miss'', ''semantic_skip'', ''semantic_store'', ''semantic_read_error'', ''semantic_write_error''}, CheckViolation),
      (org_exists db (ce_OrgID r) \<and>
         (case ce_RequestLogID r of None \<Rightarrow> True | Some l \<Rightarrow> list_ex (\<lambda>x. rl_ID x = l) (request_logs db)), ForeignKeyViolation)])
     (\<lambda>r db. db\<lparr>cache_events := cache_events db @ [r]\<rparr>) r"

definition insert_event :: "uuid \<Rightarrow> uuid option \<Rightarrow> string \<Rightarrow> string \<Rightarrow> string \<Rightarrow> string \<Rightarrow> string \<Rightarrow> unit act" where
  "insert_event orgID requestLogID eventType requestedModel cacheKeyHash messagesHash reason =
     andThen new_uuid (\<lambda>u. andThen clock_now (\<lambda>now.
     andThen (attempt (InsertCacheEvent \<lparr>ce_ID = u, ce_OrgID = orgID, ce_RequestLogID = requestLogID,
       ce_EventType = eventType, ce_RequestedModel = requestedModel, ce_CacheKeyHash = cacheKeyHash,
       ce_MessagesHash = messagesHash, ce_Reason = textValue reason, ce_Metadata = None, ce_CreatedAt = now\<rparr>)) (\<lambda>_.
     ret ())))"

definition recordCacheEvent :: "uuid \<Rightarrow> uuid option \<Rightarrow> string \<Rightarrow> string \<Rightarrow> PromptKey \<Rightarrow> string \<Rightarrow> unit act" where
  "recordCacheEvent orgID requestLogID eventType requestedModel key reason =
     (if orgID = uuid_Nil \<or> pk_CacheKeyHash key = [] \<or> requestedModel = [] then ret ()
      else insert_event orgID requestLogID eventType requestedModel (pk_CacheKeyHash key) (pk_MessagesHash key) reason)"

definition recordSemanticCacheEvent :: "uuid \<Rightarrow> uuid option \<Rightarrow> string \<Rightarrow> string \<Rightarrow> string \<Rightarrow> string \<Rightarrow> string \<Rightarrow> unit act" where
  "recordSemanticCacheEvent orgID requestLogID eventType requestedModel cacheKeyHash messagesHash reason =
     (if orgID = uuid_Nil \<or> cacheKeyHash = [] \<or> messagesHash = [] \<or> requestedModel = [] then ret ()
      else insert_event orgID requestLogID eventType requestedModel cacheKeyHash messagesHash reason)"

definition recordPromptCacheSkip :: "chat_service \<Rightarrow> ChatInput \<Rightarrow> ChatCompletionRequest \<Rightarrow> string \<Rightarrow> unit act" where
  "recordPromptCacheSkip svc input request reason = (case gw_promptCache svc of
     None \<Rightarrow> ret ()
   | Some _ \<Rightarrow> (case BuildPromptKey svc (kp_OrgID (in_Principal input)) request of
       Inl _ \<Rightarrow> ret ()
     | Inr key \<Rightarrow> recordCacheEvent (kp_OrgID (in_Principal input)) None ''skip'' (req_Model request) key reason))"

record semanticCacheCandidate =
  sk_enabled :: bool
  sk_skipReason :: string
  sk_cacheKeyHash :: string
  sk_messagesHash :: string
  sk_embedding :: "rat list"

definition no_candidate :: semanticCacheCandidate where
  "no_candidate = \<lparr>sk_enabled = False, sk_skipReason = [], sk_cacheKeyHash = [], sk_messagesHash = [], sk_embedding = []\<rparr>"

fun messages_loop :: "string \<Rightarrow> ChatMessage list \<Rightarrow> string" where
  "messages_loop out [] = out"
| "messages_loop out (m # ms) =
     messages_loop (out @ (if out \<noteq> [] then [CHR 0x0A] else []) @ cm_Role m @ '':'' @ cm_Content m) ms"

definition messagesText :: "ChatMessage list \<Rightarrow> string" where
  "messagesText ms = messages_loop [] ms"

fun Contains :: "string \<Rightarrow> string \<Rightarrow> bool" where
  "Contains [] p = (p = [])"
| "Contains (c # s) p = (HasPrefix (c # s) p \<or> Contains s p)"

definition highRiskMessages :: "ChatMessage list \<Rightarrow> bool" where
  "highRiskMessages ms = (let t = ToLower (messagesText ms) in
     list_ex (Contains t) [''password'', ''api key'', ''secret'', ''credit card'', ''ssn''])"

definition semanticCandidate :: "chat_service \<Rightarrow> ChatInput \<Rightarrow> ChatCompletionRequest \<Rightarrow> PromptKey option \<Rightarrow> semanticCacheCandidate act" where
  "semanticCandidate svc input request promptKey = (case gw_semanticCache svc of
     None \<Rightarrow> ret no_candidate
   | Some sc \<Rightarrow> if req_Stream request then ret no_candidate else
      (case (case promptKey of
               Some key \<Rightarrow> if pk_CacheKeyHash key \<noteq> [] then Inr key else BuildPromptKey svc (kp_OrgID (in_Principal input)) request
             | None \<Rightarrow> BuildPromptKey svc (kp_OrgID (in_Principal input)) request) of
         Inl _ \<Rightarrow> ret no_candidate
       | Inr key \<Rightarrow>
           let candidate = no_candidate\<lparr>sk_cacheKeyHash := pk_CacheKeyHash key, sk_messagesHash := pk_MessagesHash key\<rparr> in
           if (case req_Temperature request of Some t \<Rightarrow> sc_MaxTemp sc < t | None \<Rightarrow> False)
             then ret (candidate\<lparr>sk_skipReason := ''high_temperature''\<rparr>)
           else if highRiskMessages (req_Messages request) then ret (candidate\<lparr>sk_skipReason := ''high_risk''\<rparr>)
           else andThen (attempt (ask (sc_Embed sc (messagesText (req_Messages request))))) (\<lambda>r. case r of
               Inl _ \<Rightarrow> ret (candidate\<lparr>sk_skipReason := ''embedding_error''\<rparr>)
             | Inr vector \<Rightarrow> ret (candidate\<lparr>sk_enabled := True, sk_embedding := vector\<rparr>))))"

section \<open>Recording failures\<close>

definition hashBytes :: "chat_service \<Rightarrow> string \<Rightarrow> string" where
  "hashBytes svc body = (if body = [] then [] else ''sha256:'' @ gw_sha256_hex svc body)"

text \<open>\<^verbatim>\<open>int32(b.Sub(a).Milliseconds())\<close>.\<close>

definition latency_ms :: "time \<Rightarrow> time \<Rightarrow> int" where
  "latency_ms a b = wrap32 (go_quo (b - a) 1000)"

definition recordFailure ::
  "chat_service \<Rightarrow> ChatInput \<Rightarrow> string \<Rightarrow> string \<Rightarrow> int \<Rightarrow> string \<Rightarrow> uuid option \<Rightarrow> uuid option \<Rightarrow> metadata \<Rightarrow> time \<Rightarrow> unit act" where
  "recordFailure svc input requestModel status statusCode errorCode providerID modelID meta startedAt =
     andThen clock_now (\<lambda>t1. andThen clock_now (\<lambda>t2.
     andThen (RecordFailure (gw_metering svc) \<lparr>fi_RequestID = in_RequestID input, fi_OrgID = kp_OrgID (in_Principal input),
       fi_APIKeyID = Some (kp_APIKeyID (in_Principal input)), fi_ProviderID = providerID, fi_ModelID = modelID,
       fi_RoutePolicyID = None, fi_Method = in_Method input, fi_Path = in_Path input, fi_RequestModel = requestModel,
       fi_Status = status, fi_StatusCode = wrap32 statusCode, fi_ErrorCode = errorCode,
       fi_RequestHash = hashBytes svc (in_RawBody input), fi_ResponseHash = [],
       fi_LatencyMS = latency_ms startedAt t1, fi_ProviderLatencyMS = None, fi_Metadata = meta,
       fi_StartedAt = startedAt, fi_CompletedAt = t2\<rparr>) (\<lambda>_. ret ())))"

text \<open>The failure is recorded as far as possible and the error returned to the caller.\<close>

definition refuse ::
  "chat_service \<Rightarrow> ChatInput \<Rightarrow> string \<Rightarrow> string \<Rightarrow> int \<Rightarrow> string \<Rightarrow> string \<Rightarrow> uuid option \<Rightarrow> uuid option \<Rightarrow> metadata \<Rightarrow> time \<Rightarrow> 'a act" where
  "refuse svc input requestModel status statusCode errorCode message providerID modelID meta startedAt =
     andThen (attempt (recordFailure svc input requestModel status statusCode errorCode providerID modelID meta startedAt)) (\<lambda>_.
     fail (DomainError statusCode errorCode message))"

section \<open>Reserving the cost\<close>

definition reserveProviderCost ::
  "chat_service \<Rightarrow> ChatInput \<Rightarrow> ChatCompletionRequest \<Rightarrow> Model list \<Rightarrow> CheckResult \<Rightarrow> APIKeyQuotaCheckResult \<Rightarrow>
     contentPolicyDecision \<Rightarrow> time \<Rightarrow> bool act" where
  "reserveProviderCost svc input request ms budgetCheck quotaCheck contentDecision startedAt =
     andThen (lift (estimateReservationCost request ms)) (\<lambda>estimatedCost.
     if estimatedCost \<le> 0 then ret False
     else andThen (Reserve \<lparr>ri_RequestID = in_RequestID input, ri_OrgID = kp_OrgID (in_Principal input),
         ri_APIKeyID = kp_APIKeyID (in_Principal input), ri_EstimatedCostMicroUSD = estimatedCost\<rparr>) (\<lambda>result.
       if rr_Allowed result then ret True
       else if rr_BlockedScope result = ''api_key'' then
         refuse svc input (req_Model request) ''budget_blocked'' 402 ''api_key_quota_exceeded'' ''api key quota exceeded''
           None None (withContentPolicyMetadata (apiKeyQuotaMetadata quotaCheck) contentDecision) startedAt
       else
         refuse svc input (req_Model request) ''budget_blocked'' 402 ''budget_exceeded'' ''budget exceeded''
           None None (withContentPolicyMetadata (budgetMetadata budgetCheck) contentDecision) startedAt))"

text \<open>
  \<^verbatim>\<open>defer\<close>: a reservation that is still open when the rest of the request fails is released; the
  rest succeeds only after the reservation was settled or handed over.
\<close>

definition releasing :: "bool \<Rightarrow> uuid \<Rightarrow> 'a act \<Rightarrow> 'a act" where
  "releasing active requestID body = andThen (attempt body) (\<lambda>r. case r of
     Inr a \<Rightarrow> ret a
   | Inl e \<Rightarrow> if active then andThen (attempt (Release requestID)) (\<lambda>_. fail e) else fail e)"

section \<open>Asking the targets of a route\<close>

definition GetProviderSecret :: "uuid \<Rightarrow> uuid \<Rightarrow> ProviderSecret act" where
  "GetProviderSecret org provider = db_read (\<lambda>db.
     first_row (filter (\<lambda>r. ps_OrgID r = org \<and> ps_ProviderID r = provider) (provider_secrets db)))"

definition providerConfig :: "chat_service \<Rightarrow> Provider \<Rightarrow> ProviderConfig act" where
  "providerConfig svc item =
     (let cfg = \<lparr>pf_ID = pr_ID item, pf_Name = pr_Name item, pf_Type = pr_Type item,
        pf_BaseURL = (case pr_BaseUrl item of Some u \<Rightarrow> u | None \<Rightarrow> []), pf_APIKey = [], pf_TimeoutMS = pr_TimeoutMs item\<rparr> in
      if pr_Type item \<noteq> ''openai_compatible'' then ret cfg
      else
      andThen (lift (ValidateOutboundHTTPURL (as_net (gw_alerts svc)) (pf_BaseURL cfg) ''provider base_url'' (gw_publicOutboundOnly svc))) (\<lambda>_.
      andThen (GetProviderSecret (pr_OrgID item) (pr_ID item)) (\<lambda>secret. case gw_secretKeyRing svc of
        None \<Rightarrow> fail (ErrMsg ''provider secret keyring is invalid'')
      | Some ring \<Rightarrow>
          andThen (lift (ring_Open (as_gcm (gw_alerts svc)) ring (ps_EncryptedApiKey secret) (ps_Nonce secret) (ps_KeyVersion secret))) (\<lambda>apiKey.
          ret (cfg\<lparr>pf_APIKey := apiKey\<rparr>)))))"

definition provider_request :: "ChatInput \<Rightarrow> ChatCompletionRequest \<Rightarrow> Model \<Rightarrow> bool \<Rightarrow> ProviderConfig \<Rightarrow> ChatRequest" where
  "provider_request input request model stream cfg = \<lparr>cq_RequestID = uuid_String (in_RequestID input),
     cq_OrgID = kp_OrgID (in_Principal input), cq_Provider = cfg,
     cq_Model = \<lparr>mf_ID = md_ID model, mf_ProviderModelName = md_ProviderModelName model, mf_DisplayName = md_DisplayName model\<rparr>,
     cq_Messages = req_Messages request, cq_Temperature = req_Temperature request, cq_MaxTokens = req_MaxTokens request,
     cq_Stream = stream\<rparr>"

record loop_state =
  ls_attempts :: "providerAttemptMetadata list"
  ls_selected :: "ResolvedTarget option"
  ls_started :: time
  ls_response :: "ChatResponse option"
  ls_lastErr :: "err option"
  ls_lastCode :: string
  ls_lastStatus :: int

definition loop_start :: loop_state where
  "loop_start = \<lparr>ls_attempts = [], ls_selected = None, ls_started = zero_time, ls_response = None, ls_lastErr = None,
     ls_lastCode = [], ls_lastStatus = 0\<rparr>"

definition target_failed :: "loop_state \<Rightarrow> ResolvedTarget \<Rightarrow> err \<Rightarrow> int \<Rightarrow> string \<Rightarrow> bool \<Rightarrow> int \<Rightarrow> loop_state" where
  "target_failed st target e status code retryable tries = st\<lparr>ls_lastErr := Some e, ls_lastStatus := status,
     ls_lastCode := code, ls_attempts := appendProviderAttempt (ls_attempts st) target ''error'' code retryable tries\<rparr>"

fun provider_loop ::
  "chat_service \<Rightarrow> ChatInput \<Rightarrow> ChatCompletionRequest \<Rightarrow> bool \<Rightarrow> nat \<Rightarrow> nat \<Rightarrow> loop_state \<Rightarrow> ResolvedTarget list \<Rightarrow> loop_state act" where
  "provider_loop svc input request fallback targetCount index st [] = ret st"
| "provider_loop svc input request fallback targetCount index st0 (target # targets) =
     (let st = st0\<lparr>ls_selected := Some target\<rparr>;
          go_on = (\<lambda>retryable st'. if shouldTryNextFallbackTarget fallback retryable index targetCount
            then provider_loop svc input request fallback targetCount (Suc index) st' targets else ret st') in
      case AdapterFor (gw_registry svc) (pr_Type (rv_Provider target)) of
        Inl e \<Rightarrow> go_on True (target_failed st target e 503 ''provider_unavailable'' True 1)
      | Inr a \<Rightarrow>
        andThen (attempt (providerConfig svc (rv_Provider target))) (\<lambda>cfg. case cfg of
          Inl e \<Rightarrow> go_on True (target_failed st target e 503 ''provider_unavailable'' True 1)
        | Inr cfg \<Rightarrow>
          andThen clock_now (\<lambda>started.
          andThen (chatProviderWithRetry (gw_retryPolicy svc) (in_ctx input) a
            (provider_request input request (rv_Model target) False cfg)) (\<lambda>(r, attemptCount). case r of
              Inr response \<Rightarrow> ret (st\<lparr>ls_started := started, ls_response := Some response,
                ls_attempts := appendProviderAttempt (ls_attempts st) target ''success'' [] False attemptCount\<rparr>)
            | Inl e \<Rightarrow>
                let (status, code) = providerErrorStatus e; retryable = fallbackRetryable (Some e)
                in go_on retryable (target_failed (st\<lparr>ls_started := started\<rparr>) target e status code retryable attemptCount)))))"

end
