(* ===== verification/Gateway.thy ===== *)
theory Gateway
  imports GatewayBase
begin

text \<open>
  The request paths of the gateway: \<^verbatim>\<open>ChatService.Chat\<close> (\<^verbatim>\<open>internal/gateway/chat_service.go\<close>), and
  \<^verbatim>\<open>StreamChat\<close> and \<^verbatim>\<open>FinalizeStream\<close> (\<^verbatim>\<open>chat_stream_service.go\<close>), composed of the services the
  other theories model. The theorems say what a request does to the ledger and the books
  whatever fails on its way, and what reaches a provider.
\<close>

section \<open>Admission\<close>

record admitted =
  am_request :: ChatCompletionRequest
  am_content :: contentPolicyDecision
  am_budget :: CheckResult
  am_quota :: APIKeyQuotaCheckResult
  am_anomaly :: Decision

text \<open>
  Content policy, budgets, quota and anomaly policies, in this order, as both paths check them.
  What differs is what happens once the content policy has passed and the metadata of a request
  an anomaly policy blocks.
\<close>

definition admit ::
  "chat_service \<Rightarrow> ChatInput \<Rightarrow> (ChatCompletionRequest \<Rightarrow> unit act) \<Rightarrow> (CheckResult \<Rightarrow> APIKeyQuotaCheckResult \<Rightarrow> metadata) \<Rightarrow>
     ChatCompletionRequest \<Rightarrow> time \<Rightarrow> admitted act" where
  "admit svc input passed blockedMeta request0 startedAt =
     (let org = kp_OrgID (in_Principal input) in
      andThen (applyContentPolicy org request0) (\<lambda>(request, content).
      if cpd_Blocked content then
        refuse svc input (req_Model request) ''error'' 400 ''content_policy_blocked'' ''content policy blocked'' None None
          (contentPolicyMetadata content) startedAt
      else
      andThen (passed request) (\<lambda>_.
      andThen (Check org) (\<lambda>budgetCheck.
      if \<not> ck_Allowed budgetCheck then
        refuse svc input (req_Model request) ''budget_blocked'' 402 ''budget_exceeded'' ''budget exceeded'' None None
          (withContentPolicyMetadata (budgetMetadata budgetCheck) content) startedAt
      else
      andThen (Quota_Check (in_Principal input)) (\<lambda>quotaCheck.
      if \<not> qc_Allowed quotaCheck then
        refuse svc input (req_Model request) ''budget_blocked'' 402 ''api_key_quota_exceeded'' ''api key quota exceeded'' None None
          (withContentPolicyMetadata (apiKeyQuotaMetadata quotaCheck) content) startedAt
      else
      andThen (Evaluate \<lparr>ev_OrgID = org, ev_APIKeyID = kp_APIKeyID (in_Principal input), ev_RequestedModel = req_Model request\<rparr>) (\<lambda>decision.
      if dc_Triggered decision \<and> dc_Action decision = ''block'' then
        refuse svc input (req_Model request) ''error'' 429 ''cost_anomaly_blocked'' ''cost anomaly blocked'' None None
          (withContentPolicyMetadata (withAnomalyMetadata (blockedMeta budgetCheck quotaCheck) decision) content) startedAt
      else ret \<lparr>am_request = (if dc_Triggered decision \<and> dc_Action decision = ''downgrade''
            then request\<lparr>req_Model := dc_EffectiveModel decision\<rparr> else request),
          am_content = content, am_budget = budgetCheck, am_quota = quotaCheck, am_anomaly = decision\<rparr>))))))"

definition resolve_params :: "ChatInput \<Rightarrow> ChatCompletionRequest \<Rightarrow> ResolveParams" where
  "resolve_params input request = \<lparr>rq_OrgID = kp_OrgID (in_Principal input), rq_RequestedModel = req_Model request,
     rq_EstimatedPromptTokens = estimatePromptTokens (req_Messages request),
     rq_EstimatedMaxTokens = estimateMaxTokens (req_MaxTokens request)\<rparr>"

definition route_with :: "(ResolveParams \<Rightarrow> 'r act) \<Rightarrow> chat_service \<Rightarrow> ChatInput \<Rightarrow> admitted \<Rightarrow> time \<Rightarrow> 'r act" where
  "route_with resolve svc input ad startedAt =
     andThen (attempt (resolve (resolve_params input (am_request ad)))) (\<lambda>r. case r of
       Inr resolved \<Rightarrow> ret resolved
     | Inl e \<Rightarrow> if e = ErrRouteNotFound
         then refuse svc input (req_Model (am_request ad)) ''error'' 404 ''route_not_found'' ''route not found'' None None
           (contentPolicyMetadata (am_content ad)) startedAt
         else fail e)"

section \<open>Answers\<close>

record ChatCompletionResponse =
  rsp_ID :: string
  rsp_Object :: string
  rsp_Created :: int
  rsp_Model :: string
  rsp_ProviderID :: uuid
  rsp_ProviderName :: string
  rsp_ProviderModel :: string
  rsp_Message :: ChatMessage
  rsp_FinishReason :: string
  rsp_PromptTokens :: int
  rsp_CompletionTokens :: int
  rsp_TotalTokens :: int
  rsp_Currency :: string
  rsp_TotalCostMicro :: int
  rsp_RequestID :: uuid

definition time_Unix :: "time \<Rightarrow> int" where
  "time_Unix t = t div time_second"

definition cachedChatResponse :: "uuid \<Rightarrow> string \<Rightarrow> ResolvedTarget \<Rightarrow> CachedChatResponse \<Rightarrow> time \<Rightarrow> ChatCompletionResponse" where
  "cachedChatResponse requestID requestedModel target cached now =
     \<lparr>rsp_ID = ''chatcmpl_'' @ uuid_String requestID, rsp_Object = ''chat.completion'', rsp_Created = time_Unix now,
      rsp_Model = requestedModel, rsp_ProviderID = pr_ID (rv_Provider target), rsp_ProviderName = pr_Name (rv_Provider target),
      rsp_ProviderModel = md_ProviderModelName (rv_Model target),
      rsp_Message = \<lparr>cm_Role = cd_Role cached, cm_Content = cd_Content cached\<rparr>, rsp_FinishReason = cd_FinishReason cached,
      rsp_PromptTokens = 0, rsp_CompletionTokens = 0, rsp_TotalTokens = 0, rsp_Currency = ''USD'', rsp_TotalCostMicro = 0,
      rsp_RequestID = requestID\<rparr>"

definition success_status :: "CheckResult \<Rightarrow> string" where
  "success_status budgetCheck = (if ck_Warning budgetCheck then ''budget_warned'' else ''success'')"

definition cache_hit_input ::
  "chat_service \<Rightarrow> ChatInput \<Rightarrow> admitted \<Rightarrow> ResolveTargetsResult \<Rightarrow> ResolvedTarget \<Rightarrow> CachedChatResponse \<Rightarrow> metadata \<Rightarrow> time \<Rightarrow>
     time \<Rightarrow> time \<Rightarrow> RecordCacheHitInput" where
  "cache_hit_input svc input ad resolved target cached meta startedAt t1 t2 =
     \<lparr>hi_RequestID = in_RequestID input, hi_OrgID = kp_OrgID (in_Principal input), hi_APIKeyID = kp_APIKeyID (in_Principal input),
      hi_ProviderID = pr_ID (rv_Provider target), hi_ModelID = md_ID (rv_Model target),
      hi_RoutePolicyID = Some (rp_ID (tr_RoutePolicy resolved)), hi_Method = in_Method input, hi_Path = in_Path input,
      hi_RequestModel = req_Model (am_request ad), hi_Status = success_status (am_budget ad), hi_StatusCode = 200,
      hi_RequestHash = hashBytes svc (in_RawBody input), hi_ResponseHash = hashBytes svc (cd_Content cached),
      hi_LatencyMS = latency_ms startedAt t1, hi_ProviderLatencyMS = None, hi_Metadata = meta,
      hi_StartedAt = startedAt, hi_CompletedAt = t2\<rparr>"

definition respondFromPromptCache ::
  "chat_service \<Rightarrow> ChatInput \<Rightarrow> admitted \<Rightarrow> ResolveTargetsResult \<Rightarrow> CachedChatResponse \<Rightarrow> PromptKey \<Rightarrow> time \<Rightarrow> ChatCompletionResponse act" where
  "respondFromPromptCache svc input ad resolved cached key startedAt = (case tr_Targets resolved of
     [] \<Rightarrow> fail Panic
   | target # _ \<Rightarrow>
     let meta = withContentPolicyMetadata (withAnomalyMetadata (withCacheMetadata
           (chatMetadata (am_budget ad) (am_quota ad) [] False False) ''hit'' (pk_CacheKeyHash key)) (am_anomaly ad)) (am_content ad) in
     andThen clock_now (\<lambda>t1. andThen clock_now (\<lambda>t2.
     andThen (RecordCacheHit (gw_metering svc) (cache_hit_input svc input ad resolved target cached meta startedAt t1 t2)) (\<lambda>log.
     andThen (recordCacheEvent (kp_OrgID (in_Principal input)) (Some (rl_ID log)) ''hit'' (req_Model (am_request ad)) key []) (\<lambda>_.
     andThen clock_now (\<lambda>now.
     ret (cachedChatResponse (in_RequestID input) (req_Model (am_request ad)) target cached now)))))))"

definition respondFromSemanticCache ::
  "chat_service \<Rightarrow> ChatInput \<Rightarrow> admitted \<Rightarrow> ResolveTargetsResult \<Rightarrow> SemanticMatch \<Rightarrow> time \<Rightarrow> ChatCompletionResponse act" where
  "respondFromSemanticCache svc input ad resolved match startedAt = (case tr_Targets resolved of
     [] \<Rightarrow> fail Panic
   | target # _ \<Rightarrow>
     let meta = withContentPolicyMetadata (withAnomalyMetadata (withSemanticCacheMetadata
           (chatMetadata (am_budget ad) (am_quota ad) [] False False) ''semantic_hit'' (sm_CacheKeyHash match) (sm_Similarity match))
           (am_anomaly ad)) (am_content ad) in
     andThen clock_now (\<lambda>t1. andThen clock_now (\<lambda>t2.
     andThen (RecordCacheHit (gw_metering svc) (cache_hit_input svc input ad resolved target (sm_Response match) meta startedAt t1 t2)) (\<lambda>log.
     andThen (recordSemanticCacheEvent (kp_OrgID (in_Principal input)) (Some (rl_ID log)) ''semantic_hit'' (req_Model (am_request ad))
       (sm_CacheKeyHash match) (sm_MessagesHash match) []) (\<lambda>_.
     andThen clock_now (\<lambda>now.
     ret (cachedChatResponse (in_RequestID input) (req_Model (am_request ad)) target (sm_Response match) now)))))))"

section \<open>The provider path\<close>

definition call_metadata :: "admitted \<Rightarrow> providerAttemptMetadata list \<Rightarrow> bool \<Rightarrow> metadata" where
  "call_metadata ad attempts fallback = withContentPolicyMetadata (withAnomalyMetadata
     (chatMetadata (am_budget ad) (am_quota ad) attempts fallback (fallback \<or> hasRetriedTarget attempts)) (am_anomaly ad)) (am_content ad)"

definition all_targets_failed ::
  "chat_service \<Rightarrow> ChatInput \<Rightarrow> admitted \<Rightarrow> ResolveTargetsResult \<Rightarrow> bool \<Rightarrow> loop_state \<Rightarrow> time \<Rightarrow> 'a act" where
  "all_targets_failed svc input ad resolved fallback st startedAt =
     (let (status, code) = (if ls_lastErr st = None \<or>
            fallback \<and> fallbackRetryable (ls_lastErr st) \<and> length (ls_attempts st) = length (tr_Targets resolved)
          then (503, ''provider_unavailable'') else (ls_lastStatus st, ls_lastCode st));
          pid = (case ls_selected st of Some t \<Rightarrow> pr_ID (rv_Provider t) | None \<Rightarrow> uuid_Nil);
          mid = (case ls_selected st of Some t \<Rightarrow> md_ID (rv_Model t) | None \<Rightarrow> uuid_Nil)
      in refuse svc input (req_Model (am_request ad)) ''error'' status code ''provider request failed'' (Some pid) (Some mid)
        (call_metadata ad (ls_attempts st) fallback) startedAt)"

definition success_input ::
  "chat_service \<Rightarrow> ChatInput \<Rightarrow> admitted \<Rightarrow> RoutePolicy \<Rightarrow> Provider \<Rightarrow> Model \<Rightarrow> metadata \<Rightarrow> string \<Rightarrow> int \<Rightarrow> json \<Rightarrow> int \<Rightarrow> int \<Rightarrow>
     time \<Rightarrow> time \<Rightarrow> time \<Rightarrow> RecordSuccessInput" where
  "success_input svc input ad policy prov model meta responseHash providerLatencyMS rawUsage promptTokens completionTokens startedAt t1 t2 =
     \<lparr>si_RequestID = in_RequestID input, si_OrgID = kp_OrgID (in_Principal input), si_APIKeyID = kp_APIKeyID (in_Principal input),
      si_ProviderID = pr_ID prov, si_ModelID = md_ID model, si_RoutePolicyID = Some (rp_ID policy),
      si_Method = in_Method input, si_Path = in_Path input, si_RequestModel = req_Model (am_request ad),
      si_Status = success_status (am_budget ad), si_StatusCode = 200,
      si_RequestHash = hashBytes svc (in_RawBody input), si_ResponseHash = responseHash,
      si_LatencyMS = latency_ms startedAt t1, si_ProviderLatencyMS = Some providerLatencyMS, si_Metadata = meta,
      si_ProviderUsageJSON = RawValid rawUsage, si_PromptTokens = promptTokens, si_CompletionTokens = completionTokens,
      si_InputPriceMicroUSDPer1KTokens = md_InputPriceMicroUsdPer1kTokens model,
      si_OutputPriceMicroUSDPer1KTokens = md_OutputPriceMicroUsdPer1kTokens model,
      si_StartedAt = startedAt, si_CompletedAt = t2\<rparr>"

definition cached_of :: "ResolvedTarget \<Rightarrow> ChatResponse \<Rightarrow> CachedChatResponse" where
  "cached_of target response = \<lparr>cd_ProviderID = pr_ID (rv_Provider target), cd_ModelID = md_ID (rv_Model target),
     cd_ProviderName = pr_Name (rv_Provider target), cd_ProviderModel = md_ProviderModelName (rv_Model target),
     cd_Role = ans_Role response, cd_Content = ans_Content response, cd_FinishReason = ans_FinishReason response\<rparr>"

definition store_in_caches ::
  "chat_service \<Rightarrow> ChatInput \<Rightarrow> string \<Rightarrow> (prompt_cache \<times> PromptKey) option \<Rightarrow> semanticCacheCandidate \<Rightarrow> uuid \<Rightarrow> CachedChatResponse \<Rightarrow> unit act" where
  "store_in_caches svc input model cacheable candidate logID cached =
     (let org = kp_OrgID (in_Principal input) in
      andThen (case cacheable of
          None \<Rightarrow> ret ()
        | Some (cache, key) \<Rightarrow> andThen (attempt (ask (pc_Set cache key cached))) (\<lambda>r.
            if is_ok r then recordCacheEvent org (Some logID) ''store'' model key []
            else recordCacheEvent org (Some logID) ''write_error'' model key ''redis_error'')) (\<lambda>_.
      case gw_semanticCache svc of
        None \<Rightarrow> ret ()
      | Some sc \<Rightarrow> if \<not> sk_enabled candidate then ret ()
          else andThen (attempt (ask (sc_Store sc org model (sk_messagesHash candidate) (sk_embedding candidate) cached))) (\<lambda>r.
            case r of
              Inl _ \<Rightarrow> recordSemanticCacheEvent org (Some logID) ''semantic_write_error'' model
                (sk_cacheKeyHash candidate) (sk_messagesHash candidate) ''redis_error''
            | Inr match \<Rightarrow> recordSemanticCacheEvent org (Some logID) ''semantic_store'' model
                (sm_CacheKeyHash match) (sm_MessagesHash match) [])))"

definition answer_of :: "ChatInput \<Rightarrow> string \<Rightarrow> ResolvedTarget \<Rightarrow> ChatResponse \<Rightarrow> RecordSuccessResult \<Rightarrow> time \<Rightarrow> ChatCompletionResponse" where
  "answer_of input model target response metered now =
     \<lparr>rsp_ID = ''chatcmpl_'' @ uuid_String (in_RequestID input), rsp_Object = ''chat.completion'', rsp_Created = time_Unix now,
      rsp_Model = model, rsp_ProviderID = pr_ID (rv_Provider target), rsp_ProviderName = pr_Name (rv_Provider target),
      rsp_ProviderModel = md_ProviderModelName (rv_Model target),
      rsp_Message = \<lparr>cm_Role = ans_Role response, cm_Content = ans_Content response\<rparr>,
      rsp_FinishReason = ans_FinishReason response,
      rsp_PromptTokens = ur_PromptTokens (sr_UsageRecord metered),
      rsp_CompletionTokens = ur_CompletionTokens (sr_UsageRecord metered),
      rsp_TotalTokens = ur_TotalTokens (sr_UsageRecord metered),
      rsp_Currency = cr_Currency (sr_CostRecord metered), rsp_TotalCostMicro = cr_TotalCostMicro (sr_CostRecord metered),
      rsp_RequestID = in_RequestID input\<rparr>"

text \<open>What follows the recording of a success: caches, budget alerts, the answer.\<close>

definition after_success ::
  "chat_service \<Rightarrow> ChatInput \<Rightarrow> string \<Rightarrow> (prompt_cache \<times> PromptKey) option \<Rightarrow> semanticCacheCandidate \<Rightarrow> ResolvedTarget \<Rightarrow>
     ChatResponse \<Rightarrow> RecordSuccessResult \<Rightarrow> ChatCompletionResponse act" where
  "after_success svc input model cacheable candidate target response metered =
     andThen (store_in_caches svc input model cacheable candidate (rl_ID (sr_RequestLog metered)) (cached_of target response)) (\<lambda>_.
     andThen (attempt (CheckAndDeliver (gw_alerts svc) (kp_OrgID (in_Principal input)))) (\<lambda>_.
     andThen clock_now (\<lambda>now. ret (answer_of input model target response metered now))))"

definition record_answer ::
  "chat_service \<Rightarrow> ChatInput \<Rightarrow> admitted \<Rightarrow> ResolveTargetsResult \<Rightarrow> (prompt_cache \<times> PromptKey) option \<Rightarrow> semanticCacheCandidate \<Rightarrow>
     time \<Rightarrow> bool \<Rightarrow> loop_state \<Rightarrow> ResolvedTarget \<Rightarrow> ChatResponse \<Rightarrow> ChatCompletionResponse act" where
  "record_answer svc input ad resolved cacheable candidate startedAt fallback st target response =
     andThen (if wrap32 (ans_LatencyMS response) = 0 then andThen clock_now (\<lambda>t. ret (latency_ms (ls_started st) t))
       else ret (wrap32 (ans_LatencyMS response))) (\<lambda>providerLatencyMS.
     andThen clock_now (\<lambda>t1. andThen clock_now (\<lambda>t2.
     andThen (RecordSuccess (gw_metering svc) (success_input svc input ad (tr_RoutePolicy resolved) (rv_Provider target) (rv_Model target)
       (call_metadata ad (ls_attempts st) fallback) (hashBytes svc (ans_Content response)) providerLatencyMS (ans_RawUsage response)
       (ug_PromptTokens (ans_Usage response)) (ug_CompletionTokens (ans_Usage response)) startedAt t1 t2))
       (after_success svc input (req_Model (am_request ad)) cacheable candidate target response))))"

definition ask_targets ::
  "chat_service \<Rightarrow> ChatInput \<Rightarrow> admitted \<Rightarrow> ResolveTargetsResult \<Rightarrow> (prompt_cache \<times> PromptKey) option \<Rightarrow> semanticCacheCandidate \<Rightarrow>
     time \<Rightarrow> ChatCompletionResponse act" where
  "ask_targets svc input ad resolved cacheable candidate startedAt =
     (let targets = tr_Targets resolved; fallback = (rp_Strategy (tr_RoutePolicy resolved) = ''fallback'') in
      andThen (provider_loop svc input (am_request ad) fallback (length targets) 0 loop_start targets) (\<lambda>st.
      case (ls_response st, ls_selected st) of
        (Some response, Some target) \<Rightarrow> record_answer svc input ad resolved cacheable candidate startedAt fallback st target response
      | _ \<Rightarrow> all_targets_failed svc input ad resolved fallback st startedAt))"

definition from_provider ::
  "chat_service \<Rightarrow> ChatInput \<Rightarrow> admitted \<Rightarrow> ResolveTargetsResult \<Rightarrow> (prompt_cache \<times> PromptKey) option \<Rightarrow> semanticCacheCandidate \<Rightarrow>
     time \<Rightarrow> ChatCompletionResponse act" where
  "from_provider svc input ad resolved cacheable candidate startedAt =
     andThen (reserveProviderCost svc input (am_request ad) (map rv_Model (tr_Targets resolved)) (am_budget ad) (am_quota ad)
       (am_content ad) startedAt) (\<lambda>reservationActive.
     releasing reservationActive (in_RequestID input) (ask_targets svc input ad resolved cacheable candidate startedAt))"

definition from_semantic_cache ::
  "chat_service \<Rightarrow> ChatInput \<Rightarrow> admitted \<Rightarrow> ResolveTargetsResult \<Rightarrow> (prompt_cache \<times> PromptKey) option \<Rightarrow> time \<Rightarrow> ChatCompletionResponse act" where
  "from_semantic_cache svc input ad resolved cacheable startedAt =
     (let org = kp_OrgID (in_Principal input); model = req_Model (am_request ad) in
      andThen (semanticCandidate svc input (am_request ad) (map_option snd cacheable)) (\<lambda>candidate.
      case gw_semanticCache svc of
        None \<Rightarrow> from_provider svc input ad resolved cacheable candidate startedAt
      | Some sc \<Rightarrow>
          if sk_enabled candidate then
            andThen (attempt (ask (sc_Lookup sc org model (sk_embedding candidate)))) (\<lambda>r. case r of
              Inr match \<Rightarrow> respondFromSemanticCache svc input ad resolved match startedAt
            | Inl e \<Rightarrow>
                andThen (recordSemanticCacheEvent org None (if e = ErrSemanticCacheMiss then ''semantic_miss'' else ''semantic_read_error'')
                  model (sk_cacheKeyHash candidate) (sk_messagesHash candidate) (if e = ErrSemanticCacheMiss then [] else ''redis_error'')) (\<lambda>_.
                from_provider svc input ad resolved cacheable candidate startedAt))
          else if sk_skipReason candidate \<noteq> [] then
            andThen (recordSemanticCacheEvent org None ''semantic_skip'' model (sk_cacheKeyHash candidate) (sk_messagesHash candidate)
              (sk_skipReason candidate)) (\<lambda>_.
            from_provider svc input ad resolved cacheable candidate startedAt)
          else from_provider svc input ad resolved cacheable candidate startedAt))"

definition from_prompt_cache ::
  "chat_service \<Rightarrow> ChatInput \<Rightarrow> admitted \<Rightarrow> ResolveTargetsResult \<Rightarrow> time \<Rightarrow> ChatCompletionResponse act" where
  "from_prompt_cache svc input ad resolved startedAt =
     (let org = kp_OrgID (in_Principal input); cacheable = promptCacheKey svc (am_request ad) org in
      case cacheable of
        None \<Rightarrow> from_semantic_cache svc input ad resolved cacheable startedAt
      | Some (cache, key) \<Rightarrow>
          andThen (attempt (ask (pc_Get cache key))) (\<lambda>r. case r of
            Inr cached \<Rightarrow> respondFromPromptCache svc input ad resolved cached key startedAt
          | Inl e \<Rightarrow>
              andThen (recordCacheEvent org None (if e = ErrCacheMiss then ''miss'' else ''read_error'') (req_Model (am_request ad)) key
                (if e = ErrCacheMiss then [] else ''redis_error'')) (\<lambda>_.
              from_semantic_cache svc input ad resolved cacheable startedAt)))"

definition Chat :: "chat_service \<Rightarrow> ChatInput \<Rightarrow> ChatCompletionResponse act" where
  "Chat svc input =
     andThen clock_now (\<lambda>startedAt.
     case decode_request (gw_parse_json svc (in_RawBody input)) of
       Inl _ \<Rightarrow> fail (DomainError 400 ''invalid_request'' ''invalid JSON body'')
     | Inr request \<Rightarrow>
         if req_Stream request then
           refuse svc input (req_Model request) ''error'' 400 ''stream_not_supported'' ''stream is not supported'' None None None startedAt
         else if req_Model request = [] \<or> req_Messages request = [] then
           refuse svc input (req_Model request) ''error'' 400 ''invalid_request'' ''model and messages are required'' None None None startedAt
         else
           andThen (admit svc input (\<lambda>_. ret ()) (\<lambda>b q. chatMetadata b q [] False False) request startedAt) (\<lambda>ad.
           andThen (route_with ResolveTargets svc input ad startedAt) (\<lambda>resolved.
           from_prompt_cache svc input ad resolved startedAt)))"

section \<open>Streaming\<close>

record ChatStreamResult =
  st_reservationActive :: bool
  st_input :: ChatInput
  st_admitted :: admitted
  st_resolved :: ResolveResult
  st_startedAt :: time
  st_providerStartedAt :: time

definition stream_metadata :: "admitted \<Rightarrow> bool \<Rightarrow> metadata" where
  "stream_metadata ad usageMissing = withContentPolicyMetadata (withAnomalyMetadata
     (streamMetadata (am_budget ad) (am_quota ad) usageMissing) (am_anomaly ad)) (am_content ad)"

definition open_stream :: "chat_service \<Rightarrow> ChatInput \<Rightarrow> admitted \<Rightarrow> ResolveResult \<Rightarrow> bool \<Rightarrow> time \<Rightarrow> ChatStreamResult act" where
  "open_stream svc input ad resolved reservationActive startedAt =
     (let model = req_Model (am_request ad);
          give_up = (\<lambda>status code message. refuse svc input model ''error'' status code message
            (Some (pr_ID (rz_Provider resolved))) (Some (md_ID (rz_Model resolved))) (stream_metadata ad False) startedAt) in
      case AdapterFor (gw_registry svc) (pr_Type (rz_Provider resolved)) of
        Inl _ \<Rightarrow> give_up 503 ''provider_unavailable'' ''provider unavailable''
      | Inr a \<Rightarrow>
        andThen (attempt (providerConfig svc (rz_Provider resolved))) (\<lambda>cfg. case cfg of
          Inl _ \<Rightarrow> give_up 503 ''provider_unavailable'' ''provider unavailable''
        | Inr cfg \<Rightarrow>
          andThen clock_now (\<lambda>providerStartedAt.
          andThen (attempt (call_provider (ad_StreamChat a) (provider_request input (am_request ad) (rz_Model resolved) True cfg))) (\<lambda>r.
          case r of
            Inl e \<Rightarrow> (case providerErrorStatus e of (status, code) \<Rightarrow> give_up status code ''provider request failed'')
          | Inr _ \<Rightarrow> ret \<lparr>st_reservationActive = reservationActive, st_input = input, st_admitted = ad, st_resolved = resolved,
              st_startedAt = startedAt, st_providerStartedAt = providerStartedAt\<rparr>))))"

definition StreamChat :: "chat_service \<Rightarrow> ChatInput \<Rightarrow> ChatStreamResult act" where
  "StreamChat svc input =
     andThen clock_now (\<lambda>startedAt.
     case decode_request (gw_parse_json svc (in_RawBody input)) of
       Inl _ \<Rightarrow> fail (DomainError 400 ''invalid_request'' ''invalid JSON body'')
     | Inr request \<Rightarrow>
         if req_Model request = [] \<or> req_Messages request = [] then
           refuse svc input (req_Model request) ''error'' 400 ''invalid_request'' ''model and messages are required'' None None None startedAt
         else
           andThen (admit svc input (\<lambda>r. recordPromptCacheSkip svc input r ''stream'') (\<lambda>b q. streamMetadata b q False) request startedAt) (\<lambda>ad.
           andThen (route_with Resolve svc input ad startedAt) (\<lambda>resolved.
           andThen (reserveProviderCost svc input (am_request ad) [rz_Model resolved] (am_budget ad) (am_quota ad)
             (am_content ad) startedAt) (\<lambda>reservationActive.
           releasing reservationActive (in_RequestID input) (open_stream svc input ad resolved reservationActive startedAt)))))"

text \<open>\<^verbatim>\<open>FinalizeStream\<close>: the usage the stream reported, if any, and the error it ended with, if any.\<close>

definition release_if :: "bool \<Rightarrow> uuid \<Rightarrow> unit act" where
  "release_if active requestID = (if active then andThen (attempt (Release requestID)) (\<lambda>_. ret ()) else ret ())"

definition FinalizeStream :: "chat_service \<Rightarrow> ChatStreamResult \<Rightarrow> StreamUsage option \<Rightarrow> err option \<Rightarrow> unit act" where
  "FinalizeStream svc result usage streamErr =
     (let input = st_input result; ad = st_admitted result; resolved = st_resolved result;
          model = req_Model (am_request ad); org = kp_OrgID (in_Principal input);
          pid = pr_ID (rz_Provider resolved); mid = md_ID (rz_Model resolved);
          meta = stream_metadata ad (usage = None) in
      andThen clock_now (\<lambda>t0.
      andThen clock_now (\<lambda>completedAt.
      let providerLatencyMS = latency_ms (st_providerStartedAt result) t0 in
      case streamErr of
        Some e \<Rightarrow> (case providerErrorStatus e of (status, code) \<Rightarrow>
          andThen (attempt (recordFailure svc input model ''error'' status code (Some pid) (Some mid) meta (st_startedAt result))) (\<lambda>r.
          andThen (release_if (st_reservationActive result) (in_RequestID input)) (\<lambda>_. lift r)))
      | None \<Rightarrow> (case usage of
          None \<Rightarrow>
            andThen (attempt (RecordFailure (gw_metering svc) \<lparr>fi_RequestID = in_RequestID input, fi_OrgID = org,
              fi_APIKeyID = Some (kp_APIKeyID (in_Principal input)), fi_ProviderID = Some pid, fi_ModelID = Some mid,
              fi_RoutePolicyID = Some (rp_ID (rz_RoutePolicy resolved)), fi_Method = in_Method input, fi_Path = in_Path input,
              fi_RequestModel = model, fi_Status = ''error'', fi_StatusCode = 200, fi_ErrorCode = ''usage_missing'',
              fi_RequestHash = hashBytes svc (in_RawBody input), fi_ResponseHash = [],
              fi_LatencyMS = latency_ms (st_startedAt result) completedAt, fi_ProviderLatencyMS = Some providerLatencyMS,
              fi_Metadata = meta, fi_StartedAt = st_startedAt result, fi_CompletedAt = completedAt\<rparr>)) (\<lambda>r.
            andThen (release_if (st_reservationActive result) (in_RequestID input)) (\<lambda>_.
            case r of Inl e \<Rightarrow> fail e | Inr _ \<Rightarrow> ret ()))
        | Some u \<Rightarrow>
            andThen (attempt (RecordSuccess (gw_metering svc) (success_input svc input ad (rz_RoutePolicy resolved) (rz_Provider resolved)
              (rz_Model resolved) meta [] providerLatencyMS (su_Raw u) (su_PromptTokens u) (su_CompletionTokens u)
              (st_startedAt result) completedAt completedAt))) (\<lambda>r. case r of
              Inl e \<Rightarrow> andThen (release_if (st_reservationActive result) (in_RequestID input)) (\<lambda>_. fail e)
            | Inr _ \<Rightarrow> ret ())))))"

section \<open>A sample service\<close>

text \<open>The service and the request of the witnesses: a mock adapter, no caches, no limits.\<close>

definition demo_answer :: ChatResponse where
  "demo_answer = \<lparr>ans_ProviderResponseID = ''r'', ans_Content = ''hello'', ans_Role = ''assistant'', ans_FinishReason = ''stop'',
     ans_Usage = \<lparr>ug_PromptTokens = 1000, ug_CompletionTokens = 500, ug_TotalTokens = 1500\<rparr>, ans_LatencyMS = 20, ans_RawUsage = JNull\<rparr>"

definition demo_adapter :: adapter where
  "demo_adapter = \<lparr>ad_Chat = (\<lambda>_ _. Inr demo_answer), ad_StreamChat = (\<lambda>_ _. Inr ())\<rparr>"

definition demo_body :: "(string \<times> json) list" where
  "demo_body = [(''Model'', JStr ''chat''), (''messages'', JArr [JObj [(''role'', JStr ''user''), (''content'', JStr ''hi'')]]),
     (''max_tokens'', JInt 100)]"

definition demo_chat_service :: chat_service where
  "demo_chat_service = \<lparr>gw_registry = [(''mock'', demo_adapter)], gw_retryPolicy = \<lparr>ry_MaxRetries = 1, ry_Backoff = 0\<rparr>,
     gw_metering = demo_metering, gw_alerts = demo_alerts, gw_secretKeyRing = None, gw_publicOutboundOnly = False,
     gw_promptCache = None, gw_semanticCache = None, gw_parse_json = (\<lambda>_. RawValid (JObj demo_body)),
     gw_sha256_hex = (\<lambda>s. s), gw_json_Marshal = (\<lambda>_. []), gw_FormatFloat = (\<lambda>_. [])\<rparr>"

definition demo_chat :: ChatInput where
  "demo_chat = \<lparr>in_RequestID = 77, in_Principal = \<lparr>kp_OrgID = 1, kp_APIKeyID = 2, kp_Scopes = [''chat.completions''], kp_RPMLimit = 60\<rparr>,
     in_Method = ''POST'', in_Path = ''/v1/chat/completions'', in_RawBody = ''body'', in_ctx = (\<lambda>_. None)\<rparr>"

definition demo_chat_db :: database where
  "demo_chat_db = (demo_route_db ''fallback'')\<lparr>budgets := [],
     api_keys := [demo_key\<lparr>ak_DailyCostLimitMicroUsd := None\<rparr>]\<rparr>"

end
