(* ===== verification/Requests.thy ===== *)
theory Requests
  imports Gateway
begin

text \<open>
  What a request does, whatever fails on its way: the invariants every request path keeps, what
  it bills, which reservations it leaves open and what it lets a provider see. The calls a path
  makes are the interface of three locales, so that each invariant is shown once for all paths.
\<close>

section \<open>Calls that only read\<close>

lemma keeps_ask [keeps_rules]: "keeps I (ask f)"
  by (auto intro!: keepsI simp: ask_def)

lemma keeps_client_Do [keeps_rules]: "keeps I (client_Do url headers body)"
  by (auto intro!: keepsI simp: client_Do_def)

lemma keeps_case_list [keeps_rules]:
  "(xs = [] \<Longrightarrow> keeps I m) \<Longrightarrow> (\<And>y ys. xs = y # ys \<Longrightarrow> keeps I (f y ys)) \<Longrightarrow>
     keeps I (case xs of [] \<Rightarrow> m | y # ys \<Rightarrow> f y ys)"
  by (cases xs) simp_all

lemma keeps_Check [keeps_rules]: "keeps I (Check org)"
proof -
  have "keeps I (statuses_loop bs cache)" for bs cache
    by (induction bs arbitrary: cache)
      (auto simp: statusForBudgetWithCache_def usageForPeriod_def budget_periodWindow_def
        GetBudgetUsedAmount_def intro!: keeps_rules)
  then show ?thesis
    unfolding Check_def GetStatus_def ListBudgets_def by (intro keeps_rules)
qed

lemma keeps_Quota_Check [keeps_rules]: "keeps I (Quota_Check p)"
proof -
  have "keeps I (quota_loop k r ls)" for k r ls
    by (induction ls arbitrary: r)
      (auto simp: statusForPeriod_def GetAPIKeyCostUsedAmount_def intro!: keeps_rules)
  then show ?thesis
    unfolding Quota_Check_def GetAPIKey_def by (intro keeps_rules)
qed

lemma keeps_Evaluate [keeps_rules]: "keeps I (Evaluate p)"
proof -
  have "keeps I (evaluate_loop p best policies)" for best policies
    by (induction policies arbitrary: best) (auto intro!: keeps_rules)
  then show ?thesis
    unfolding Evaluate_def ListActiveCostAnomalyPolicies_def by (intro keeps_rules)
qed

lemma keeps_applyContentPolicy [keeps_rules]: "keeps I (applyContentPolicy org request)"
  unfolding applyContentPolicy_def ActivePIIAction_def GetActiveContentPolicy_def by (intro keeps_rules)

lemma keeps_ResolveTargets [keeps_rules]: "keeps I (ResolveTargets p)"
proof -
  have "keeps I (resolve_loop org policy ts)" for org policy ts
    by (induction ts) (auto simp: GetProvider_def GetModel_def intro!: keeps_rules)
  then show ?thesis
    unfolding ResolveTargets_def order_targets_def resolveLowestLatencyTargets_def GetRoutePolicyByMatchModel_def
      ListRouteTargets_def ProviderModelLatencyStats_def
    by (intro keeps_rules)
qed

lemma keeps_Resolve [keeps_rules]: "keeps I (Resolve p)"
  unfolding Resolve_def by (intro keeps_rules)

lemma keeps_providerConfig [keeps_rules]: "keeps I (providerConfig svc item)"
  unfolding providerConfig_def GetProviderSecret_def by (intro keeps_rules)

lemma keeps_semanticCandidate [keeps_rules]: "keeps I (semanticCandidate svc input request key)"
  unfolding semanticCandidate_def by (intro keeps_rules)

lemma keeps_provider_loop [keeps_rules]: "keeps I (provider_loop svc input request fallback k index st targets)"
proof (induction targets arbitrary: index st)
  case Nil
  then show ?case by (simp add: keeps_rules)
next
  case (Cons t ts)
  show ?case
    by (auto simp: Let_def split: sum.split prod.split intro!: keeps_rules Cons.IH)
qed

section \<open>The interface of a request path\<close>

text \<open>
  Logging: what a path may write besides reserving and recording. Recording: the two calls that
  close a request. A request path: all of them.
\<close>

locale logging =
  fixes I :: "database \<Rightarrow> bool"
  assumes failure: "keeps I (RecordFailure s f)"
    and event: "keeps I (InsertCacheEvent c)"
    and delivery: "keeps I (InsertBudgetAlertDelivery d)"
begin

lemma keeps_refuse: "keeps I (refuse svc input model status code err msg p m meta t)"
  unfolding refuse_def recordFailure_def by (intro keeps_rules failure)

lemma keeps_events:
  "keeps I (recordCacheEvent org l ty model key reason)"
  "keeps I (recordSemanticCacheEvent org l ty model h1 h2 reason)"
  "keeps I (recordPromptCacheSkip svc input request reason)"
  unfolding recordPromptCacheSkip_def recordCacheEvent_def recordSemanticCacheEvent_def insert_event_def
  by (intro keeps_rules event)+

lemma keeps_CheckAndDeliver: "keeps I (CheckAndDeliver a org)"
proof -
  have "keeps I (deliver a alert status t)" for alert status t
    unfolding deliver_def send_webhook_def by (intro keeps_rules delivery)
  then have "keeps I (threshold_loop a alert status ds ts)" for alert status ds ts
    by (induction ts) (auto intro!: keeps_rules)
  then have "keeps I (check_alert a alert)" for alert
    unfolding check_alert_def GetBudget_def statusForBudget_def statusForBudgetWithCache_def usageForPeriod_def
      budget_periodWindow_def GetBudgetUsedAmount_def ListBudgetAlertDeliveriesByBudgetWindow_def
    by (intro keeps_rules)
  then have "keeps I (alerts_loop a alerts)" for alerts
    by (induction alerts) (auto intro!: keeps_rules)
  then show ?thesis
    unfolding CheckAndDeliver_def ListActiveBudgetAlerts_def by (intro keeps_rules)
qed

lemma keeps_admit:
  assumes "\<And>r. keeps I (passed r)"
  shows "keeps I (admit svc input passed blocked request t)"
  unfolding admit_def by (intro keeps_rules keeps_refuse assms)

lemma keeps_route_with:
  assumes "\<And>p. keeps I (resolve p)"
  shows "keeps I (route_with resolve svc input ad t)"
  unfolding route_with_def by (intro keeps_rules keeps_refuse assms)

lemma keeps_store_in_caches: "keeps I (store_in_caches svc input model cacheable candidate l cached)"
  unfolding store_in_caches_def by (intro keeps_rules keeps_events)

lemma keeps_after_success: "keeps I (after_success svc input model cacheable candidate target response metered)"
  unfolding after_success_def by (intro keeps_rules keeps_store_in_caches keeps_CheckAndDeliver)

lemma keeps_all_targets_failed: "keeps I (all_targets_failed svc input ad resolved fallback st t)"
  unfolding all_targets_failed_def by (intro keeps_rules keeps_refuse)

lemma keeps_open_stream: "keeps I (open_stream svc input ad resolved active t)"
  unfolding open_stream_def Let_def by (intro keeps_rules keeps_refuse)

end

locale recording = logging +
  assumes success: "keeps I (RecordSuccess s i)"
    and hit: "keeps I (RecordCacheHit s h)"
begin

lemma keeps_from_cache:
  "keeps I (respondFromPromptCache svc input ad resolved cached key t)"
  "keeps I (respondFromSemanticCache svc input ad resolved match t)"
  unfolding respondFromPromptCache_def respondFromSemanticCache_def
  by (intro keeps_rules hit keeps_events)+

lemma keeps_ask_targets: "keeps I (ask_targets svc input ad resolved cacheable candidate t)"
  unfolding ask_targets_def record_answer_def
  by (intro keeps_rules success keeps_after_success keeps_all_targets_failed)

end

locale request_path = recording +
  assumes reserve: "keeps I (Reserve r)"
    and release: "keeps I (Release q)"
begin

lemma keeps_reserveProviderCost: "keeps I (reserveProviderCost svc input request ms b q c t)"
  unfolding reserveProviderCost_def by (intro keeps_rules reserve keeps_refuse)

lemma keeps_releasing: "keeps I body \<Longrightarrow> keeps I (releasing active q body)"
  unfolding releasing_def by (intro keeps_rules release)

lemma keeps_from_provider: "keeps I (from_provider svc input ad resolved cacheable candidate t)"
  unfolding from_provider_def by (intro keeps_rules keeps_reserveProviderCost keeps_releasing keeps_ask_targets)

lemma keeps_Chat: "keeps I (Chat svc input)"
  unfolding Chat_def from_prompt_cache_def from_semantic_cache_def
  by (intro keeps_rules keeps_refuse keeps_admit keeps_route_with keeps_from_cache keeps_events keeps_from_provider)

lemma keeps_StreamChat: "keeps I (StreamChat svc input)"
  unfolding StreamChat_def
  by (intro keeps_rules keeps_refuse keeps_admit keeps_route_with keeps_events keeps_reserveProviderCost
      keeps_releasing keeps_open_stream)

lemma keeps_FinalizeStream: "keeps I (FinalizeStream svc result usage e)"
  unfolding FinalizeStream_def release_if_def recordFailure_def
  by (intro keeps_rules release success failure)

end

section \<open>The invariants\<close>

interpretation ledger_path: request_path ledger_ok
proof unfold_locales
  show "keeps ledger_ok (InsertCacheEvent c)" for c
    unfolding InsertCacheEvent_def by (rule keeps_sql_insert) (simp add: ledger_ok_def)
  show "keeps ledger_ok (InsertBudgetAlertDelivery d)" for d
    unfolding InsertBudgetAlertDelivery_def by (rule keeps_sql_insert) (simp add: ledger_ok_def)
qed (rule keeps_RecordFailure keeps_RecordSuccess keeps_RecordCacheHit keeps_Reserve keeps_Release)+

interpretation books_path: request_path books_ok
proof unfold_locales
  show "keeps books_ok (InsertCacheEvent c)" for c
    unfolding InsertCacheEvent_def by (rule keeps_sql_insert) (simp add: books_ok_def)
  show "keeps books_ok (InsertBudgetAlertDelivery d)" for d
    unfolding InsertBudgetAlertDelivery_def by (rule keeps_sql_insert) (simp add: books_ok_def)
qed (rule keeps_RecordFailure keeps_RecordSuccess keeps_RecordCacheHit keeps_books_Reserve keeps_books_Release)+

text \<open>What has been billed: the usages and the costs.\<close>

definition billed :: "database \<Rightarrow> UsageRecord list \<times> CostRecord list" where
  "billed db = (usage_records db, cost_records db)"

interpretation billed_view: records_view "\<lambda>d. billed d = b" for b
  by unfold_locales (auto simp: billed_def records_of_def)

interpretation billed_log: logging "\<lambda>d. billed d = b" for b
proof unfold_locales
  have "keeps (\<lambda>d. billed d = b) (InsertRequestLog r)" for r
    unfolding InsertRequestLog_def by (rule keeps_sql_insert) (simp add: billed_def)
  then show "keeps (\<lambda>d. billed d = b) (RecordFailure s f)" for s f
    unfolding RecordFailure_def by (intro keeps_rules)
  show "keeps (\<lambda>d. billed d = b) (InsertCacheEvent c)" for c
    unfolding InsertCacheEvent_def by (rule keeps_sql_insert) (simp add: billed_def)
  show "keeps (\<lambda>d. billed d = b) (InsertBudgetAlertDelivery d)" for d
    unfolding InsertBudgetAlertDelivery_def by (rule keeps_sql_insert) (simp add: billed_def)
qed

text \<open>No reservation of the request is open.\<close>

definition none_open :: "uuid \<Rightarrow> database \<Rightarrow> bool" where
  "none_open q db \<longleftrightarrow> filter (is_outstanding q) (cost_reservations db) = []"

lemma none_open_close:
  "none_open q db \<Longrightarrow> closing step mark a \<Longrightarrow> none_open q (close_request step mark q' db)"
  by (auto simp: none_open_def close_request_def update_rows_def is_outstanding_def closing.mark_status filter_empty_conv)

lemma none_open_settle: "none_open q db \<Longrightarrow> 0 \<le> a \<Longrightarrow> none_open q (close_request (settle_step a t) (settle_mark a t) q' db)"
  by (rule none_open_close [OF _ closing_settle])

lemma none_open_closed: "closing step mark a \<Longrightarrow> none_open q (close_request step mark q db)"
  unfolding none_open_def by (rule closing.close_request_none_outstanding)

lemma RecordSuccess_closes:
  assumes "RecordSuccess s i E w = (Inr r, w')"
  shows "none_open (si_RequestID i) (w_db w')"
proof -
  obtain w2 where tx: "record_success_tx SettleTx i E (tick w) = (Inr r, w2)" and w': "w_db w' = w_db w2"
    using assms by (rule RecordSuccess_Inr)
  show ?thesis
  proof (rule record_success_tx_Inr [OF tx])
    fix w1
    assume settle: "SettleTx (si_RequestID i) (cr_TotalCostMicro (sr_CostRecord r)) (rl_CompletedAt (sr_RequestLog r)) E w1 = (Inr (), w2)"
    show ?thesis
      unfolding w' SettleTx_Inr(3) [OF settle]
      by (rule none_open_closed [OF closing_settle [OF SettleTx_Inr(2) [OF settle]]])
  qed
qed

lemma none_open_frame: "cost_reservations db' = cost_reservations db \<Longrightarrow> none_open q db' = none_open q db"
  by (simp add: none_open_def)

interpretation open_path: recording "none_open q" for q
proof unfold_locales
  have log: "keeps (none_open q) (InsertRequestLog r)" for r
    unfolding InsertRequestLog_def by (rule keeps_sql_insert) (simp add: none_open_def)
  show "keeps (none_open q) (RecordFailure s f)" for s f
    unfolding RecordFailure_def by (intro keeps_rules log)
  show "keeps (none_open q) (RecordCacheHit s h)" for s h
    unfolding RecordCacheHit_def by (intro keeps_rules log)
  show "keeps (none_open q) (InsertCacheEvent c)" for c
    unfolding InsertCacheEvent_def by (rule keeps_sql_insert) (simp add: none_open_def)
  show "keeps (none_open q) (InsertBudgetAlertDelivery d)" for d
    unfolding InsertBudgetAlertDelivery_def by (rule keeps_sql_insert) (simp add: none_open_def)
  have "keeps_ok (none_open q) (record_success_tx SettleTx i)" for i
  proof (rule keeps_okI)
    fix E r and w w' :: world
    assume before: "none_open q (w_db w)" and run: "record_success_tx SettleTx i E w = (Inr r, w')"
    show "none_open q (w_db w')"
    proof (rule record_success_tx_Inr [OF run])
      fix w1
      assume w1: "w_db w1 = add_records r (w_db w)"
        and settle: "SettleTx (si_RequestID i) (cr_TotalCostMicro (sr_CostRecord r)) (rl_CompletedAt (sr_RequestLog r)) E w1 = (Inr (), w')"
      have "none_open q (w_db w1)" using before by (simp add: w1 add_records_def none_open_def)
      then show ?thesis
        unfolding SettleTx_Inr(3) [OF settle] by (rule none_open_settle [OF _ SettleTx_Inr(2) [OF settle]])
    qed
  qed
  then show "keeps (none_open q) (RecordSuccess s i)" for s i
    unfolding RecordSuccess_def by (intro keeps_rules keeps_ExecTx_ok)
qed

section \<open>Reserving and releasing\<close>

lemma reserve_loop_verdict:
  "reserve_loop input now items E w = (Inr (commit, r), w') \<Longrightarrow> commit = rr_Allowed r"
proof (induction items arbitrary: w)
  case Nil
  then show ?case by (simp add: act_inr allowed_result_def)
next
  case (Cons item items)
  have "\<not> rr_Allowed b" if "reserve_one input now item E v = (Inr (Some b), v')" for b v v'
    using that by (auto simp: reserve_one_def reserve_on_limit_def blocked_result_def act_inr Let_def
        split: if_splits prod.splits)
  then show ?case
    using Cons by (auto simp: act_inr split: option.splits)
qed

lemma Reserve_not_allowed:
  assumes "Reserve input E w = (r, w')" and "case r of Inl _ \<Rightarrow> True | Inr x \<Rightarrow> \<not> rr_Allowed x"
  shows "w_db w' = w_db w"
proof -
  have "commit = rr_Allowed x" if "reserve_body input E (tick w) = (Inr (commit, x), w2)" for commit x w2
    using that reserve_loop_verdict
    by (auto simp: reserve_body_def act_inr allowed_result_def split: if_splits)
  then show ?thesis
    using assms with_tx_cases [of "reserve_body input" E w]
    by (auto simp: Reserve_def act_simps split: if_splits sum.splits)
qed

lemma Release_closes:
  assumes "healthy E" and "ledger_ok (w_db w)" and "q \<noteq> uuid_Nil"
  shows "none_open q (w_db (snd (Release q E w)))"
proof -
  obtain w' now where "Release q E w = (Inr (), w')"
    and "w_db w' = close_request (release_step now) (release_mark now) q (w_db w)"
    using assms by (rule Release_healthy)
  then show ?thesis
    using none_open_closed [OF releasing.closing_axioms] by simp
qed

section \<open>One environment\<close>

text \<open>
  The same preservation for the runs of one environment, for what holds only while the database
  answers.
\<close>

definition keeps_in :: "environment \<Rightarrow> (database \<Rightarrow> bool) \<Rightarrow> 'a act \<Rightarrow> bool" where
  "keeps_in E I m \<longleftrightarrow> (\<forall>w. I (w_db w) \<longrightarrow> I (w_db (snd (m E w))))"

named_theorems keeps_in_rules \<open>preservation in one environment\<close>

lemma keeps_inI: "(\<And>w r w'. I (w_db w) \<Longrightarrow> m E w = (r, w') \<Longrightarrow> I (w_db w')) \<Longrightarrow> keeps_in E I m"
  by (metis keeps_in_def prod.collapse)

lemma keeps_inD: "keeps_in E I m \<Longrightarrow> I (w_db w) \<Longrightarrow> m E w = (r, w') \<Longrightarrow> I (w_db w')"
  by (metis keeps_in_def snd_conv)

lemma keeps_in_keeps: "keeps I m \<Longrightarrow> keeps_in E I m"
  by (simp add: keeps_def keeps_in_def)

lemma keeps_in_andThen [keeps_in_rules]:
  assumes "keeps_in E I m" and "\<And>a. keeps_in E I (f a)"
  shows "keeps_in E I (andThen m f)"
  using assms by (auto simp: keeps_in_def andThen_apply split: prod.splits sum.splits)

lemma keeps_in_branches [keeps_in_rules]:
  "(c \<Longrightarrow> keeps_in E I m) \<Longrightarrow> (\<not> c \<Longrightarrow> keeps_in E I n) \<Longrightarrow> keeps_in E I (if c then m else n)"
  "keeps_in E I (g y) \<Longrightarrow> keeps_in E I (Let y g)"
  "keeps_in E I m \<Longrightarrow> (\<And>a. x = Some a \<Longrightarrow> keeps_in E I (f a)) \<Longrightarrow> keeps_in E I (case x of None \<Rightarrow> m | Some a \<Rightarrow> f a)"
  by (auto split: option.split)

lemma keeps_in_cases [keeps_in_rules]:
  "(\<And>e. x = Inl e \<Longrightarrow> keeps_in E I (f e)) \<Longrightarrow> (\<And>a. x = Inr a \<Longrightarrow> keeps_in E I (g a)) \<Longrightarrow>
     keeps_in E I (case x of Inl e \<Rightarrow> f e | Inr a \<Rightarrow> g a)"
  "(\<And>a b. y = (a, b) \<Longrightarrow> keeps_in E I (h a b)) \<Longrightarrow> keeps_in E I (case y of (a, b) \<Rightarrow> h a b)"
  by (auto split: sum.split prod.split)

lemma keeps_conj: "keeps I m \<Longrightarrow> keeps J m \<Longrightarrow> keeps (\<lambda>d. I d \<and> J d) m"
  by (simp add: keeps_def)

section \<open>No reservation is left open\<close>

abbreviation settled_for :: "uuid \<Rightarrow> database \<Rightarrow> bool" where
  "settled_for q \<equiv> (\<lambda>d. ledger_ok d \<and> none_open q d)"

lemma settled_keeps: "keeps ledger_ok m \<Longrightarrow> keeps (none_open q) m \<Longrightarrow> keeps_in E (settled_for q) m"
  by (intro keeps_in_keeps keeps_conj)

lemmas settled_calls = settled_keeps [OF ledger_path.keeps_refuse open_path.keeps_refuse]
  settled_keeps [OF ledger_path.keeps_events(1) open_path.keeps_events(1)]
  settled_keeps [OF ledger_path.keeps_events(2) open_path.keeps_events(2)]
  settled_keeps [OF ledger_path.keeps_events(3) open_path.keeps_events(3)]
  settled_keeps [OF ledger_path.keeps_from_cache(1) open_path.keeps_from_cache(1)]
  settled_keeps [OF ledger_path.keeps_from_cache(2) open_path.keeps_from_cache(2)]
  settled_keeps [OF ledger_path.keeps_ask_targets open_path.keeps_ask_targets]
  settled_keeps [OF ledger_path.keeps_open_stream open_path.keeps_open_stream]
  settled_keeps [OF ledger_path.failure open_path.failure]
  settled_keeps [OF ledger_path.success open_path.success]

lemma settled_reads: "(\<And>I. keeps I m) \<Longrightarrow> keeps_in E (settled_for q) m"
  by (rule keeps_in_keeps)

lemma settled_Release: "keeps_in E (settled_for q) (Release q)"
proof (rule keeps_in_keeps [OF keeps_conj [OF keeps_Release]])
  have "keeps_ok (none_open q) (ReleaseTx q t)" for t
    by (rule keeps_okI) (auto dest!: ReleaseTx_Inr(2) intro: none_open_closed [OF releasing.closing_axioms])
  then show "keeps (none_open q) (Release q)"
    unfolding Release_def by (intro keeps_ExecTx_ok keeps_ok_andThen keeps_imp_ok [OF keeps_clock])
qed

lemma reserveProviderCost_cases:
  assumes run: "reserveProviderCost svc input request ms b qc c t E w = (r, w')"
    and before: "settled_for (in_RequestID input) (w_db w)"
  shows "ledger_ok (w_db w')" and "r = Inr True \<Longrightarrow> in_RequestID input \<noteq> uuid_Nil"
    and "r \<noteq> Inr True \<Longrightarrow> none_open (in_RequestID input) (w_db w')"
proof -
  show "ledger_ok (w_db w')"
    by (rule keepsD [OF ledger_path.keeps_reserveProviderCost _ run]) (use before in simp)
  show "in_RequestID input \<noteq> uuid_Nil" if "r = Inr True"
    using run that by (auto simp: reserveProviderCost_def Reserve_def act_inr refuse_def split: if_splits)
  show "none_open (in_RequestID input) (w_db w')" if r: "r \<noteq> Inr True"
  proof (cases "estimateReservationCost request ms")
    case (Inl e)
    then show ?thesis using run before by (auto simp: reserveProviderCost_def act_simps)
  next
    case (Inr cost)
    define order where "order = \<lparr>ri_RequestID = in_RequestID input, ri_OrgID = kp_OrgID (in_Principal input),
         ri_APIKeyID = kp_APIKeyID (in_Principal input), ri_EstimatedCostMicroUSD = cost\<rparr>"
    obtain res w1 where res: "Reserve order E w = (res, w1)" by fastforce
    have kept: "none_open (in_RequestID input) (w_db v')"
      if "refuse svc input model status code err msg p m meta t E w1 = ((s :: bool outcome), v')"
        "w_db w1 = w_db w" for model status code err msg p m meta s v'
      by (rule keepsD [OF open_path.keeps_refuse _ that(1)]) (use before that(2) in simp)
    show ?thesis
      using run r Inr before res kept Reserve_not_allowed [OF res]
      by (auto simp: reserveProviderCost_def act_simps order_def [symmetric] split: if_splits sum.splits)
  qed
qed

section \<open>The provider path\<close>

text \<open>Calls that always return: what follows the recording of a success is one.\<close>

definition returns :: "'a act \<Rightarrow> bool" where
  "returns m \<longleftrightarrow> (\<forall>E w. is_ok (fst (m E w)))"

named_theorems returns_rules \<open>calls that return without an error\<close>

lemma returns_basic [returns_rules]: "returns (ret a)" "returns clock_now" "returns new_uuid" "returns (attempt m)"
  by (auto simp: returns_def act_simps split: prod.split)

lemma returns_andThen [returns_rules]: "returns m \<Longrightarrow> (\<And>a. returns (f a)) \<Longrightarrow> returns (andThen m f)"
  unfolding returns_def andThen_def
  by (auto split: prod.split sum.split) (metis fst_conv is_ok.simps(1))

lemma returns_branches [returns_rules]:
  "returns m \<Longrightarrow> returns n \<Longrightarrow> returns (if c then m else n)"
  "returns m \<Longrightarrow> (\<And>a. returns (f a)) \<Longrightarrow> returns (case x of None \<Rightarrow> m | Some a \<Rightarrow> f a)"
  "(\<And>e. returns (g e)) \<Longrightarrow> (\<And>a. returns (h a)) \<Longrightarrow> returns (case y of Inl e \<Rightarrow> g e | Inr a \<Rightarrow> h a)"
  "(\<And>a b. returns (k a b)) \<Longrightarrow> returns (case z of (a, b) \<Rightarrow> k a b)"
  "returns (p v) \<Longrightarrow> returns (Let v p)"
  by (auto split: option.split sum.split prod.split)

lemma returns_events [returns_rules]:
  "returns (recordCacheEvent org l ty model key reason)"
  "returns (recordSemanticCacheEvent org l ty model h1 h2 reason)"
  unfolding recordCacheEvent_def recordSemanticCacheEvent_def insert_event_def by (intro returns_rules)+

lemma returns_after_success: "returns (after_success svc input model cacheable candidate target response metered)"
  unfolding after_success_def store_in_caches_def by (intro returns_rules)

lemma returnsD: "returns m \<Longrightarrow> m E w = (r, w') \<Longrightarrow> \<exists>a. r = Inr a"
  by (metis fst_conv is_ok.elims(2) returns_def)

text \<open>
  Asking the targets ends in a recorded success, after which only logging follows, or in an error
  that leaves nothing billed.
\<close>

lemma ask_targets_cases:
  assumes run: "ask_targets svc input ad resolved cacheable candidate t E w = (r, w')"
  obtains (answered) target response metered i w1 w2 now where
      "RecordSuccess (gw_metering svc) i E w1 = (Inr metered, w2)" "w_db w1 = w_db w"
      "si_RequestID i = in_RequestID input" "si_OrgID i = kp_OrgID (in_Principal input)"
      "after_success svc input (req_Model (am_request ad)) cacheable candidate target response metered E w2 = (r, w')"
      "r = Inr (answer_of input (req_Model (am_request ad)) target response metered now)"
  | (failed) e where "r = Inl e" "billed (w_db w') = billed (w_db w)"
proof -
  define fallback where "fallback = (rp_Strategy (tr_RoutePolicy resolved) = ''fallback'')"
  obtain lr w1 where loop: "provider_loop svc input (am_request ad) fallback (length (tr_Targets resolved)) 0 loop_start
      (tr_Targets resolved) E w = (lr, w1)" by fastforce
  have w1: "w_db w1 = w_db w"
    by (rule keepsD [OF keeps_provider_loop _ loop]) simp
  consider (stuck) e where "lr = Inl e"
    | (none) st where "lr = Inr st" "all_targets_failed svc input ad resolved fallback st t E w1 = (r, w')"
    | (some) st target response where "lr = Inr st"
        "record_answer svc input ad resolved cacheable candidate t fallback st target response E w1 = (r, w')"
    using run loop by (cases lr) (auto simp: ask_targets_def Let_def andThen_apply fallback_def split: option.splits)
  then show thesis
  proof cases
    case (stuck e)
    then show thesis using failed run loop w1
      by (auto simp: ask_targets_def Let_def andThen_apply fallback_def)
  next
    case (none st)
    have "billed (w_db w') = billed (w_db w1)"
      by (rule keepsD [OF billed_log.keeps_all_targets_failed _ none(2)]) simp
    moreover have "\<exists>e. r = Inl e"
      using none(2) by (auto simp: all_targets_failed_def refuse_def andThen_apply attempt_apply fail_apply split: prod.splits)
    ultimately show thesis using failed w1 by auto
  next
    case (some st target response)
    then obtain i w2 res w3 where rec: "RecordSuccess (gw_metering svc) i E w2 = (res, w3)" "w_db w2 = w_db w"
      and i: "si_RequestID i = in_RequestID input" "si_OrgID i = kp_OrgID (in_Principal input)"
      and rest: "(case res of Inl e \<Rightarrow> (Inl e, w3)
        | Inr metered \<Rightarrow> after_success svc input (req_Model (am_request ad)) cacheable candidate target response metered E w3) = (r, w')"
      using w1 by (fastforce simp: record_answer_def andThen_apply clock_now_apply ret_apply success_input_def
          split: if_splits prod.splits sum.splits)
    show thesis
    proof (cases res)
      case (Inl e)
      then show thesis using failed rec rest RecordSuccess_Inl(1) by (fastforce simp: billed_def)
    next
      case (Inr metered)
      have tail: "after_success svc input (req_Model (am_request ad)) cacheable candidate target response metered E w3 = (r, w')"
        using rest Inr by simp
      obtain a where a: "r = Inr a" using returnsD [OF returns_after_success tail] by blast
      then obtain now where "a = answer_of input (req_Model (am_request ad)) target response metered now"
        using tail by (auto simp: after_success_def act_inr)
      then show thesis using answered rec i tail Inr a by blast
    qed
  qed
qed

lemma settled_releasing:
  assumes E: "healthy E" and led: "ledger_ok (w_db w)"
    and active: "active \<Longrightarrow> q \<noteq> uuid_Nil" "\<not> active \<Longrightarrow> none_open q (w_db w)"
    and body: "keeps ledger_ok body" "keeps_in E (settled_for q) body"
    and success: "\<And>a w1. active \<Longrightarrow> body E w = (Inr a, w1) \<Longrightarrow> none_open q (w_db w1)"
    and run: "releasing active q body E w = (r, w')"
  shows "settled_for q (w_db w')"
proof -
  obtain b w1 where b: "body E w = (b, w1)" by fastforce
  have led1: "ledger_ok (w_db w1)" by (rule keepsD [OF body(1) led b])
  have open1: "\<not> active \<Longrightarrow> none_open q (w_db w1)"
    using keeps_inD [OF body(2) _ b] led active(2) by blast
  show ?thesis
  proof (cases "active \<and> \<not> is_ok b")
    case True
    then have w': "w_db w' = w_db (snd (Release q E w1))"
      using run b by (cases b) (auto simp: releasing_def act_simps split: prod.splits)
    have "ledger_ok (w_db w')"
      unfolding w' using keepsD [OF keeps_Release led1] by (metis prod.collapse)
    then show ?thesis
      using Release_closes [OF E led1] active(1) True w' by simp
  next
    case False
    then have "w_db w' = w_db w1"
      using run b by (cases b) (auto simp: releasing_def act_simps)
    moreover have "none_open q (w_db w1)"
      using False open1 success b by (cases b) auto
    ultimately show ?thesis using led1 by simp
  qed
qed

lemma ask_targets_closes:
  assumes "ask_targets svc input ad resolved cacheable candidate t E w = (Inr a, w')"
  shows "none_open (in_RequestID input) (w_db w')"
  using assms
proof (cases rule: ask_targets_cases)
  case (answered target response metered i w1 w2 now)
  have "none_open (in_RequestID input) (w_db w2)"
    using RecordSuccess_closes [OF answered(1)] answered(3) by simp
  then show ?thesis by (rule keepsD [OF open_path.keeps_after_success _ answered(5)])
qed simp

lemma settled_from_provider:
  assumes E: "healthy E"
  shows "keeps_in E (settled_for (in_RequestID input)) (from_provider svc input ad resolved cacheable candidate t)"
proof (rule keeps_inI)
  fix w r w'
  assume before: "settled_for (in_RequestID input) (w_db w)"
    and run: "from_provider svc input ad resolved cacheable candidate t E w = (r, w')"
  obtain res w1 where res: "reserveProviderCost svc input (am_request ad) (map rv_Model (tr_Targets resolved)) (am_budget ad)
      (am_quota ad) (am_content ad) t E w = (res, w1)" by fastforce
  note reserved = reserveProviderCost_cases [OF res before]
  show "settled_for (in_RequestID input) (w_db w')"
  proof (cases res)
    case (Inl e)
    then show ?thesis using run res reserved by (auto simp: from_provider_def andThen_apply)
  next
    case (Inr active)
    show ?thesis
    proof (rule settled_releasing [OF E reserved(1)])
      show "releasing active (in_RequestID input) (ask_targets svc input ad resolved cacheable candidate t) E w1 = (r, w')"
        using run res Inr by (simp add: from_provider_def andThen_apply)
    qed (use reserved Inr ask_targets_closes in
      \<open>auto intro: ledger_path.keeps_ask_targets settled_calls\<close>)
  qed
qed

lemma settled_admit:
  assumes "\<And>r. keeps_in E (settled_for q) (passed r)"
  shows "keeps_in E (settled_for q) (admit svc input passed blocked request t)"
  unfolding admit_def
  by (intro keeps_in_rules settled_calls assms settled_reads keeps_rules)

lemma settled_Chat:
  assumes "healthy E"
  shows "keeps_in E (settled_for (in_RequestID input)) (Chat svc input)"
  unfolding Chat_def from_prompt_cache_def from_semantic_cache_def route_with_def
  by (intro keeps_in_rules settled_calls settled_admit settled_from_provider [OF assms] settled_reads keeps_rules)

section \<open>Streams hand their reservation over\<close>

text \<open>What a call ends in, by its result.\<close>

definition ends_in :: "environment \<Rightarrow> (database \<Rightarrow> bool) \<Rightarrow> 'a act \<Rightarrow> ('a outcome \<Rightarrow> database \<Rightarrow> bool) \<Rightarrow> bool" where
  "ends_in E I m Q \<longleftrightarrow> (\<forall>w r w'. I (w_db w) \<longrightarrow> m E w = (r, w') \<longrightarrow> Q r (w_db w'))"

named_theorems ends_in_rules \<open>results and the state they leave\<close>

lemma ends_inD: "ends_in E I m Q \<Longrightarrow> I (w_db w) \<Longrightarrow> m E w = (r, w') \<Longrightarrow> Q r (w_db w')"
  by (simp add: ends_in_def)

lemma ends_in_andThen:
  assumes "keeps_in E I m" and "\<And>a. ends_in E I (f a) Q" and "\<And>e d. I d \<Longrightarrow> Q (Inl e) d"
  shows "ends_in E I (andThen m f) Q"
  unfolding ends_in_def
proof (intro allI impI)
  fix w r w'
  assume before: "I (w_db w)" and run: "andThen m f E w = (r, w')"
  obtain a w1 where m: "m E w = (a, w1)" by fastforce
  show "Q r (w_db w')"
    using keeps_inD [OF assms(1) before m] run m assms(2, 3) by (cases a) (auto simp: andThen_apply ends_in_def)
qed

lemma ends_in_fails:
  assumes "keeps_in E I m" and "\<And>w. \<not> is_ok (fst (m E w))" and "\<And>e d. I d \<Longrightarrow> Q (Inl e) d"
  shows "ends_in E I m Q"
  unfolding ends_in_def by (metis assms fst_conv is_ok.simps(2) keeps_inD sum.exhaust)

lemma ends_in_branches [ends_in_rules]:
  "ends_in E I m Q \<Longrightarrow> ends_in E I n Q \<Longrightarrow> ends_in E I (if c then m else n) Q"
  "(\<And>e. ends_in E I (g e) Q) \<Longrightarrow> (\<And>a. ends_in E I (h a) Q) \<Longrightarrow> ends_in E I (case y of Inl e \<Rightarrow> g e | Inr a \<Rightarrow> h a) Q"
  by (auto split: sum.split)

lemma refuse_fails: "\<not> is_ok (fst (refuse svc input model status code err msg p m meta t E w))"
  by (simp add: refuse_def act_simps split: prod.split)

text \<open>What a call returns when it returns.\<close>

definition yields :: "('a \<Rightarrow> bool) \<Rightarrow> 'a act \<Rightarrow> bool" where
  "yields P m \<longleftrightarrow> (\<forall>E w a w'. m E w = (Inr a, w') \<longrightarrow> P a)"

named_theorems yields_rules \<open>what a call returns\<close>

lemma yieldsD: "yields P m \<Longrightarrow> m E w = (Inr a, w') \<Longrightarrow> P a"
  by (auto simp: yields_def)

lemma yields_basic [yields_rules]: "P a \<Longrightarrow> yields P (ret a)" "yields P (fail e)"
  by (simp_all add: yields_def act_inr)

lemma yields_andThen [yields_rules]: "(\<And>a. yields P (f a)) \<Longrightarrow> yields P (andThen m f)"
  unfolding yields_def andThen_Inr by blast

lemma yields_branches [yields_rules]:
  "yields P m \<Longrightarrow> yields P n \<Longrightarrow> yields P (if c then m else n)"
  "(\<And>e. yields P (g e)) \<Longrightarrow> (\<And>a. yields P (h a)) \<Longrightarrow> yields P (case y of Inl e \<Rightarrow> g e | Inr a \<Rightarrow> h a)"
  "(\<And>a b. yields P (k a b)) \<Longrightarrow> yields P (case z of (a, b) \<Rightarrow> k a b)"
  by (auto split: sum.split prod.split)

text \<open>
  A stream that was opened: the ledger is in order and the reservation, if there is one, is now
  the stream's to close.
\<close>

definition handed_over :: "bool \<Rightarrow> uuid \<Rightarrow> database \<Rightarrow> bool" where
  "handed_over active q db \<longleftrightarrow> ledger_ok db \<and> (if active then q \<noteq> uuid_Nil else none_open q db)"

fun stream_end :: "ChatInput \<Rightarrow> ChatStreamResult outcome \<Rightarrow> database \<Rightarrow> bool" where
  "stream_end input (Inl e) db = settled_for (in_RequestID input) db"
| "stream_end input (Inr st) db = (st_input st = input \<and> handed_over (st_reservationActive st) (in_RequestID input) db)"

lemma open_stream_yields:
  "yields (\<lambda>st. st_input st = input \<and> st_reservationActive st = active) (open_stream svc input ad resolved active t)"
  unfolding open_stream_def refuse_def Let_def by (intro yields_rules) simp

lemma stream_rest_ends:
  assumes E: "healthy E"
  shows "ends_in E (settled_for (in_RequestID input))
    (andThen (reserveProviderCost svc input request ms b qc c t) (\<lambda>active.
       releasing active (in_RequestID input) (open_stream svc input ad resolved active t))) (stream_end input)"
  unfolding ends_in_def
proof (intro allI impI)
  fix w r w'
  assume before: "settled_for (in_RequestID input) (w_db w)"
    and run: "andThen (reserveProviderCost svc input request ms b qc c t) (\<lambda>active.
       releasing active (in_RequestID input) (open_stream svc input ad resolved active t)) E w = (r, w')"
  obtain res w1 where res: "reserveProviderCost svc input request ms b qc c t E w = (res, w1)" by fastforce
  note reserved = reserveProviderCost_cases [OF res before]
  show "stream_end input r (w_db w')"
  proof (cases res)
    case (Inl e)
    then show ?thesis using run res reserved by (auto simp: andThen_apply)
  next
    case (Inr active)
    define body where "body = open_stream svc input ad resolved active t"
    have rel: "releasing active (in_RequestID input) body E w1 = (r, w')"
      using run res Inr by (simp add: andThen_apply body_def)
    have body: "keeps ledger_ok body" "keeps_in E (settled_for (in_RequestID input)) body"
      unfolding body_def by (rule ledger_path.keeps_open_stream settled_calls)+
    show ?thesis
    proof (cases r)
      case (Inl e)
      have "settled_for (in_RequestID input) (w_db w')"
      proof (rule settled_releasing [OF E reserved(1) _ _ body _ rel])
        show "none_open (in_RequestID input) (w_db v)" if "body E w1 = (Inr a, v)" for a v
          using rel that Inl by (simp add: releasing_def act_simps)
      qed (use reserved Inr in auto)
      then show ?thesis using Inl by simp
    next
      case (Inr st)
      then have st: "body E w1 = (Inr st, w')"
        using rel by (auto simp: releasing_def act_simps split: prod.splits sum.splits if_splits)
      then have "handed_over active (in_RequestID input) (w_db w')"
        using keepsD [OF body(1) reserved(1) st] keeps_inD [OF body(2) _ st] reserved \<open>res = Inr active\<close>
        by (auto simp: handed_over_def)
      then show ?thesis using yieldsD [OF open_stream_yields st [unfolded body_def]] Inr by simp
    qed
  qed
qed

lemma StreamChat_ends:
  assumes "healthy E"
  shows "ends_in E (settled_for (in_RequestID input)) (StreamChat svc input) (stream_end input)"
  unfolding StreamChat_def route_with_def
  by (intro ends_in_andThen ends_in_rules stream_rest_ends [OF assms] keeps_in_rules settled_calls settled_admit
      settled_reads keeps_rules ends_in_fails)
    (auto simp: refuse_fails fail_apply)

lemma release_if_settles:
  assumes E: "healthy E" and before: "handed_over active q (w_db w)"
  obtains w' where "release_if active q E w = (Inr (), w')" "settled_for q (w_db w')"
proof (cases active)
  case True
  then have "ledger_ok (w_db (snd (Release q E w)))" "none_open q (w_db (snd (Release q E w)))"
    using before Release_closes [OF E] keepsD [OF keeps_Release] by (auto simp: handed_over_def) (metis prod.collapse)
  then show thesis
    using that [of "snd (Release q E w)"] True
    by (simp add: release_if_def andThen_apply attempt_apply ret_apply case_prod_beta)
next
  case False
  then show thesis using that before by (auto simp: release_if_def act_simps handed_over_def)
qed

lemma keeps_handed_over: "keeps ledger_ok m \<Longrightarrow> keeps (none_open q) m \<Longrightarrow> keeps (handed_over active q) m"
  by (auto simp: handed_over_def [abs_def] keeps_def)

lemma ends_in_returns:
  assumes "keeps_in E I m" and "returns m" and "\<And>a. ends_in E I (f a) Q"
  shows "ends_in E I (andThen m f) Q"
  unfolding ends_in_def
proof (intro allI impI)
  fix w r w'
  assume before: "I (w_db w)" and run: "andThen m f E w = (r, w')"
  obtain b w1 where m: "m E w = (b, w1)" by fastforce
  then obtain a where "b = Inr a" using returnsD [OF assms(2)] by blast
  then show "Q r (w_db w')"
    using keeps_inD [OF assms(1) before m] run m assms(3) by (auto simp: andThen_apply ends_in_def)
qed

lemma ends_release:
  assumes "healthy E" and "\<And>I. keeps I m"
  shows "ends_in E (handed_over active q) (andThen (release_if active q) (\<lambda>_. m)) (\<lambda>_. settled_for q)"
  unfolding ends_in_def
proof (intro allI impI)
  fix w r w'
  assume "handed_over active q (w_db w)" and run: "andThen (release_if active q) (\<lambda>_. m) E w = (r, w')"
  then obtain w1 where "release_if active q E w = (Inr (), w1)" and settled: "settled_for q (w_db w1)"
    using release_if_settles [OF assms(1)] by blast
  then have "m E w1 = (r, w')" using run by (simp add: andThen_apply)
  then show "settled_for q (w_db w')" by (rule keepsD [where I = "settled_for q", OF assms(2) settled])
qed

lemma ends_record:
  assumes E: "healthy E" and i: "si_RequestID i = q"
  shows "ends_in E (handed_over active q) (andThen (attempt (RecordSuccess s i)) (\<lambda>r. case r of
      Inl e \<Rightarrow> andThen (release_if active q) (\<lambda>_. fail e) | Inr _ \<Rightarrow> ret ())) (\<lambda>_. settled_for q)"
  unfolding ends_in_def
proof (intro allI impI)
  fix w r w'
  assume before: "handed_over active q (w_db w)" and run: "andThen (attempt (RecordSuccess s i)) (\<lambda>r. case r of
      Inl e \<Rightarrow> andThen (release_if active q) (\<lambda>_. fail e) | Inr _ \<Rightarrow> ret ()) E w = (r, w')"
  obtain res w1 where rec: "RecordSuccess s i E w = (res, w1)" by fastforce
  show "settled_for q (w_db w')"
  proof (cases res)
    case (Inl e)
    then have "andThen (release_if active q) (\<lambda>_. fail e) E w1 = (r, w')"
      using run rec by (simp add: andThen_apply attempt_apply)
    moreover have "handed_over active q (w_db w1)"
      using RecordSuccess_Inl(1) [of s i E w e w1] rec Inl before by simp
    ultimately show ?thesis
      using ends_inD [OF ends_release [OF E keeps_fail]] by blast
  next
    case (Inr a)
    then have "none_open q (w_db w1)" "w' = w1"
      using RecordSuccess_closes [of s i E w a w1] rec i run by (simp_all add: act_simps)
    moreover have "ledger_ok (w_db w1)"
      by (rule keepsD [OF keeps_RecordSuccess(1) _ rec]) (use before in \<open>simp add: handed_over_def\<close>)
    ultimately show ?thesis by simp
  qed
qed

lemma FinalizeStream_ends:
  assumes E: "healthy E"
  shows "ends_in E (handed_over (st_reservationActive result) (in_RequestID (st_input result)))
    (FinalizeStream svc result usage e) (\<lambda>_. settled_for (in_RequestID (st_input result)))"
proof -
  define q active where "q = in_RequestID (st_input result)" and "active = st_reservationActive result"
  have failure: "keeps_in E (handed_over active q) (attempt (RecordFailure s f))" for s f
    by (intro keeps_in_keeps keeps_attempt keeps_handed_over ledger_path.failure open_path.failure)
  have failure': "keeps_in E (handed_over active q) (attempt (recordFailure svc input model st sc ec p m meta t))"
    for input model st sc ec p m meta t
    unfolding recordFailure_def
    by (intro keeps_in_keeps keeps_attempt keeps_handed_over keeps_rules ledger_path.failure open_path.failure)
  have clock: "keeps_in E (handed_over active q) clock_now"
    by (intro keeps_in_keeps keeps_clock)
  have i: "si_RequestID (success_input svc (st_input result) ad policy prov model meta rh pl ru pt ct t1 t2 t3) = q"
    for ad policy prov model meta rh pl ru pt ct t1 t2 t3
    by (simp add: success_input_def q_def)
  show ?thesis
    unfolding FinalizeStream_def Let_def q_def [symmetric] active_def [symmetric]
    by (auto split: option.split prod.split sum.split
        intro!: ends_in_returns [OF clock returns_basic(2)] ends_in_returns [OF failure returns_basic(4)]
          ends_in_returns [OF failure' returns_basic(4)] ends_release [OF E] ends_record [OF E i] keeps_rules)
qed

section \<open>What a request bills\<close>

text \<open>
  An error bills nothing. An answer comes with one usage and one cost record of the request, whose
  tokens and cost are those of the answer, or from a cache, with neither record and no cost.
\<close>

fun bill_spec :: "ChatInput \<Rightarrow> UsageRecord list \<times> CostRecord list \<Rightarrow> ChatCompletionResponse outcome \<Rightarrow> database \<Rightarrow> bool" where
  "bill_spec input b (Inl e) db = (billed db = b)"
| "bill_spec input b (Inr a) db = (
     (\<exists>u c. billed db = (fst b @ [u], snd b @ [c]) \<and> ur_RequestLogID u = in_RequestID input \<and>
        cr_UsageRecordID c = ur_ID u \<and> cr_OrgID c = kp_OrgID (in_Principal input) \<and>
        rsp_PromptTokens a = ur_PromptTokens u \<and> rsp_CompletionTokens a = ur_CompletionTokens u \<and>
        rsp_TotalTokens a = ur_TotalTokens u \<and> rsp_TotalCostMicro a = cr_TotalCostMicro c) \<or>
     billed db = b \<and> rsp_TotalTokens a = 0 \<and> rsp_TotalCostMicro a = 0)"

lemma RecordSuccess_bills:
  assumes "RecordSuccess s i E w = (Inr r, w')"
  shows "billed (w_db w') = (usage_records (w_db w) @ [sr_UsageRecord r], cost_records (w_db w) @ [sr_CostRecord r])"
    and "result_ok (w_db w) i r"
proof -
  obtain w2 where tx: "record_success_tx SettleTx i E (tick w) = (Inr r, w2)" and w': "w_db w' = w_db w2"
    using assms by (rule RecordSuccess_Inr)
  show "billed (w_db w') = (usage_records (w_db w) @ [sr_UsageRecord r], cost_records (w_db w) @ [sr_CostRecord r])"
    using settled.tx_records [OF tx] w' by (simp add: billed_def records_of_def add_records_def)
  show "result_ok (w_db w) i r"
    using tx by (rule record_success_tx_Inr) simp
qed

lemma billed_Hit: "keeps (\<lambda>d. billed d = b) (RecordCacheHit s h)"
proof -
  have "keeps (\<lambda>d. billed d = b) (InsertRequestLog r)" for r
    unfolding InsertRequestLog_def by (rule keeps_sql_insert) (simp add: billed_def)
  then show ?thesis unfolding RecordCacheHit_def by (intro keeps_rules)
qed

lemma ask_targets_bills:
  "ends_in E (\<lambda>d. billed d = b) (ask_targets svc input ad resolved cacheable candidate t) (bill_spec input b)"
  unfolding ends_in_def
proof (intro allI impI)
  fix w r w'
  assume before: "billed (w_db w) = b" and run: "ask_targets svc input ad resolved cacheable candidate t E w = (r, w')"
  from run show "bill_spec input b r (w_db w')"
  proof (cases rule: ask_targets_cases)
    case (answered target response metered i w1 w2 now)
    have "billed (w_db w') = billed (w_db w2)"
      by (rule keepsD [OF billed_log.keeps_after_success _ answered(5)]) simp
    then show ?thesis
      using RecordSuccess_bills [OF answered(1)] answered(2, 3, 4, 6) before
      by (auto simp: answer_of_def result_ok_def billed_def)
  next
    case (failed e)
    then show ?thesis using before by simp
  qed
qed

lemma releasing_bills:
  assumes "ends_in E (\<lambda>d. billed d = b) body (bill_spec input b)"
  shows "ends_in E (\<lambda>d. billed d = b) (releasing active q body) (bill_spec input b)"
  unfolding ends_in_def
proof (intro allI impI)
  fix w r w'
  assume before: "billed (w_db w) = b" and run: "releasing active q body E w = (r, w')"
  obtain x w1 where x: "body E w = (x, w1)" by fastforce
  have spec: "bill_spec input b x (w_db w1)" by (rule ends_inD [OF assms before x])
  show "bill_spec input b r (w_db w')"
  proof (cases x)
    case (Inl e)
    obtain y w2 where y: "Release q E w1 = (y, w2)" by fastforce
    have "billed (w_db w2) = b"
      by (rule keepsD [OF billed_view.keeps_view_Release _ y]) (use spec Inl in simp)
    then show ?thesis
      using run x y Inl spec by (auto simp: releasing_def act_simps split: if_splits)
  qed (use run x spec in \<open>auto simp: releasing_def act_simps\<close>)
qed

lemma reserve_billed: "keeps_in E (\<lambda>d. billed d = b) (reserveProviderCost svc input request ms bc qc c t)"
  unfolding reserveProviderCost_def
  by (intro keeps_in_keeps keeps_rules billed_view.keeps_view_Reserve billed_log.keeps_refuse)

lemma ends_in_yields:
  assumes "keeps_in E I m" and "yields P m" and "\<And>d e. I d \<Longrightarrow> Q (Inl e) d" and "\<And>d a. I d \<Longrightarrow> P a \<Longrightarrow> Q (Inr a) d"
  shows "ends_in E I m Q"
  unfolding ends_in_def
proof (intro allI impI)
  fix w r w'
  assume before: "I (w_db w)" and run: "m E w = (r, w')"
  then show "Q r (w_db w')"
    using keeps_inD [OF assms(1) before run] assms(2-4) by (cases r) (auto dest: yieldsD)
qed

lemma cache_bills:
  "ends_in E (\<lambda>d. billed d = b) (respondFromPromptCache svc input ad resolved cached key t) (bill_spec input b)"
  "ends_in E (\<lambda>d. billed d = b) (respondFromSemanticCache svc input ad resolved match t) (bill_spec input b)"
proof -
  have free: "yields (\<lambda>a. rsp_TotalTokens a = 0 \<and> rsp_TotalCostMicro a = 0) (respondFromPromptCache svc input ad resolved cached key t)"
    "yields (\<lambda>a. rsp_TotalTokens a = 0 \<and> rsp_TotalCostMicro a = 0) (respondFromSemanticCache svc input ad resolved match t)"
    unfolding respondFromPromptCache_def respondFromSemanticCache_def cachedChatResponse_def Let_def
    by (cases "tr_Targets resolved"; auto intro!: yields_rules)+
  have keep: "keeps (\<lambda>d. billed d = b) (respondFromPromptCache svc input ad resolved cached key t)"
    "keeps (\<lambda>d. billed d = b) (respondFromSemanticCache svc input ad resolved match t)"
    unfolding respondFromPromptCache_def respondFromSemanticCache_def
    by (intro keeps_rules billed_Hit billed_log.keeps_events)+
  show "ends_in E (\<lambda>d. billed d = b) (respondFromPromptCache svc input ad resolved cached key t) (bill_spec input b)"
    by (rule ends_in_yields [OF keeps_in_keeps [OF keep(1)] free(1)]) auto
  show "ends_in E (\<lambda>d. billed d = b) (respondFromSemanticCache svc input ad resolved match t) (bill_spec input b)"
    by (rule ends_in_yields [OF keeps_in_keeps [OF keep(2)] free(2)]) auto
qed

lemma from_provider_bills:
  "ends_in E (\<lambda>d. billed d = b) (from_provider svc input ad resolved cacheable candidate t) (bill_spec input b)"
  unfolding from_provider_def
  by (intro ends_in_andThen reserve_billed releasing_bills ask_targets_bills) simp

lemma ends_in_option [ends_in_rules]:
  "ends_in E I m Q \<Longrightarrow> (\<And>a. ends_in E I (f a) Q) \<Longrightarrow> ends_in E I (case x of None \<Rightarrow> m | Some a \<Rightarrow> f a) Q"
  "(\<And>a b. ends_in E I (k a b) Q) \<Longrightarrow> ends_in E I (case z of (a, b) \<Rightarrow> k a b) Q"
  "ends_in E I (p v) Q \<Longrightarrow> ends_in E I (Let v p) Q"
  by (auto split: option.split prod.split)

lemma semantic_bills:
  "ends_in E (\<lambda>d. billed d = b) (from_semantic_cache svc input ad resolved cacheable t) (bill_spec input b)"
  unfolding from_semantic_cache_def
  by (intro ends_in_rules ends_in_andThen from_provider_bills cache_bills keeps_in_keeps billed_log.keeps_events keeps_rules)
    auto

lemma Chat_bills: "ends_in E (\<lambda>d. billed d = b) (Chat svc input) (bill_spec input b)"
  unfolding Chat_def from_prompt_cache_def
  by (intro ends_in_rules ends_in_andThen semantic_bills cache_bills keeps_in_keeps billed_log.keeps_events
      billed_log.keeps_admit billed_log.keeps_route_with keeps_rules
      ends_in_fails [OF keeps_in_keeps [OF billed_log.keeps_refuse] refuse_fails]
      ends_in_fails [OF keeps_in_keeps [OF keeps_fail]])
    (auto simp: fail_apply)

section \<open>Requests in sequence\<close>

text \<open>The gateway at work: chats, streams opened and streams closed, in any order, with whatever failures.\<close>

inductive gateway_step :: "database \<Rightarrow> database \<Rightarrow> bool" where
  chat: "Chat svc input E w = (r, w') \<Longrightarrow> gateway_step (w_db w) (w_db w')"
| stream: "StreamChat svc input E w = (s, w') \<Longrightarrow> gateway_step (w_db w) (w_db w')"
| finalize: "FinalizeStream svc st usage e E w = (u, w') \<Longrightarrow> gateway_step (w_db w) (w_db w')"

inductive_cases gateway_stepE: "gateway_step db db'"

inductive gateway_reachable :: "database \<Rightarrow> database \<Rightarrow> bool" for db0 where
  start: "gateway_reachable db0 db0"
| step: "gateway_reachable db0 db \<Longrightarrow> gateway_step db db' \<Longrightarrow> gateway_reachable db0 db'"

context request_path
begin

lemma step_inv: "gateway_step db db' \<Longrightarrow> I db \<Longrightarrow> I db'"
  by (erule gateway_stepE)
    (auto dest: keepsD [OF keeps_Chat] keepsD [OF keeps_StreamChat] keepsD [OF keeps_FinalizeStream])

lemma reachable_inv: "gateway_reachable db0 db \<Longrightarrow> I db0 \<Longrightarrow> I db"
  by (induction rule: gateway_reachable.induct) (auto dest: step_inv)

end

lemma demo_chat_ok: "ledger_ok demo_chat_db" "books_ok demo_chat_db" "none_open 77 demo_chat_db"
  by (simp_all add: demo_chat_db_def demo_route_db_def demo_db_def empty_db_def ledger_ok_def books_ok_def none_open_def)

section \<open>Properties\<close>

text \<open>
  C6: Whatever requests the gateway serves, plain or streamed, in any order and with any failure of
  the database, the providers, the caches or the sinks on the way, the ledger of reservations and
  counters stays consistent, and so do the books: one cost per usage, one usage per request, every
  usage of a logged request, sums that add up.
\<close>

theorem gateway_keeps_books:
  assumes "gateway_reachable db0 db" and "ledger_ok db0" and "books_ok db0"
  shows "ledger_ok db \<and> books_ok db"
  using ledger_path.reachable_inv [OF assms(1, 2)] books_path.reachable_inv [OF assms(1, 3)] by simp

theorem gateway_keeps_books_witness:
  "\<exists>db. gateway_reachable demo_chat_db db \<and> gateway_step demo_chat_db db \<and> ledger_ok db \<and> books_ok db"
proof -
  define db where "db = w_db (snd (Chat demo_chat_service demo_chat demo_env (world_of demo_chat_db)))"
  have step: "gateway_step demo_chat_db db"
    using gateway_step.chat [of demo_chat_service demo_chat demo_env "world_of demo_chat_db"]
    unfolding db_def by (metis prod.collapse world_of_db)
  then have reach: "gateway_reachable demo_chat_db db"
    by (rule gateway_reachable.step [OF gateway_reachable.start])
  show ?thesis
    using gateway_keeps_books [OF reach demo_chat_ok(1, 2)] step reach by blast
qed


text \<open>
  C2: No chat leaves a reservation behind. As long as the database answers, when a chat has returned,
  answered or not and wherever it failed after reserving, no reservation of the request is open,
  and the ledger is consistent.
\<close>

theorem chat_closes_reservation:
  assumes "healthy E" and "ledger_ok (w_db w)" and "none_open (in_RequestID input) (w_db w)"
  shows "none_open (in_RequestID input) (w_db (snd (Chat svc input E w))) \<and> ledger_ok (w_db (snd (Chat svc input E w)))"
  using keeps_inD [OF settled_Chat [OF assms(1)], of w] assms(2, 3) by (metis prod.collapse)

theorem chat_closes_reservation_witness:
  "none_open 77 (w_db (snd (Chat demo_chat_service demo_chat demo_env (world_of demo_chat_db))))"
  using chat_closes_reservation [of demo_env "world_of demo_chat_db" demo_chat demo_chat_service] demo_chat_ok
  by (simp add: demo_chat_def)

text \<open>
  C9: The same for streams, over both halves. Opening a stream fails with nothing left open, or hands
  the reservation over to the stream; and whenever an opened stream is finalized, later and in
  another state of the database, with or without usage, after an error or not, no reservation of
  its request is open afterwards.
\<close>

theorem stream_closes_reservation:
  assumes "healthy E" and "ledger_ok (w_db w)" and "none_open (in_RequestID input) (w_db w)"
    and "healthy E2" and "handed_over (st_reservationActive st2) (in_RequestID (st_input st2)) (w_db w2)"
  shows "(case StreamChat svc input E w of
        (Inl e, w1) \<Rightarrow> none_open (in_RequestID input) (w_db w1) \<and> ledger_ok (w_db w1)
      | (Inr st, w1) \<Rightarrow> st_input st = input \<and> handed_over (st_reservationActive st) (in_RequestID input) (w_db w1)) \<and>
    none_open (in_RequestID (st_input st2)) (w_db (snd (FinalizeStream svc2 st2 usage e E2 w2)))"
proof
  show "case StreamChat svc input E w of
      (Inl e, w1) \<Rightarrow> none_open (in_RequestID input) (w_db w1) \<and> ledger_ok (w_db w1)
    | (Inr st, w1) \<Rightarrow> st_input st = input \<and> handed_over (st_reservationActive st) (in_RequestID input) (w_db w1)"
    using ends_inD [OF StreamChat_ends [OF assms(1)], of w input svc] assms(2, 3)
    by (auto split: prod.split sum.split)
  show "none_open (in_RequestID (st_input st2)) (w_db (snd (FinalizeStream svc2 st2 usage e E2 w2)))"
    using ends_inD [OF FinalizeStream_ends [OF assms(4)] assms(5)] by (metis prod.collapse)
qed

definition demo_stream :: ChatStreamResult where
  "demo_stream = \<lparr>st_reservationActive = True, st_input = demo_chat\<lparr>in_RequestID := ri_RequestID demo_reserve\<rparr>,
     st_admitted = \<lparr>am_request = empty_request, am_content = \<lparr>cpd_Action = ''allow'', cpd_Hit = False, cpd_Blocked = False, cpd_Types = []\<rparr>,
       am_budget = \<lparr>ck_Allowed = True, ck_Exceeded = False, ck_Warning = False, ck_Action = [], ck_Status = None\<rparr>,
       am_quota = \<lparr>qc_Allowed = True, qc_Exceeded = False, qc_Warning = False, qc_Action = [], qc_Status = None\<rparr>,
       am_anomaly = no_decision\<rparr>,
     st_resolved = \<lparr>rz_RoutePolicy = demo_policy ''fallback'', rz_Provider = demo_provider, rz_Model = demo_model\<rparr>,
     st_startedAt = demo_t0, st_providerStartedAt = demo_t0\<rparr>"

theorem stream_closes_reservation_witness:
  "(case StreamChat demo_chat_service demo_chat demo_env (world_of demo_chat_db) of
      (Inl e, w1) \<Rightarrow> none_open 77 (w_db w1) \<and> ledger_ok (w_db w1)
    | (Inr st, w1) \<Rightarrow> st_input st = demo_chat \<and> handed_over (st_reservationActive st) 77 (w_db w1)) \<and>
   \<not> none_open (ri_RequestID demo_reserve) (w_db demo_reserved) \<and>
   none_open (ri_RequestID demo_reserve)
     (w_db (snd (FinalizeStream demo_chat_service demo_stream None None demo_env demo_reserved)))"
proof -
  have q: "in_RequestID (st_input demo_stream) = ri_RequestID demo_reserve" "st_reservationActive demo_stream"
    "in_RequestID demo_chat = 77"
    by (simp_all add: demo_stream_def demo_chat_def)
  have over: "handed_over (st_reservationActive demo_stream) (in_RequestID (st_input demo_stream)) (w_db demo_reserved)"
    using demo_reserved_ledger by (simp add: q handed_over_def demo_reserve_def uuid_Nil_def)
  have "\<not> none_open (ri_RequestID demo_reserve) (w_db demo_reserved)"
    by (simp add: none_open_def demo_reserved_def demo_loop_run demo_reservation_def demo_reserve_def is_outstanding_def)
  then show ?thesis
    using stream_closes_reservation [OF healthy_demo _ _ healthy_demo over,
        of "world_of demo_chat_db" demo_chat demo_chat_service demo_chat_service None None, unfolded q world_of_db,
        OF demo_chat_ok(1, 3)]
    by simp
qed

end
