(* ===== verification/Disclosure.thy ===== *)
theory Disclosure
  imports Gateway
begin

text \<open>
  What leaves the process while a request is served: every call of the gateway that can send
  something is followed, and what a provider gets to see is the conversation the content policy
  let through.
\<close>

section \<open>What a call sends\<close>

definition sends :: "(sent_message \<Rightarrow> bool) \<Rightarrow> 'a act \<Rightarrow> bool" where
  "sends P m \<longleftrightarrow> (\<forall>E w. \<exists>ms. w_sent (snd (m E w)) = w_sent w @ ms \<and> list_all P ms)"

named_theorems sends_rules \<open>what a call hands to the network\<close>

lemma sendsI: "(\<And>E w. w_sent (snd (m E w)) = w_sent w) \<Longrightarrow> sends P m"
  by (simp add: sends_def)

lemma sendsD: "sends P m \<Longrightarrow> m E w = (r, w') \<Longrightarrow> \<exists>ms. w_sent w' = w_sent w @ ms \<and> list_all P ms"
  unfolding sends_def by (metis snd_conv)

lemma sends_mono: "sends P m \<Longrightarrow> (\<And>x. P x \<Longrightarrow> Q x) \<Longrightarrow> sends Q m"
  unfolding sends_def list_all_iff by blast

lemma w_sent_update [simp]: "w_sent (tick w) = w_sent w" "w_sent (w\<lparr>w_db := db\<rparr>) = w_sent w" "w_sent (rollback db w) = w_sent w"
  by (simp_all add: tick_def rollback_def)

lemma sends_basic [sends_rules]: "sends P (ret a)" "sends P (fail e)" "sends P (lift r)" "sends P clock_now" "sends P new_uuid"
  "sends P (ask f)" "sends P (backoff c)" "sends P (publishUsageEvent s e')" "sends P (writeAnalyticsRecord s a')"
  by (auto intro!: sendsI simp: act_simps ask_def backoff_def publishUsageEvent_def writeAnalyticsRecord_def)

lemma sends_db_exec [sends_rules]: "sends P (db_exec f)"
  by (auto intro!: sendsI simp: act_simps split: sum.splits)

lemma sends_statements [sends_rules]: "sends P (db_read f)" "sends P (sql_insert cs add row)" "sends P server_step"
  unfolding db_read_def sql_insert_def server_step_def by (rule sends_db_exec)+

lemma sends_andThen [sends_rules]:
  assumes "sends P m" and "\<And>a. sends P (f a)"
  shows "sends P (andThen m f)"
  unfolding sends_def
proof (intro allI)
  fix E w
  obtain r w1 where m: "m E w = (r, w1)" by fastforce
  obtain ms where ms: "w_sent w1 = w_sent w @ ms" "list_all P ms" using sendsD [OF assms(1) m] by blast
  show "\<exists>ms. w_sent (snd (andThen m f E w)) = w_sent w @ ms \<and> list_all P ms"
  proof (cases r)
    case (Inl e)
    then show ?thesis using m ms by (auto simp: andThen_apply)
  next
    case (Inr a)
    obtain s w2 where f: "f a E w1 = (s, w2)" by fastforce
    obtain ns where "w_sent w2 = w_sent w1 @ ns" "list_all P ns" using sendsD [OF assms(2) f] by blast
    then show ?thesis using m f ms Inr by (intro exI [of _ "ms @ ns"]) (simp add: andThen_apply)
  qed
qed

lemma sends_attempt [sends_rules]: "sends P m \<Longrightarrow> sends P (attempt m)"
  unfolding sends_def attempt_def by (metis (no_types, lifting) case_prod_beta snd_conv)

lemma sends_no_rows_as [sends_rules]: "sends P m \<Longrightarrow> sends P (no_rows_as e m)"
proof -
  have "snd (no_rows_as e m E w) = snd (m E w)" for E w
    by (simp add: no_rows_as_apply split: prod.split sum.split)
  then show "sends P m \<Longrightarrow> sends P (no_rows_as e m)" by (simp add: sends_def)
qed

lemma sends_branches [sends_rules]:
  "(c \<Longrightarrow> sends P m) \<Longrightarrow> (\<not> c \<Longrightarrow> sends P n) \<Longrightarrow> sends P (if c then m else n)"
  "(y = None \<Longrightarrow> sends P m) \<Longrightarrow> (\<And>a. y = Some a \<Longrightarrow> sends P (f a)) \<Longrightarrow> sends P (case y of None \<Rightarrow> m | Some a \<Rightarrow> f a)"
  "(\<And>e. sends P (g e)) \<Longrightarrow> (\<And>a. sends P (h a)) \<Longrightarrow> sends P (case z of Inl e \<Rightarrow> g e | Inr a \<Rightarrow> h a)"
  "(\<And>a b. sends P (k a b)) \<Longrightarrow> sends P (case q of (a, b) \<Rightarrow> k a b)"
  "sends P (l v) \<Longrightarrow> sends P (Let v l)"
  "sends P m \<Longrightarrow> (\<And>a as. sends P (j a as)) \<Longrightarrow> sends P (case xs of [] \<Rightarrow> m | a # as \<Rightarrow> j a as)"
  by (auto split: option.split sum.split prod.split list.split)

lemma sends_with_tx [sends_rules]:
  assumes "sends P body"
  shows "sends P (with_tx body)"
  unfolding sends_def
proof (intro allI)
  fix E w
  obtain b w2 where body: "body E (tick w) = (b, w2)" by fastforce
  obtain ms where "w_sent w2 = w_sent (tick w) @ ms" "list_all P ms" using sendsD [OF assms body] by blast
  then show "\<exists>ms. w_sent (snd (with_tx body E w)) = w_sent w @ ms \<and> list_all P ms"
    using body by (cases "env_fault E (w_step w)") (auto simp: with_tx_def server_step_apply split: sum.splits bool.splits)
qed

lemma sends_ExecTx [sends_rules]: "sends P m \<Longrightarrow> sends P (ExecTx m)"
  unfolding ExecTx_def by (intro sends_rules)

section \<open>The calls that send nothing\<close>

lemma sends_loops [sends_rules]: "sends P (settle_loop rs a t)" "sends P (release_loop rs t)"
  unfolding update_counters_def by (induction rs) (auto intro!: sends_rules simp: update_counters_def)

lemma sends_closing [sends_rules]: "sends P (Release q)" "sends P (SettleTx q a t)"
  unfolding Release_def ReleaseTx_def SettleTx_def select_reservations_def mark_settled_def mark_released_def
  by (intro sends_rules)+

lemma sends_Reserve [sends_rules]: "sends P (Reserve i)"
proof -
  have "sends P (reserve_loop i now items)" for now items
    by (induction items)
      (auto simp: reserve_one_def reserve_on_limit_def ensureAndLockCounter_def insert_counter_def select_counter_def
        reserve_on_counter_def update_counters_def insert_reservation_def Let_def intro!: sends_rules)
  then show ?thesis
    unfolding Reserve_def reserve_body_def loadBlockingConstraints_def GetAPIKey_def by (intro sends_rules)
qed

lemma sends_recording [sends_rules]: "sends P (RecordSuccess s i)" "sends P (RecordFailure s f)" "sends P (RecordCacheHit s h)"
  unfolding RecordSuccess_def record_success_tx_def RecordFailure_def RecordCacheHit_def InsertRequestLog_def
    InsertUsageRecord_def InsertCostRecord_def GetActiveModelPricingVersion_row_def
  by (intro sends_rules)+

lemma sends_refuse [sends_rules]: "sends P (refuse svc input model status code err msg p m meta t)"
  unfolding refuse_def recordFailure_def by (intro sends_rules)

lemma sends_events [sends_rules]:
  "sends P (recordCacheEvent org l ty model key reason)" "sends P (recordSemanticCacheEvent org l ty model h1 h2 reason)"
  "sends P (recordPromptCacheSkip svc input request reason)"
  unfolding recordPromptCacheSkip_def recordCacheEvent_def recordSemanticCacheEvent_def insert_event_def InsertCacheEvent_def
  by (intro sends_rules)+

lemma sends_Check [sends_rules]: "sends P (Check org)"
proof -
  have "sends P (statuses_loop bs cache)" for bs cache
    by (induction bs arbitrary: cache)
      (auto simp: statusForBudgetWithCache_def usageForPeriod_def budget_periodWindow_def
        GetBudgetUsedAmount_def intro!: sends_rules)
  then show ?thesis unfolding Check_def GetStatus_def ListBudgets_def by (intro sends_rules)
qed

lemma sends_Quota_Check [sends_rules]: "sends P (Quota_Check p)"
proof -
  have "sends P (quota_loop k r ls)" for k r ls
    by (induction ls arbitrary: r)
      (auto simp: statusForPeriod_def GetAPIKeyCostUsedAmount_def intro!: sends_rules)
  then show ?thesis unfolding Quota_Check_def GetAPIKey_def by (intro sends_rules)
qed

lemma sends_ResolveTargets [sends_rules]: "sends P (ResolveTargets p)" "sends P (Resolve p)"
proof -
  have "sends P (resolve_loop org policy ts)" for org policy ts
    by (induction ts) (auto simp: GetProvider_def GetModel_def intro!: sends_rules)
  then show targets: "sends P (ResolveTargets p)"
    unfolding ResolveTargets_def order_targets_def resolveLowestLatencyTargets_def GetRoutePolicyByMatchModel_def
      ListRouteTargets_def ProviderModelLatencyStats_def
    by (intro sends_rules)
  show "sends P (Resolve p)"
    unfolding Resolve_def by (intro sends_rules targets)
qed

lemma sends_providerConfig [sends_rules]: "sends P (providerConfig svc item)"
  unfolding providerConfig_def GetProviderSecret_def by (intro sends_rules)

lemma sends_semanticCandidate [sends_rules]: "sends P (semanticCandidate svc input request key)"
  unfolding semanticCandidate_def by (intro sends_rules)

lemma sends_applyContentPolicy [sends_rules]: "sends P (applyContentPolicy org request)"
  unfolding applyContentPolicy_def ActivePIIAction_def GetActiveContentPolicy_def by (intro sends_rules)

lemma sends_Evaluate [sends_rules]: "sends P (Evaluate p)"
proof -
  have "sends P (evaluatePolicy policy)" for policy
    unfolding evaluatePolicy_def evaluateDailyCost_def evaluateCostSpike_def evaluateErrorRateSpike_def
      costStats_def errorStats_def
    by (intro sends_rules)
  then have "sends P (evaluate_loop p best policies)" for best policies
    by (induction policies arbitrary: best) (auto intro!: sends_rules)
  then show ?thesis unfolding Evaluate_def ListActiveCostAnomalyPolicies_def by (intro sends_rules)
qed

lemma sends_admit: "(\<And>r. sends P (passed r)) \<Longrightarrow> sends P (admit svc input passed blocked request t)"
  unfolding admit_def by (intro sends_rules)

lemma sends_route_with: "(\<And>p. sends P (resolve p)) \<Longrightarrow> sends P (route_with resolve svc input ad t)"
  unfolding route_with_def by (intro sends_rules)

lemma sends_reserveProviderCost [sends_rules]: "sends P (reserveProviderCost svc input request ms b q c t)"
  unfolding reserveProviderCost_def by (intro sends_rules)

lemma sends_releasing: "sends P m \<Longrightarrow> sends P (releasing active q m)"
  unfolding releasing_def by (intro sends_rules)

lemma sends_store [sends_rules]: "sends P (store_in_caches svc input model cacheable candidate l cached)"
  unfolding store_in_caches_def by (intro sends_rules)

lemma sends_from_cache [sends_rules]:
  "sends P (respondFromPromptCache svc input ad resolved cached key t)"
  "sends P (respondFromSemanticCache svc input ad resolved match t)"
  unfolding respondFromPromptCache_def respondFromSemanticCache_def by (intro sends_rules)+

section \<open>What a path sends\<close>

text \<open>
  A condition on what is sent that holds of every webhook and of every call with the
  conversation \<open>msgs\<close>.
\<close>

locale outbound =
  fixes P :: "sent_message \<Rightarrow> bool" and msgs :: "ChatMessage list"
  assumes webhook: "P (Webhook url headers body)"
    and provider: "P (ProviderCall p m (map (\<lambda>c. (cm_Role c, cm_Content c)) msgs))"
begin

lemma sends_client_Do: "sends P (client_Do url headers body)"
  by (auto simp: sends_def client_Do_def webhook)

lemma sends_call: "cq_Messages req = msgs \<Longrightarrow> sends P (call_provider f req)"
  by (auto simp: sends_def call_provider_def call_of_def provider)

lemma sends_retry: "cq_Messages req = msgs \<Longrightarrow> sends P (retry_loop c a req mx n e)"
proof (induction c a req mx n e rule: retry_loop.induct)
  case (1 c a req mx n e)
  show ?case
    by (subst retry_loop.simps) (use 1 in \<open>auto intro!: sends_rules sends_call\<close>)
qed

lemma sends_provider_loop:
  "req_Messages request = msgs \<Longrightarrow> sends P (provider_loop svc input request fallback k index st targets)"
proof (induction targets arbitrary: index st)
  case Nil
  then show ?case by (simp add: sends_rules)
next
  case (Cons t ts)
  have "sends P (chatProviderWithRetry p c a (provider_request input request model s cfg))" for p c a model s cfg
    unfolding chatProviderWithRetry_def by (rule sends_retry) (simp add: provider_request_def Cons.prems)
  then show ?case
    by (auto simp: Let_def split: sum.split prod.split intro!: sends_rules Cons.IH [OF Cons.prems])
qed

lemma sends_CheckAndDeliver: "sends P (CheckAndDeliver a org)"
proof -
  have "sends P (deliver a alert status t)" for alert status t
    unfolding deliver_def send_webhook_def InsertBudgetAlertDelivery_def by (intro sends_rules sends_client_Do)
  then have "sends P (threshold_loop a alert status ds ts)" for alert status ds ts
    by (induction ts) (auto intro!: sends_rules)
  then have "sends P (check_alert a alert)" for alert
    unfolding check_alert_def GetBudget_def statusForBudget_def statusForBudgetWithCache_def usageForPeriod_def
      budget_periodWindow_def GetBudgetUsedAmount_def ListBudgetAlertDeliveriesByBudgetWindow_def
    by (intro sends_rules)
  then have "sends P (alerts_loop a alerts)" for alerts
    by (induction alerts) (auto intro!: sends_rules)
  then show ?thesis unfolding CheckAndDeliver_def ListActiveBudgetAlerts_def by (intro sends_rules)
qed

lemma sends_from_provider:
  "req_Messages (am_request ad) = msgs \<Longrightarrow> sends P (from_provider svc input ad resolved cacheable candidate t)"
  unfolding from_provider_def ask_targets_def record_answer_def after_success_def all_targets_failed_def
  by (intro sends_rules sends_releasing sends_provider_loop sends_CheckAndDeliver)

lemma sends_chat_rest:
  "req_Messages (am_request ad) = msgs \<Longrightarrow>
     sends P (andThen (route_with ResolveTargets svc input ad t) (\<lambda>resolved. from_prompt_cache svc input ad resolved t))"
  unfolding from_prompt_cache_def from_semantic_cache_def
  by (intro sends_rules sends_route_with sends_from_provider)

lemma sends_stream_rest:
  assumes "req_Messages (am_request ad) = msgs"
  shows "sends P (andThen (route_with Resolve svc input ad t) (\<lambda>resolved.
           andThen (reserveProviderCost svc input (am_request ad) [rz_Model resolved] (am_budget ad) (am_quota ad)
             (am_content ad) t) (\<lambda>active. releasing active (in_RequestID input) (open_stream svc input ad resolved active t))))"
proof -
  have "cq_Messages (provider_request input (am_request ad) model s cfg) = msgs" for model s cfg
    by (simp add: provider_request_def assms)
  then show ?thesis
    unfolding open_stream_def Let_def by (intro sends_rules sends_route_with sends_releasing sends_call)
qed

end

text \<open>The messages of a provider call are \<open>msgs\<close>; webhooks are free, nothing else is sent.\<close>

fun carries :: "ChatMessage list \<Rightarrow> sent_message \<Rightarrow> bool" where
  "carries msgs (ProviderCall p m xs) = (xs = map (\<lambda>c. (cm_Role c, cm_Content c)) msgs)"
| "carries msgs (Webhook url headers body) = True"
| "carries msgs (Email to body) = False"

interpretation carried: outbound "carries msgs" msgs for msgs
  by unfold_locales simp_all

section \<open>What the content policy lets through\<close>

definition pii_action :: "database \<Rightarrow> uuid \<Rightarrow> string" where
  "pii_action db org = (case first_row (SliceStable (newest_first cp_CreatedAt cp_ID)
       (filter (\<lambda>r. cp_OrgID r = org \<and> cp_Status r = ''active'') (content_policies db))) of
     Inl _ \<Rightarrow> ''allow''
   | Inr item \<Rightarrow> if validAction (cp_PiiAction item) then cp_PiiAction item else ''allow'')"

definition redacted :: "ChatMessage \<Rightarrow> ChatMessage \<Rightarrow> bool" where
  "redacted m m' \<longleftrightarrow> cm_Role m' = cm_Role m \<and> Redact (cm_Content m) (Detect (cm_Content m)) = Inr (cm_Content m')"

definition screened :: "string \<Rightarrow> ChatMessage list \<Rightarrow> ChatMessage list \<Rightarrow> bool" where
  "screened action given sent \<longleftrightarrow>
     (if action = ''redact'' then list_all2 redacted given sent
      else sent = given \<and> (action = ''block'' \<longrightarrow> list_all (\<lambda>m. Detect (cm_Content m) = []) given))"

lemma ActivePIIAction_Inr:
  "ActivePIIAction org E w = (Inr (action, None), w') \<Longrightarrow> action = pii_action (w_db w) org"
  by (auto simp: ActivePIIAction_def GetActiveContentPolicy_def pii_action_def act_simps
      split: if_splits sum.splits)

lemma redacted_same: "Detect (cm_Content m) = [] \<Longrightarrow> redacted m m"
  by (simp add: redacted_def Redact_def)

lemma redacted_update: "Redact (cm_Content m) (Detect (cm_Content m)) = Inr s \<Longrightarrow> redacted m (m\<lparr>cm_Content := s\<rparr>)"
  by (simp add: redacted_def)

lemma redact_messages_Inr:
  "redact_messages action ms = Inr (sent, found) \<Longrightarrow>
     found = concat (map (\<lambda>m. Detect (cm_Content m)) ms) \<and>
     (if action = ''redact'' then list_all2 redacted ms sent else sent = ms)"
proof (induction ms arbitrary: sent found)
  case Nil
  then show ?case by simp
next
  case (Cons m ms)
  then show ?case
    by (auto simp: redacted_same redacted_update Let_def split: if_splits sum.splits prod.splits)
qed

lemma applyContentPolicy_Inr:
  assumes "applyContentPolicy org request E w = (Inr (request', d), w')" and "\<not> cpd_Blocked d"
  shows "screened (pii_action (w_db w) org) (req_Messages request) (req_Messages request')"
proof -
  obtain action w1 sent found where act: "ActivePIIAction org E w = (Inr (action, None), w1)"
    and red: "redact_messages action (req_Messages request) = Inr (sent, found)"
    and r: "request' = (if found \<noteq> [] \<and> action = ''redact'' then request\<lparr>req_Messages := sent\<rparr> else request)"
    and d: "cpd_Blocked d = (found \<noteq> [] \<and> action = ''block'')"
    using assms(1) by (auto simp: applyContentPolicy_def act_inr split: option.splits)
  have clean: "found = [] \<Longrightarrow> \<forall>m \<in> set (req_Messages request). Detect (cm_Content m) = []"
    using redact_messages_Inr [OF red] by simp
  have "screened action (req_Messages request) (req_Messages request')"
  proof (cases "action = ''redact''")
    case True
    then have "list_all2 redacted (req_Messages request) sent" using redact_messages_Inr [OF red] by simp
    moreover have "found = [] \<Longrightarrow> list_all2 redacted (req_Messages request) (req_Messages request)"
      using clean by (simp add: list_all2_same redacted_same)
    ultimately show ?thesis using True r by (simp add: screened_def)
  next
    case False
    then show ?thesis using r d clean assms(2) by (auto simp: screened_def list_all_iff)
  qed
  then show ?thesis unfolding ActivePIIAction_Inr [OF act] .
qed

lemma admit_Inr:
  assumes "admit svc input passed blocked request t E w = (Inr ad, w')"
  shows "screened (pii_action (w_db w) (kp_OrgID (in_Principal input))) (req_Messages request) (req_Messages (am_request ad))"
proof -
  obtain request' d w1 where policy: "applyContentPolicy (kp_OrgID (in_Principal input)) request E w = (Inr (request', d), w1)"
    and pass: "\<not> cpd_Blocked d" and same: "req_Messages (am_request ad) = req_Messages request'"
    using assms by (auto simp: admit_def Let_def act_inr refuse_def split: if_splits)
  show ?thesis using applyContentPolicy_Inr [OF policy pass] same by simp
qed

section \<open>Properties\<close>

text \<open>A message that may leave the process while the request is served.\<close>

fun may_leave :: "chat_service \<Rightarrow> ChatInput \<Rightarrow> database \<Rightarrow> sent_message \<Rightarrow> bool" where
  "may_leave svc input db (ProviderCall p m xs) = (\<exists>request sent.
     decode_request (gw_parse_json svc (in_RawBody input)) = Inr request \<and>
     screened (pii_action db (kp_OrgID (in_Principal input))) (req_Messages request) sent \<and>
     xs = map (\<lambda>c. (cm_Role c, cm_Content c)) sent)"
| "may_leave svc input db (Webhook url headers body) = True"
| "may_leave svc input db (Email to body) = False"

lemma carries_may_leave:
  assumes "decode_request (gw_parse_json svc (in_RawBody input)) = Inr request"
    and "screened (pii_action db (kp_OrgID (in_Principal input))) (req_Messages request) msgs"
  shows "carries msgs x \<Longrightarrow> may_leave svc input db x"
  by (cases x) (use assms in auto)

lemma sends_from:
  assumes pre: "sends (\<lambda>_. False) m" and rest: "\<And>a w'. m E w = (Inr a, w') \<Longrightarrow> sends P (f a)"
  shows "\<exists>ms. w_sent (snd (andThen m f E w)) = w_sent w @ ms \<and> list_all P ms"
proof -
  obtain r w1 where m: "m E w = (r, w1)" by fastforce
  obtain ms where ms: "w_sent w1 = w_sent w @ ms" "list_all (\<lambda>_. False) ms"
    using sendsD [OF pre m] by blast
  then have w1: "w_sent w1 = w_sent w" by (cases ms) auto
  show ?thesis
  proof (cases r)
    case (Inl e)
    then show ?thesis using m w1 by (simp add: andThen_apply)
  next
    case (Inr a)
    have "sends P (f a)" using rest m Inr by simp
    then obtain ns where "w_sent (snd (f a E w1)) = w_sent w1 @ ns" "list_all P ns" unfolding sends_def by blast
    then show ?thesis using m w1 Inr by (auto simp: andThen_apply)
  qed
qed

lemma admitted_sends:
  assumes request: "decode_request (gw_parse_json svc (in_RawBody input)) = Inr request"
    and passed: "\<And>r. sends (\<lambda>_. False) (passed r)"
    and rest: "\<And>ad. sends (carries (req_Messages (am_request ad))) (f ad)"
  shows "\<exists>ms. w_sent (snd (andThen (admit svc input passed blocked request t) f E w)) = w_sent w @ ms \<and>
    list_all (may_leave svc input (w_db w)) ms"
proof (rule sends_from)
  show "sends (\<lambda>_. False) (admit svc input passed blocked request t)"
    by (rule sends_admit [OF passed])
  fix ad w'
  assume run: "admit svc input passed blocked request t E w = (Inr ad, w')"
  show "sends (may_leave svc input (w_db w)) (f ad)"
    by (rule sends_mono [OF rest carries_may_leave [OF request admit_Inr [OF run]]])
qed

lemma sends_run: "sends P m \<Longrightarrow> \<exists>ms. w_sent (snd (m E (tick w))) = w_sent w @ ms \<and> list_all P ms"
  unfolding sends_def by (metis w_sent_update(1))

lemma admitted_run:
  assumes "decode_request (gw_parse_json svc (in_RawBody input)) = Inr request"
    and "\<And>r. sends (\<lambda>_. False) (passed r)"
    and "\<And>ad. sends (carries (req_Messages (am_request ad))) (f ad)"
  shows "\<exists>ms. w_sent (snd (andThen (admit svc input passed blocked request t) f E (tick w))) = w_sent w @ ms \<and>
    list_all (may_leave svc input (w_db w)) ms"
  using admitted_sends [OF assms, where w = "tick w"] by simp

text \<open>
  C5: What a provider sees is what the content policy of the organization lets through. While a
  request is served, plain or streamed, the messages in every call to a provider, on every retry
  and every fallback target, are those of the request, unchanged under \<^verbatim>\<open>allow\<close>, with every
  message redacted by what was detected in it under \<^verbatim>\<open>redact\<close>, and only if nothing at all was
  detected under \<^verbatim>\<open>block\<close>; apart from provider calls only webhooks leave the process.
\<close>

theorem providers_see_screened_messages:
  "(\<exists>ms. w_sent (snd (Chat svc input E w)) = w_sent w @ ms \<and> list_all (may_leave svc input (w_db w)) ms) \<and>
   (\<exists>ms. w_sent (snd (StreamChat svc input E w)) = w_sent w @ ms \<and> list_all (may_leave svc input (w_db w)) ms)"
proof (cases "decode_request (gw_parse_json svc (in_RawBody input))")
  case (Inl e)
  then show ?thesis by (simp add: Chat_def StreamChat_def act_simps)
next
  case (Inr request)
  have chat: "\<exists>ms. w_sent (snd (Chat svc input E w)) = w_sent w @ ms \<and> list_all (may_leave svc input (w_db w)) ms"
    unfolding Chat_def andThen_apply [of clock_now] clock_now_apply Inr prod.case sum.case
    by (auto split: if_split intro: sends_run [OF sends_refuse]
        admitted_run [OF Inr sends_basic(1) carried.sends_chat_rest [OF refl]])
  have stream: "\<exists>ms. w_sent (snd (StreamChat svc input E w)) = w_sent w @ ms \<and> list_all (may_leave svc input (w_db w)) ms"
    unfolding StreamChat_def andThen_apply [of clock_now] clock_now_apply Inr prod.case sum.case
    by (auto split: if_split intro: sends_run [OF sends_refuse]
        admitted_run [OF Inr sends_events(3) carried.sends_stream_rest [OF refl]])
  show ?thesis using chat stream ..
qed

end
