(* ===== verification/Sessions.thy ===== *)
theory Sessions
  imports GatewayBase
begin

text \<open>
  Members, sessions and magic links of the console: \<^verbatim>\<open>internal/auth/session_service.go\<close> and
  \<^verbatim>\<open>magic_link_service.go\<close> with their statements (\<^verbatim>\<open>rbac.sql.go\<close>, \<^verbatim>\<open>magic_link_tokens.sql.go\<close>). The mail
  server accepts a message or fails; \<^verbatim>\<open>net/url\<close> is a parameter.
\<close>

section \<open>Statements\<close>

record GetActiveMembershipByOrgSlugAndEmailRow =
  mb_OrgID :: uuid
  mb_OrgSlug :: string
  mb_UserID :: uuid
  mb_Email :: string
  mb_DisplayName :: string
  mb_MembershipID :: uuid
  mb_Role :: string

definition members_joined :: "database \<Rightarrow> (Organization \<times> OrgMembership \<times> User) list" where
  "members_joined db = concat (map (\<lambda>o'. concat (map (\<lambda>m. map (\<lambda>u. (o', m, u))
     (filter (\<lambda>u. us_ID u = om_UserID m) (users db)))
     (filter (\<lambda>m. om_OrgID m = og_ID o') (org_memberships db)))) (organizations db))"

definition active_member :: "Organization \<times> OrgMembership \<times> User \<Rightarrow> bool" where
  "active_member = (\<lambda>(o', m, u). og_Status o' = ''active'' \<and> us_Status u = ''active'' \<and> om_Status m = ''active'')"

definition GetActiveMembershipByOrgSlugAndEmail :: "string \<Rightarrow> string \<Rightarrow> GetActiveMembershipByOrgSlugAndEmailRow act" where
  "GetActiveMembershipByOrgSlugAndEmail slug email = db_read (\<lambda>db.
     first_row (map (\<lambda>(o', m, u). \<lparr>mb_OrgID = og_ID o', mb_OrgSlug = og_Slug o', mb_UserID = us_ID u, mb_Email = us_Email u,
         mb_DisplayName = us_DisplayName u, mb_MembershipID = om_ID m, mb_Role = om_Role m\<rparr>)
       (filter (\<lambda>(o', m, u). og_Slug o' = slug \<and> ToLower (us_Email u) = ToLower email \<and> active_member (o', m, u))
         (members_joined db))))"

definition is_member :: "database \<Rightarrow> uuid \<Rightarrow> uuid \<Rightarrow> bool" where
  "is_member db org user = list_ex (\<lambda>m. om_OrgID m = org \<and> om_UserID m = user) (org_memberships db)"

definition CreateUserSession :: "UserSession \<Rightarrow> UserSession act" where
  "CreateUserSession r = sql_insert (\<lambda>db.
     [(\<not> list_ex (\<lambda>x. ss_ID x = ss_ID r \<or> ss_TokenHash x = ss_TokenHash r) (user_sessions db), UniqueViolation),
      (ss_TokenPrefix r \<noteq> [] \<and> ss_TokenHash r \<noteq> [] \<and> ss_Status r \<in> {''active'', ''revoked''}, CheckViolation),
      (org_exists db (ss_OrgID r) \<and> list_ex (\<lambda>u. us_ID u = ss_UserID r) (users db) \<and>
         is_member db (ss_OrgID r) (ss_UserID r), ForeignKeyViolation)])
     (\<lambda>r db. db\<lparr>user_sessions := user_sessions db @ [r]\<rparr>) r"

record GetUserSessionByHashRow =
  sh_Session :: UserSession
  sh_MembershipID :: uuid
  sh_MembershipRole :: string
  sh_MembershipStatus :: string
  sh_UserEmail :: string
  sh_UserDisplayName :: string
  sh_UserStatus :: string

definition session_rows :: "database \<Rightarrow> GetUserSessionByHashRow list" where
  "session_rows db = concat (map (\<lambda>s. concat (map (\<lambda>m. map (\<lambda>u.
       \<lparr>sh_Session = s, sh_MembershipID = om_ID m, sh_MembershipRole = om_Role m, sh_MembershipStatus = om_Status m,
        sh_UserEmail = us_Email u, sh_UserDisplayName = us_DisplayName u, sh_UserStatus = us_Status u\<rparr>)
     (filter (\<lambda>u. us_ID u = ss_UserID s) (users db)))
     (filter (\<lambda>m. om_OrgID m = ss_OrgID s \<and> om_UserID m = ss_UserID s) (org_memberships db)))) (user_sessions db))"

definition GetUserSessionByHash :: "string \<Rightarrow> GetUserSessionByHashRow act" where
  "GetUserSessionByHash hash = db_read (\<lambda>db. first_row (filter (\<lambda>r. ss_TokenHash (sh_Session r) = hash) (session_rows db)))"

definition RevokeUserSession :: "uuid \<Rightarrow> uuid \<Rightarrow> time \<Rightarrow> UserSession act" where
  "RevokeUserSession org i t = update_returning user_sessions (\<lambda>rs db. db\<lparr>user_sessions := rs\<rparr>)
     (\<lambda>r. ss_OrgID r = org \<and> ss_ID r = i) (\<lambda>r. r\<lparr>ss_Status := ''revoked'', ss_RevokedAt := Some t\<rparr>)"

definition TouchUserSessionLastUsed :: "uuid \<Rightarrow> uuid \<Rightarrow> time \<Rightarrow> unit act" where
  "TouchUserSessionLastUsed org i t = db_exec (\<lambda>db. Inr ((), db\<lparr>user_sessions :=
     update_rows (\<lambda>r. ss_OrgID r = org \<and> ss_ID r = i) (\<lambda>r. r\<lparr>ss_LastUsedAt := Some t\<rparr>) (user_sessions db)\<rparr>))"

text \<open>
  \<^verbatim>\<open>INSERT ... ON CONFLICT (key) DO UPDATE\<close>: the check constraints apply to the proposed row first; a
  row with the key is updated in place, otherwise the row is inserted under the other constraints.
\<close>

definition upsert ::
  "(database \<Rightarrow> 'r list) \<Rightarrow> ('r list \<Rightarrow> database \<Rightarrow> database) \<Rightarrow> ('r \<Rightarrow> bool) \<Rightarrow> ('r \<Rightarrow> 'r) \<Rightarrow> bool \<Rightarrow> (database \<Rightarrow> (bool \<times> err) list) \<Rightarrow> 'r \<Rightarrow> 'r act" where
  "upsert get put P f checks cons r = db_exec (\<lambda>db.
     if \<not> checks then Inl CheckViolation
     else case filter P (get db) of
       x # _ \<Rightarrow> Inr (f x, put (update_rows P f (get db)) db)
     | [] \<Rightarrow> (case violated (cons db) of Some e \<Rightarrow> Inl e | None \<Rightarrow> Inr (r, put (get db @ [r]) db)))"

definition UpsertUserByEmail :: "User \<Rightarrow> User act" where
  "UpsertUserByEmail r = upsert users (\<lambda>rs db. db\<lparr>users := rs\<rparr>) (\<lambda>x. us_Email x = us_Email r)
     (\<lambda>x. x\<lparr>us_DisplayName := us_DisplayName r, us_UpdatedAt := us_UpdatedAt r\<rparr>)
     (us_Email r \<noteq> [] \<and> us_DisplayName r \<noteq> [] \<and> us_Status r \<in> {''active'', ''disabled''})
     (\<lambda>db. [(\<not> list_ex (\<lambda>x. us_ID x = us_ID r) (users db), UniqueViolation)]) r"

definition UpsertOrgMembership :: "OrgMembership \<Rightarrow> OrgMembership act" where
  "UpsertOrgMembership r = upsert org_memberships (\<lambda>rs db. db\<lparr>org_memberships := rs\<rparr>)
     (\<lambda>x. om_OrgID x = om_OrgID r \<and> om_UserID x = om_UserID r)
     (\<lambda>x. x\<lparr>om_Role := om_Role r, om_Status := om_Status r, om_UpdatedAt := om_UpdatedAt r\<rparr>)
     (om_Role r \<in> {''owner'', ''admin'', ''viewer''} \<and> om_Status r \<in> {''active'', ''disabled''})
     (\<lambda>db. [(\<not> list_ex (\<lambda>x. om_ID x = om_ID r) (org_memberships db), UniqueViolation),
       (org_exists db (om_OrgID r) \<and> list_ex (\<lambda>u. us_ID u = om_UserID r) (users db), ForeignKeyViolation)]) r"

record ListOrgMembersRow =
  lm_Membership :: OrgMembership
  lm_Email :: string
  lm_DisplayName :: string

definition ListOrgMembers :: "uuid \<Rightarrow> ListOrgMembersRow list act" where
  "ListOrgMembers org = db_read (\<lambda>db. Inr (concat (map (\<lambda>m. map (\<lambda>u.
       \<lparr>lm_Membership = m, lm_Email = us_Email u, lm_DisplayName = us_DisplayName u\<rparr>) (filter (\<lambda>u. us_ID u = om_UserID m) (users db)))
     (SliceStable (newest_first om_CreatedAt om_ID) (filter (\<lambda>m. om_OrgID m = org) (org_memberships db))))))"

definition CreateMagicLinkToken :: "MagicLinkToken \<Rightarrow> MagicLinkToken act" where
  "CreateMagicLinkToken r = sql_insert (\<lambda>db.
     [(\<not> list_ex (\<lambda>x. ml_ID x = ml_ID r \<or> ml_TokenHash x = ml_TokenHash r) (magic_link_tokens db), UniqueViolation),
      (ml_Email r \<noteq> [] \<and> ml_TokenPrefix r \<noteq> [] \<and> ml_TokenHash r \<noteq> [] \<and> ml_Status r \<in> {''active'', ''consumed''} \<and>
         (ml_Status r = ''consumed'') = (ml_ConsumedAt r \<noteq> None), CheckViolation),
      (org_exists db (ml_OrgID r) \<and> list_ex (\<lambda>u. us_ID u = ml_UserID r) (users db) \<and>
         is_member db (ml_OrgID r) (ml_UserID r), ForeignKeyViolation)])
     (\<lambda>r db. db\<lparr>magic_link_tokens := magic_link_tokens db @ [r]\<rparr>) r"

record ConsumeMagicLinkTokenRow =
  cl_Link :: MagicLinkToken
  cl_OrgSlug :: string
  cl_Email :: string
  cl_DisplayName :: string
  cl_MembershipID :: uuid
  cl_Role :: string

definition link_usable :: "string \<Rightarrow> time \<Rightarrow> MagicLinkToken \<Rightarrow> bool" where
  "link_usable hash now l \<longleftrightarrow> ml_TokenHash l = hash \<and> ml_Status l = ''active'' \<and> ml_ConsumedAt l = None \<and> now < ml_ExpiresAt l"

definition consume_link :: "time \<Rightarrow> MagicLinkToken \<Rightarrow> MagicLinkToken" where
  "consume_link t l = l\<lparr>ml_Status := ''consumed'', ml_ConsumedAt := Some t\<rparr>"

definition link_members :: "database \<Rightarrow> MagicLinkToken \<Rightarrow> (Organization \<times> OrgMembership \<times> User) list" where
  "link_members db l = filter (\<lambda>(o', m, u). om_OrgID m = ml_OrgID l \<and> om_UserID m = ml_UserID l \<and> active_member (o', m, u))
     (members_joined db)"

definition ConsumeMagicLinkToken :: "string \<Rightarrow> time \<Rightarrow> time \<Rightarrow> ConsumeMagicLinkTokenRow act" where
  "ConsumeMagicLinkToken hash consumedAt now = db_exec (\<lambda>db.
     let P = (\<lambda>l. link_usable hash now l \<and> link_members db l \<noteq> []) in
     case filter P (magic_link_tokens db) of
       [] \<Rightarrow> Inl NoRows
     | l # _ \<Rightarrow> (case hd (link_members db l) of (o', m, u) \<Rightarrow>
         Inr (\<lparr>cl_Link = consume_link consumedAt l, cl_OrgSlug = og_Slug o', cl_Email = us_Email u, cl_DisplayName = us_DisplayName u,
               cl_MembershipID = om_ID m, cl_Role = om_Role m\<rparr>,
              db\<lparr>magic_link_tokens := update_rows P (consume_link consumedAt) (magic_link_tokens db)\<rparr>)))"

section \<open>Members and sessions\<close>

record SessionService =
  sv_store :: bool
  sv_mac :: mac_fun
  sv_hashKeyRing :: "TokenHashKeyRing option"
  sv_ttl :: time

record UpsertMemberParams =
  um_OrgID :: uuid
  um_Email :: string
  um_DisplayName :: string
  um_Role :: string

record UpsertMemberResult =
  ur_User :: User
  ur_Membership :: OrgMembership

record PasswordlessMockLoginResult =
  lr_Token :: string
  lr_Session :: UserSession
  lr_OrgID :: uuid
  lr_OrgSlug :: string
  lr_UserID :: uuid
  lr_Email :: string
  lr_DisplayName :: string
  lr_MembershipID :: uuid
  lr_Role :: string

definition SessionPlainPrefix :: string where "SessionPlainPrefix = ''llmgw_session_''"

definition defaultSessionTTL :: time where "defaultSessionTTL = 24 * time_hour"

definition normalizeEmail :: "string \<Rightarrow> string" where
  "normalizeEmail email = ToLower (TrimSpace email)"

definition upsertMemberWithQueries :: "uuid \<Rightarrow> string \<Rightarrow> string \<Rightarrow> string \<Rightarrow> time \<Rightarrow> UpsertMemberResult act" where
  "upsertMemberWithQueries orgID email displayName role now =
     andThen new_uuid (\<lambda>i.
     andThen (UpsertUserByEmail \<lparr>us_ID = i, us_Email = email, us_DisplayName = displayName, us_Status = ''active'',
       us_CreatedAt = now, us_UpdatedAt = now\<rparr>) (\<lambda>user.
     andThen new_uuid (\<lambda>j.
     andThen (UpsertOrgMembership \<lparr>om_ID = j, om_OrgID = orgID, om_UserID = us_ID user, om_Role = role, om_Status = ''active'',
       om_CreatedAt = now, om_UpdatedAt = now\<rparr>) (\<lambda>membership.
     ret \<lparr>ur_User = user, ur_Membership = membership\<rparr>))))"

definition UpsertMember :: "SessionService \<Rightarrow> UpsertMemberParams \<Rightarrow> UpsertMemberResult act" where
  "UpsertMember svc p =
     (let email = normalizeEmail (um_Email p);
          displayName = (if TrimSpace (um_DisplayName p) = [] then email else TrimSpace (um_DisplayName p));
          role = TrimSpace (um_Role p) in
      if um_OrgID p = uuid_Nil then fail ErrOrganizationNotFound
      else if email = [] then fail (ErrMsg ''email is required'')
      else if \<not> ValidRole role then fail (ErrMsg ''invalid role'')
      else andThen (no_rows_as ErrOrganizationNotFound (GetOrganization (um_OrgID p))) (\<lambda>_.
        andThen clock_now (\<lambda>now.
        if sv_store svc then ExecTx (upsertMemberWithQueries (um_OrgID p) email displayName role now)
        else upsertMemberWithQueries (um_OrgID p) email displayName role now)))"

definition ListMembers :: "uuid \<Rightarrow> ListOrgMembersRow list act" where
  "ListMembers orgID = (if orgID = uuid_Nil then fail ErrOrganizationNotFound else ListOrgMembers orgID)"

definition new_session :: "uuid \<Rightarrow> uuid \<Rightarrow> uuid \<Rightarrow> string \<Rightarrow> string \<Rightarrow> time \<Rightarrow> time \<Rightarrow> UserSession" where
  "new_session i org user token hash ttl now = \<lparr>ss_ID = i, ss_OrgID = org, ss_UserID = user,
     ss_TokenPrefix = visibleCredentialPrefix token SessionPlainPrefix, ss_TokenHash = hash, ss_Status = ''active'',
     ss_ExpiresAt = now + ttl, ss_LastUsedAt = None, ss_CreatedAt = now, ss_RevokedAt = None\<rparr>"

definition PasswordlessMockLogin :: "SessionService \<Rightarrow> string \<Rightarrow> string \<Rightarrow> PasswordlessMockLoginResult act" where
  "PasswordlessMockLogin svc slug email0 =
     (let orgSlug = TrimSpace slug; email = normalizeEmail email0 in
      if orgSlug = [] \<or> email = [] then fail ErrMembershipNotFound
      else andThen (no_rows_as ErrMembershipNotFound (GetActiveMembershipByOrgSlugAndEmail orgSlug email)) (\<lambda>m.
        andThen (generateToken SessionPlainPrefix) (\<lambda>token.
        andThen clock_now (\<lambda>now.
        andThen new_uuid (\<lambda>i.
        andThen (lift (token_Hash (sv_mac svc) (sv_hashKeyRing svc) token)) (\<lambda>hash.
        andThen (CreateUserSession (new_session i (mb_OrgID m) (mb_UserID m) token hash (sv_ttl svc) now)) (\<lambda>session.
        ret \<lparr>lr_Token = token, lr_Session = session, lr_OrgID = mb_OrgID m, lr_OrgSlug = mb_OrgSlug m, lr_UserID = mb_UserID m,
          lr_Email = mb_Email m, lr_DisplayName = mb_DisplayName m, lr_MembershipID = mb_MembershipID m, lr_Role = mb_Role m\<rparr>)))))))"

definition user_principal :: "GetUserSessionByHashRow \<Rightarrow> AdminTokenPrincipal" where
  "user_principal r = (let s = sh_Session r in
     \<lparr>atp_OrgID = ss_OrgID s, atp_AdminTokenID = uuid_Nil, atp_ActorType = ''user'', atp_Role = sh_MembershipRole r,
      atp_UserID = Some (ss_UserID s), atp_MembershipID = Some (sh_MembershipID r), atp_SessionID = Some (ss_ID s),
      atp_UserEmail = sh_UserEmail r, atp_DisplayName = sh_UserDisplayName r, atp_Scopes = []\<rparr>)"

definition Session_Authenticate :: "SessionService \<Rightarrow> string \<Rightarrow> AdminTokenPrincipal act" where
  "Session_Authenticate svc token =
     (let token = TrimSpace token in
      if token = [] then fail ErrInvalidSession else
      andThen (lift (CandidateHashes (sv_mac svc) (sv_hashKeyRing svc) token)) (\<lambda>hashes.
      andThen (candidate_loop GetUserSessionByHash hashes) (\<lambda>found. case found of
        None \<Rightarrow> fail ErrInvalidSession
      | Some r \<Rightarrow>
          if ss_Status (sh_Session r) \<noteq> ''active'' \<or> sh_MembershipStatus r \<noteq> ''active'' \<or> sh_UserStatus r \<noteq> ''active''
          then fail ErrInvalidSession else
          andThen clock_now (\<lambda>now.
          if ss_ExpiresAt (sh_Session r) \<le> now then fail ErrInvalidSession else
          andThen (TouchUserSessionLastUsed (ss_OrgID (sh_Session r)) (ss_ID (sh_Session r)) now) (\<lambda>_.
          ret (user_principal r))))))"

definition Session_Revoke :: "uuid \<Rightarrow> uuid \<Rightarrow> UserSession act" where
  "Session_Revoke orgID sessionID = andThen clock_now (RevokeUserSession orgID sessionID)"

section \<open>Magic links\<close>

record MagicLinkService =
  mg_configured :: bool
  mg_mac :: mac_fun
  mg_hashKeyRing :: "TokenHashKeyRing option"
  mg_BaseURL :: string
  mg_ttl :: time
  mg_with_query :: "string \<Rightarrow> string \<Rightarrow> string option"

definition MagicLinkPlainPrefix :: string where "MagicLinkPlainPrefix = ''llmgw_magic_''"

definition magicLinkURL :: "MagicLinkService \<Rightarrow> string \<Rightarrow> string" where
  "magicLinkURL svc token = (case mg_with_query svc (mg_BaseURL svc) token of None \<Rightarrow> mg_BaseURL svc | Some u \<Rightarrow> u)"

text \<open>\<^verbatim>\<open>Format(time.RFC3339)\<close>, and the text of the mail in UTF-8.\<close>

definition rfc3339_seconds :: "time \<Rightarrow> string" where
  "rfc3339_seconds t = rfc3339 (t div time_second * time_second)"

definition utf8 :: "nat list \<Rightarrow> string" where
  "utf8 bytes = map char_of bytes"

definition mail_body :: "time \<Rightarrow> string \<Rightarrow> string" where
  "mail_body t url = utf8 [0xE8, 0xAF, 0xB7, 0xE5, 0x9C, 0xA8, 0x20] @ rfc3339_seconds t @
     utf8 [0x20, 0xE5, 0x89, 0x8D, 0xE6, 0x89, 0x93, 0xE5, 0xBC, 0x80, 0xE4, 0xBB, 0xA5, 0xE4, 0xB8, 0x8B, 0xE9, 0x93, 0xBE,
       0xE6, 0x8E, 0xA5, 0xE7, 0x99, 0xBB, 0xE5, 0xBD, 0x95, 0xEF, 0xBC, 0x9A, 0x0A, 0x0A] @ url"

definition send_mail :: "string \<Rightarrow> string \<Rightarrow> unit act" where
  "send_mail to body = (\<lambda>E w. (if env_sink_fault E (w_step w) then Inl (ErrMsg ''send mail'') else Inr (),
     (tick w)\<lparr>w_sent := w_sent w @ [Email to body]\<rparr>))"

definition recent_links :: "database \<Rightarrow> uuid \<Rightarrow> uuid \<Rightarrow> string \<Rightarrow> time \<Rightarrow> MagicLinkToken list" where
  "recent_links db org user email since = filter (\<lambda>l. ml_OrgID l = org \<and> ml_UserID l = user \<and>
     ToLower (ml_Email l) = ToLower email \<and> since \<le> ml_CreatedAt l) (magic_link_tokens db)"

definition recentRequestLimitExceeded :: "uuid \<Rightarrow> uuid \<Rightarrow> string \<Rightarrow> time \<Rightarrow> bool act" where
  "recentRequestLimitExceeded org user email since = andThen (db_read (\<lambda>db. Inr (int (length (recent_links db org user email since))))) (\<lambda>count.
     ret (3 \<le> count))"

definition MagicLink_Request :: "MagicLinkService \<Rightarrow> string \<Rightarrow> string \<Rightarrow> unit act" where
  "MagicLink_Request svc slug email0 =
     (let orgSlug = TrimSpace slug; email = normalizeEmail email0 in
      if \<not> mg_configured svc then fail (ErrMsg ''magic link service is not configured'')
      else if orgSlug = [] \<or> email = [] then ret ()
      else andThen (attempt (GetActiveMembershipByOrgSlugAndEmail orgSlug email)) (\<lambda>r. case r of
        Inl e \<Rightarrow> if e = NoRows then ret () else fail e
      | Inr m \<Rightarrow>
        andThen clock_now (\<lambda>now.
        andThen (recentRequestLimitExceeded (mb_OrgID m) (mb_UserID m) (mb_Email m) (now - time_hour)) (\<lambda>limited.
        if limited then ret ()
        else
        andThen (generateToken MagicLinkPlainPrefix) (\<lambda>token.
        andThen new_uuid (\<lambda>i.
        andThen (lift (token_Hash (mg_mac svc) (mg_hashKeyRing svc) token)) (\<lambda>hash.
        andThen (CreateMagicLinkToken \<lparr>ml_ID = i, ml_OrgID = mb_OrgID m, ml_UserID = mb_UserID m, ml_Email = mb_Email m,
          ml_TokenPrefix = visibleCredentialPrefix token MagicLinkPlainPrefix, ml_TokenHash = hash, ml_Status = ''active'',
          ml_ExpiresAt = now + mg_ttl svc, ml_ConsumedAt = None, ml_CreatedAt = now\<rparr>) (\<lambda>_.
        send_mail (mb_Email m) (mail_body (now + mg_ttl svc) (magicLinkURL svc token))))))))))"

definition consume_tx :: "MagicLinkService \<Rightarrow> string list \<Rightarrow> string \<Rightarrow> time \<Rightarrow> PasswordlessMockLoginResult act" where
  "consume_tx svc hashes sessionToken now =
     andThen (candidate_loop (\<lambda>hash. ConsumeMagicLinkToken hash now now) hashes) (\<lambda>found. case found of
       None \<Rightarrow> fail ErrInvalidMagicLink
     | Some r \<Rightarrow> let l = cl_Link r in
         andThen new_uuid (\<lambda>i.
         andThen (lift (token_Hash (mg_mac svc) (mg_hashKeyRing svc) sessionToken)) (\<lambda>hash.
         andThen (CreateUserSession (new_session i (ml_OrgID l) (ml_UserID l) sessionToken hash defaultSessionTTL now)) (\<lambda>session.
         ret \<lparr>lr_Token = sessionToken, lr_Session = session, lr_OrgID = ml_OrgID l, lr_OrgSlug = cl_OrgSlug r, lr_UserID = ml_UserID l,
           lr_Email = cl_Email r, lr_DisplayName = cl_DisplayName r, lr_MembershipID = cl_MembershipID r, lr_Role = cl_Role r\<rparr>))))"

definition MagicLink_Consume :: "MagicLinkService \<Rightarrow> string \<Rightarrow> PasswordlessMockLoginResult act" where
  "MagicLink_Consume svc token0 =
     (let token = TrimSpace token0 in
      if token = [] then fail ErrInvalidMagicLink
      else andThen (generateToken SessionPlainPrefix) (\<lambda>sessionToken.
        andThen clock_now (\<lambda>now.
        ExecTx (andThen (lift (CandidateHashes (mg_mac svc) (mg_hashKeyRing svc) token)) (\<lambda>hashes.
          consume_tx svc hashes sessionToken now)))))"

section \<open>Sessions\<close>

interpretation session_table: credential_table GetUserSessionByHash session_rows "\<lambda>r. ss_TokenHash (sh_Session r)"
  by unfold_locales (simp add: GetUserSessionByHash_def)

lemma session_rows_in:
  "r \<in> set (session_rows db) \<longleftrightarrow> sh_Session r \<in> set (user_sessions db) \<and>
     (\<exists>m u. m \<in> set (org_memberships db) \<and> u \<in> set (users db) \<and> om_OrgID m = ss_OrgID (sh_Session r) \<and>
        om_UserID m = ss_UserID (sh_Session r) \<and> us_ID u = ss_UserID (sh_Session r) \<and>
        r = \<lparr>sh_Session = sh_Session r, sh_MembershipID = om_ID m, sh_MembershipRole = om_Role m, sh_MembershipStatus = om_Status m,
          sh_UserEmail = us_Email u, sh_UserDisplayName = us_DisplayName u, sh_UserStatus = us_Status u\<rparr>)"
  by (cases r) (auto simp: session_rows_def)

text \<open>What a session that authenticates is backed by.\<close>

definition backed :: "database \<Rightarrow> string list \<Rightarrow> time \<Rightarrow> AdminTokenPrincipal \<Rightarrow> bool" where
  "backed db hashes now p \<longleftrightarrow> (\<exists>s m u. s \<in> set (user_sessions db) \<and> m \<in> set (org_memberships db) \<and> u \<in> set (users db) \<and>
     ss_TokenHash s \<in> set hashes \<and> ss_Status s = ''active'' \<and> now < ss_ExpiresAt s \<and>
     om_OrgID m = ss_OrgID s \<and> om_UserID m = ss_UserID s \<and> om_Status m = ''active'' \<and>
     us_ID u = ss_UserID s \<and> us_Status u = ''active'' \<and>
     atp_OrgID p = ss_OrgID s \<and> atp_SessionID p = Some (ss_ID s) \<and> atp_UserID p = Some (us_ID u) \<and>
     atp_Role p = om_Role m \<and> atp_Scopes p = [])"

lemma Session_Authenticate_Inr:
  assumes "Session_Authenticate svc token E w = (Inr p, w')"
  obtains hashes and w1 :: world where "CandidateHashes (sv_mac svc) (sv_hashKeyRing svc) (TrimSpace token) = Inr hashes"
    "w_step w \<le> w_step w1" "w_step w1 < w_step w'" "backed (w_db w) hashes (env_time E (w_step w1)) p"
proof -
  obtain hashes w1 r where h: "CandidateHashes (sv_mac svc) (sv_hashKeyRing svc) (TrimSpace token) = Inr hashes"
    and found: "candidate_loop GetUserSessionByHash hashes E w = (Inr (Some r), w1)"
    and ok: "ss_Status (sh_Session r) = ''active''" "sh_MembershipStatus r = ''active''" "sh_UserStatus r = ''active''"
      "env_time E (w_step w1) < ss_ExpiresAt (sh_Session r)" "p = user_principal r"
    and later: "w_step w1 < w_step w'"
    using assms by (auto simp: Session_Authenticate_def TouchUserSessionLastUsed_def Let_def act_inr not_le split: if_splits option.splits)
  have r: "r \<in> set (session_rows (w_db w))" and hash: "ss_TokenHash (sh_Session r) \<in> set hashes"
    using session_table.lookup_sound [OF found] by auto
  obtain m u where mu: "m \<in> set (org_memberships (w_db w))" "u \<in> set (users (w_db w))"
      "om_OrgID m = ss_OrgID (sh_Session r)" "om_UserID m = ss_UserID (sh_Session r)" "us_ID u = ss_UserID (sh_Session r)"
    and row: "r = \<lparr>sh_Session = sh_Session r, sh_MembershipID = om_ID m, sh_MembershipRole = om_Role m, sh_MembershipStatus = om_Status m,
          sh_UserEmail = us_Email u, sh_UserDisplayName = us_DisplayName u, sh_UserStatus = us_Status u\<rparr>"
    using r unfolding session_rows_in by blast
  have cols: "sh_MembershipRole r = om_Role m" "sh_MembershipStatus r = om_Status m" "sh_UserStatus r = us_Status u"
    by (subst row, simp)+
  have "sh_Session r \<in> set (user_sessions (w_db w))" using r unfolding session_rows_in by blast
  then have "backed (w_db w) hashes (env_time E (w_step w1)) p"
    unfolding backed_def using mu ok hash cols
    by (intro exI [of _ "sh_Session r"] exI [of _ m] exI [of _ u]) (simp add: user_principal_def Let_def)
  then show thesis by (rule that [OF h session_table.lookup_steps [OF found] later])
qed

lemma Session_Revoke_db:
  assumes "Session_Revoke org i E w = (Inr s, w')"
  shows "w_db w' = (w_db w)\<lparr>user_sessions := update_rows (\<lambda>r. ss_OrgID r = org \<and> ss_ID r = i)
      (\<lambda>r. r\<lparr>ss_Status := ''revoked'', ss_RevokedAt := Some (env_time E (w_step w))\<rparr>) (user_sessions (w_db w))\<rparr>"
proof -
  have "RevokeUserSession org i (env_time E (w_step w)) E (tick w) = (Inr s, w')"
    using assms by (simp add: Session_Revoke_def andThen_apply clock_now_def)
  then show ?thesis unfolding RevokeUserSession_def update_returning_Inr by simp
qed

lemma Session_Revoke_hit:
  assumes "Session_Revoke org i E w = (Inr s, w')"
  shows "\<exists>x \<in> set (user_sessions (w_db w)). ss_OrgID x = org \<and> ss_ID x = i"
proof -
  have "RevokeUserSession org i (env_time E (w_step w)) E (tick w) = (Inr s, w')"
    using assms by (simp add: Session_Revoke_def andThen_apply clock_now_def)
  then obtain r where "first_row (filter (\<lambda>x. ss_OrgID x = org \<and> ss_ID x = i) (user_sessions (w_db w))) = Inr r"
    unfolding RevokeUserSession_def update_returning_Inr by auto
  then show ?thesis using first_row_Inr by fastforce
qed

section \<open>Links and their single use\<close>

definition links_ok :: "database \<Rightarrow> bool" where
  "links_ok db \<longleftrightarrow> distinct (map ml_TokenHash (magic_link_tokens db))"

definition consumed :: "MagicLinkToken list \<Rightarrow> nat" where
  "consumed ls = length (filter (\<lambda>l. ml_Status l = ''consumed'') ls)"

lemma consume_link_simps [simp]: "ml_TokenHash (consume_link t l) = ml_TokenHash l" "ml_Status (consume_link t l) = ''consumed''"
  "ml_OrgID (consume_link t l) = ml_OrgID l" "ml_UserID (consume_link t l) = ml_UserID l"
  by (simp_all add: consume_link_def)

lemma consumed_update:
  assumes "distinct (map ml_TokenHash ls)" and "l \<in> set ls" and "P l" and "ml_Status l \<noteq> ''consumed''"
    and "\<And>x. P x \<Longrightarrow> ml_TokenHash x = ml_TokenHash l"
  shows "consumed (update_rows P (consume_link t) ls) = Suc (consumed ls)"
  using assms(1, 2)
proof (induction ls)
  case Nil
  then show ?case by simp
next
  case (Cons x ls)
  show ?case
  proof (cases "x = l")
    case True
    then have "\<forall>y \<in> set ls. \<not> P y" using Cons.prems(1) assms(5) by (auto simp: image_iff)
    then have "update_rows P (consume_link t) ls = ls" by (induction ls) auto
    then show ?thesis using True assms(3, 4) by (simp add: consumed_def)
  next
    case False
    then have l: "l \<in> set ls" using Cons.prems(2) by simp
    then have "\<not> P x" using Cons.prems(1) assms(5) [of x] by (auto simp: image_iff)
    then show ?thesis using Cons.IH [OF _ l] Cons.prems(1) by (simp add: consumed_def)
  qed
qed

abbreviation usable_links :: "database \<Rightarrow> string \<Rightarrow> time \<Rightarrow> MagicLinkToken \<Rightarrow> bool" where
  "usable_links db h now \<equiv> (\<lambda>l. link_usable h now l \<and> link_members db l \<noteq> [])"

lemma ConsumeMagicLinkToken_eval:
  "filter (usable_links (w_db w) h now) (magic_link_tokens (w_db w)) = [] \<Longrightarrow>
     ConsumeMagicLinkToken h t now E w = (Inl (if env_fault E (w_step w) then DbUnavailable else NoRows), tick w)"
  "filter (usable_links (w_db w) h now) (magic_link_tokens (w_db w)) = l # ls \<Longrightarrow>
     ConsumeMagicLinkToken h t now E w = (Inr r, w') \<Longrightarrow> cl_Link r = consume_link t l \<and>
       w_db w' = (w_db w)\<lparr>magic_link_tokens := update_rows (usable_links (w_db w) h now) (consume_link t) (magic_link_tokens (w_db w))\<rparr>"
  "filter (usable_links (w_db w) h now) (magic_link_tokens (w_db w)) = l # ls \<Longrightarrow>
     ConsumeMagicLinkToken h t now E w = (Inl e, w') \<Longrightarrow> e = DbUnavailable"
  by (auto simp: ConsumeMagicLinkToken_def Let_def db_exec_apply split: if_splits prod.splits)

lemma candidate_consume:
  "candidate_loop (\<lambda>h. ConsumeMagicLinkToken h t now) hs E w = (Inr found, w') \<Longrightarrow>
     (case found of
        None \<Rightarrow> w_db w' = w_db w
      | Some r \<Rightarrow> \<exists>h l. h \<in> set hs \<and> l \<in> set (magic_link_tokens (w_db w)) \<and> usable_links (w_db w) h now l \<and>
          cl_Link r = consume_link t l \<and>
          w_db w' = (w_db w)\<lparr>magic_link_tokens := update_rows (usable_links (w_db w) h now)
            (consume_link t) (magic_link_tokens (w_db w))\<rparr>)"
proof (induction hs arbitrary: w)
  case Nil
  then show ?case by (simp add: act_inr)
next
  case (Cons h hs)
  obtain x w1 where x: "ConsumeMagicLinkToken h t now E w = (x, w1)" by fastforce
  have step: "(case x of Inr item \<Rightarrow> ret (Some item)
     | Inl e \<Rightarrow> if e = NoRows then candidate_loop (\<lambda>h. ConsumeMagicLinkToken h t now) hs else fail e) E w1 = (Inr found, w')"
    using Cons.prems x by (simp add: andThen_apply attempt_apply)
  show ?case
  proof (cases "filter (usable_links (w_db w) h now) (magic_link_tokens (w_db w))")
    case Nil
    then have "candidate_loop (\<lambda>h. ConsumeMagicLinkToken h t now) hs E (tick w) = (Inr found, w')"
      using step x ConsumeMagicLinkToken_eval(1) [OF Nil] by (auto simp: fail_apply split: if_splits)
    then show ?thesis using Cons.IH [of "tick w"] by (fastforce split: option.splits)
  next
    case first: (Cons l ls)
    then have l: "l \<in> set (magic_link_tokens (w_db w))" "usable_links (w_db w) h now l"
      by (metis (mono_tags, lifting) filter_eq_Cons_iff in_set_conv_decomp)+
    obtain r where r: "x = Inr r"
    proof (cases x)
      case (Inl e)
      then show thesis
        using step ConsumeMagicLinkToken_eval(3) [OF first, of t E e w1] x by (simp add: fail_apply)
    qed
    then have "found = Some r" "w' = w1" using step by (simp_all add: ret_apply)
    then show ?thesis
      using ConsumeMagicLinkToken_eval(2) [OF first x [unfolded r]] l by (auto intro!: exI [of _ h] exI [of _ l])
  qed
qed

end
