(* ===== verification/Logins.thy ===== *)
theory Logins
  imports Sessions Samples
begin

text \<open>
  What the console's credentials promise: a magic link logs in once, a session stands for an active
  member until it expires or is revoked, and a mailbox gets at most three links an hour.
\<close>

section \<open>One login\<close>

lemma CreateUserSession_Inr:
  assumes "CreateUserSession s E w = (Inr x, w')"
  shows "x = s" "\<forall>y \<in> set (user_sessions (w_db w)). ss_ID y \<noteq> ss_ID s \<and> ss_TokenHash y \<noteq> ss_TokenHash s"
    "w_db w' = (w_db w)\<lparr>user_sessions := user_sessions (w_db w) @ [s]\<rparr>"
  using assms unfolding CreateUserSession_def sql_insert_Inr by (simp_all add: list_ex_iff)

lemma consume_tx_Inr:
  assumes run: "consume_tx svc hs st t E w = (Inr res, w')"
  obtains h l i hash where "h \<in> set hs" "l \<in> set (magic_link_tokens (w_db w))" "usable_links (w_db w) h t l" "lr_Token res = st"
    "token_Hash (mg_mac svc) (mg_hashKeyRing svc) st = Inr hash"
    "lr_Session res = new_session i (ml_OrgID l) (ml_UserID l) st hash defaultSessionTTL t"
    "\<forall>x \<in> set (user_sessions (w_db w)). ss_ID x \<noteq> i \<and> ss_TokenHash x \<noteq> hash"
    "w_db w' = (w_db w)\<lparr>magic_link_tokens := update_rows (usable_links (w_db w) h t) (consume_link t) (magic_link_tokens (w_db w)),
       user_sessions := user_sessions (w_db w) @ [lr_Session res]\<rparr>"
proof -
  obtain found and w1 :: world where look: "candidate_loop (\<lambda>hash. ConsumeMagicLinkToken hash t t) hs E w = (Inr found, w1)"
    and more: "(case found of
       None \<Rightarrow> fail ErrInvalidMagicLink
     | Some r \<Rightarrow> let l = cl_Link r in
         andThen new_uuid (\<lambda>i.
         andThen (lift (token_Hash (mg_mac svc) (mg_hashKeyRing svc) st)) (\<lambda>hash.
         andThen (CreateUserSession (new_session i (ml_OrgID l) (ml_UserID l) st hash defaultSessionTTL t)) (\<lambda>session.
         ret \<lparr>lr_Token = st, lr_Session = session, lr_OrgID = ml_OrgID l, lr_OrgSlug = cl_OrgSlug r, lr_UserID = ml_UserID l,
           lr_Email = cl_Email r, lr_DisplayName = cl_DisplayName r, lr_MembershipID = cl_MembershipID r, lr_Role = cl_Role r\<rparr>)))) E w1
       = (Inr res, w')"
    using run unfolding consume_tx_def andThen_Inr by blast
  obtain r where r: "found = Some r" using more by (cases found) (auto simp: fail_Inr)
  obtain h l where l: "h \<in> set hs" "l \<in> set (magic_link_tokens (w_db w))" "usable_links (w_db w) h t l"
    "cl_Link r = consume_link t l"
    "w_db w1 = (w_db w)\<lparr>magic_link_tokens := update_rows (usable_links (w_db w) h t) (consume_link t) (magic_link_tokens (w_db w))\<rparr>"
    using candidate_consume [OF look] r by auto
  let ?i = "env_uuid E (w_step w1)"
  obtain hash s where hash: "token_Hash (mg_mac svc) (mg_hashKeyRing svc) st = Inr hash"
    and s: "CreateUserSession (new_session ?i (ml_OrgID l) (ml_UserID l) st hash defaultSessionTTL t) E (tick w1) = (Inr s, w')"
    and out: "lr_Token res = st" "lr_Session res = s"
    using more unfolding r option.case Let_def l(4) consume_link_simps andThen_Inr new_uuid_Inr lift_Inr ret_Inr by auto
  note made = CreateUserSession_Inr [OF s]
  show thesis
    by (rule that [OF l(1-3) out(1) hash out(2) [unfolded made(1)]])
      (use made l(5) out(2) in \<open>simp_all add: new_session_def\<close>)
qed

lemma MagicLink_Consume_Inr:
  assumes run: "MagicLink_Consume svc tok E w = (Inr res, w')"
  obtains hs h l t i hash where
    "CandidateHashes (mg_mac svc) (mg_hashKeyRing svc) (TrimSpace tok) = Inr hs" "h \<in> set hs"
    "l \<in> set (magic_link_tokens (w_db w))" "usable_links (w_db w) h t l"
    "lr_Token res = SessionPlainPrefix @ env_token E (w_step w)"
    "token_Hash (mg_mac svc) (mg_hashKeyRing svc) (lr_Token res) = Inr hash"
    "lr_Session res = new_session i (ml_OrgID l) (ml_UserID l) (lr_Token res) hash defaultSessionTTL t"
    "\<forall>x \<in> set (user_sessions (w_db w)). ss_ID x \<noteq> i \<and> ss_TokenHash x \<noteq> hash"
    "w_db w' = (w_db w)\<lparr>magic_link_tokens := update_rows (usable_links (w_db w) h t) (consume_link t) (magic_link_tokens (w_db w)),
       user_sessions := user_sessions (w_db w) @ [lr_Session res]\<rparr>"
proof -
  let ?st = "SessionPlainPrefix @ env_token E (w_step w)"
  define w0 where "w0 = tick (tick w)"
  define t where "t = env_time E (Suc (w_step w))"
  have w0: "w_db (tick w0) = w_db w" by (simp add: w0_def)
  have "ExecTx (andThen (lift (CandidateHashes (mg_mac svc) (mg_hashKeyRing svc) (TrimSpace tok))) (\<lambda>hashes.
      consume_tx svc hashes ?st t)) E w0 = (Inr res, w')"
    using run unfolding MagicLink_Consume_def Let_def generateToken_def w0_def t_def
    by (auto simp: andThen_Inr clock_now_Inr random_token_Inr ret_Inr fail_Inr split: if_splits)
  then obtain w2 where body: "andThen (lift (CandidateHashes (mg_mac svc) (mg_hashKeyRing svc) (TrimSpace tok))) (\<lambda>hashes.
      consume_tx svc hashes ?st t) E (tick w0) = (Inr res, w2)" and w2: "w_db w' = w_db w2"
    by (elim ExecTx_Inr) auto
  obtain hs where hs: "CandidateHashes (mg_mac svc) (mg_hashKeyRing svc) (TrimSpace tok) = Inr hs"
    and rest: "consume_tx svc hs ?st t E (tick w0) = (Inr res, w2)"
    using body by (auto simp: andThen_Inr lift_Inr)
  show thesis
  proof (rule consume_tx_Inr [OF rest, unfolded w0], goal_cases)
    case (1 h l i hash)
    then show ?thesis using w2 by (intro that [OF hs]) simp_all
  qed
qed

lemma MagicLink_Consume_Inl:
  assumes run: "MagicLink_Consume svc tok E w = (Inl e, w')"
  shows "w_db w' = w_db w"
proof (cases "TrimSpace tok = []")
  case True
  then show ?thesis using run by (simp add: MagicLink_Consume_def fail_apply)
next
  case False
  let ?tx = "\<lambda>st t. andThen (lift (CandidateHashes (mg_mac svc) (mg_hashKeyRing svc) (TrimSpace tok))) (\<lambda>hashes.
      consume_tx svc hashes st t)"
  obtain st t where "ExecTx (?tx st t) E (tick (tick w)) = (Inl e, w')"
    using run False by (auto simp: MagicLink_Consume_def Let_def generateToken_def andThen_apply clock_now_apply random_token_apply ret_apply)
  then show ?thesis by (cases rule: ExecTx_cases [of "?tx st t" E "tick (tick w)"]) auto
qed

section \<open>Histories of the console\<close>

text \<open>Everything the console does to its credentials, in any order and with any faults, counting the logins by link.\<close>

inductive console_history :: "database \<Rightarrow> nat \<Rightarrow> database \<Rightarrow> bool" for db0 where
  start: "console_history db0 0 db0"
| login: "console_history db0 n (w_db w) \<Longrightarrow> MagicLink_Consume svc tok E w = (Inr res, w') \<Longrightarrow> console_history db0 (Suc n) (w_db w')"
| refused: "console_history db0 n (w_db w) \<Longrightarrow> MagicLink_Consume svc tok E w = (Inl e, w') \<Longrightarrow> console_history db0 n (w_db w')"
| request: "console_history db0 n (w_db w) \<Longrightarrow> console_history db0 n (w_db (snd (MagicLink_Request svc slug email E w)))"
| mock: "console_history db0 n (w_db w) \<Longrightarrow> console_history db0 n (w_db (snd (PasswordlessMockLogin sv slug email E w)))"
| auth: "console_history db0 n (w_db w) \<Longrightarrow> console_history db0 n (w_db (snd (Session_Authenticate sv tok E w)))"
| revoke: "console_history db0 n (w_db w) \<Longrightarrow> console_history db0 n (w_db (snd (Session_Revoke org i E w)))"
| member: "console_history db0 n (w_db w) \<Longrightarrow> console_history db0 n (w_db (snd (UpsertMember sv p E w)))"

lemma keeps_candidates: "(\<And>h. keeps I (get h)) \<Longrightarrow> keeps I (candidate_loop get hs)"
  by (induction hs) (auto intro!: keeps_rules)

lemma keeps_no_rows [keeps_rules]: "keeps I m \<Longrightarrow> keeps I (no_rows_as e m)"
  by (auto simp: no_rows_as_def split: err.split intro!: keeps_rules)

lemma keeps_login_reads [keeps_rules]:
  "keeps I (GetUserSessionByHash hash)" "keeps I (GetActiveMembershipByOrgSlugAndEmail slug email)" "keeps I (send_mail to body)"
  unfolding GetUserSessionByHash_def GetActiveMembershipByOrgSlugAndEmail_def
  by (rule keeps_db_read)+ (rule keepsI, simp add: send_mail_def)

text \<open>
  What a predicate of the database, possibly counting logins, has to promise of the single
  statements so that every history keeps it.
\<close>

locale session_invariant =
  fixes I :: "nat \<Rightarrow> database \<Rightarrow> bool"
  assumes unrelated: "I n db \<Longrightarrow> I n (db\<lparr>users := us\<rparr>)" "I n db \<Longrightarrow> I n (db\<lparr>org_memberships := ms\<rparr>)"
    and add_session: "I n db \<Longrightarrow> \<forall>x \<in> set (user_sessions db). ss_ID x \<noteq> ss_ID s \<Longrightarrow>
      I n (db\<lparr>user_sessions := user_sessions db @ [s]\<rparr>)"
    and touch_session: "I n db \<Longrightarrow> I n (db\<lparr>user_sessions := update_rows P (\<lambda>r. r\<lparr>ss_LastUsedAt := Some t\<rparr>) (user_sessions db)\<rparr>)"
    and revoke_session: "I n db \<Longrightarrow>
      I n (db\<lparr>user_sessions := update_rows P (\<lambda>r. r\<lparr>ss_Status := ''revoked'', ss_RevokedAt := Some t\<rparr>) (user_sessions db)\<rparr>)"
begin

lemma keeps_statements:
  "keeps (I n) (CreateUserSession s)" "keeps (I n) (RevokeUserSession org i t)" "keeps (I n) (TouchUserSessionLastUsed org i t)"
  "keeps (I n) (UpsertUserByEmail u)" "keeps (I n) (UpsertOrgMembership m)"
proof -
  show "keeps (I n) (CreateUserSession s)"
    unfolding CreateUserSession_def by (rule keeps_sql_insert) (auto simp: list_ex_iff intro: add_session)
  show "keeps (I n) (RevokeUserSession org i t)"
    unfolding RevokeUserSession_def by (rule keeps_update_returning) (rule revoke_session)
  show "keeps (I n) (TouchUserSessionLastUsed org i t)"
    unfolding TouchUserSessionLastUsed_def by (rule keeps_db_exec) (auto intro: touch_session)
  show "keeps (I n) (UpsertUserByEmail u)" "keeps (I n) (UpsertOrgMembership m)"
    unfolding UpsertUserByEmail_def UpsertOrgMembership_def upsert_def
    by (rule keeps_db_exec, auto split: if_splits list.splits option.splits intro: unrelated)+
qed

lemmas console_rules = keeps_rules keeps_statements keeps_candidates

lemma keeps_operations:
  "keeps (I n) (PasswordlessMockLogin sv slug email)" "keeps (I n) (Session_Authenticate sv tok)"
  "keeps (I n) (Session_Revoke org i)" "keeps (I n) (UpsertMember sv p)"
proof -
  show "keeps (I n) (PasswordlessMockLogin sv slug email)"
    unfolding PasswordlessMockLogin_def generateToken_def by (intro console_rules)
  show "keeps (I n) (Session_Authenticate sv tok)"
    unfolding Session_Authenticate_def by (intro console_rules)
  show "keeps (I n) (Session_Revoke org i)"
    unfolding Session_Revoke_def by (intro console_rules)
  show "keeps (I n) (UpsertMember sv p)"
    unfolding UpsertMember_def upsertMemberWithQueries_def GetOrganization_def by (intro console_rules)
qed

end

locale console_invariant = session_invariant +
  assumes use_link: "I n db \<Longrightarrow> l \<in> set (magic_link_tokens db) \<Longrightarrow> usable_links db h t l \<Longrightarrow>
      I (Suc n) (db\<lparr>magic_link_tokens := update_rows (usable_links db h t) (consume_link t) (magic_link_tokens db)\<rparr>)"
    and keeps_request: "keeps (I n) (MagicLink_Request svc slug email)"
begin

lemma consume_counts:
  assumes "MagicLink_Consume svc tok E w = (Inr res, w')" "I n (w_db w)"
  shows "I (Suc n) (w_db w')"
proof -
  obtain h l t i hash where l: "l \<in> set (magic_link_tokens (w_db w))" "usable_links (w_db w) h t l"
    and s: "lr_Session res = new_session i (ml_OrgID l) (ml_UserID l) (lr_Token res) hash defaultSessionTTL t"
      "\<forall>x \<in> set (user_sessions (w_db w)). ss_ID x \<noteq> i \<and> ss_TokenHash x \<noteq> hash"
    and db: "w_db w' = (w_db w)\<lparr>magic_link_tokens := update_rows (usable_links (w_db w) h t) (consume_link t) (magic_link_tokens (w_db w)),
       user_sessions := user_sessions (w_db w) @ [lr_Session res]\<rparr>"
    using assms(1) by (rule MagicLink_Consume_Inr)
  from add_session [OF use_link [OF assms(2) l], of "lr_Session res"] show ?thesis
    using s db by (simp add: new_session_def)
qed

lemma history_keeps: "console_history db0 n db \<Longrightarrow> I 0 db0 \<Longrightarrow> I n db"
proof (induction rule: console_history.induct)
  case (login n w svc tok E res w')
  then show ?case using consume_counts by blast
next
  case (refused n w svc tok E e w')
  then show ?case using MagicLink_Consume_Inl [OF refused.hyps(2)] by simp
qed (simp_all add: keeps_operations [unfolded keeps_def] keeps_request [unfolded keeps_def])

end

text \<open>A predicate that any new link keeps is kept by every request.\<close>

locale link_invariant = session_invariant +
  assumes new_link: "I n db \<Longrightarrow> ml_Status l = ''active'' \<Longrightarrow> \<forall>x \<in> set (magic_link_tokens db). ml_TokenHash x \<noteq> ml_TokenHash l \<Longrightarrow>
      I n (db\<lparr>magic_link_tokens := magic_link_tokens db @ [l]\<rparr>)"
    and spend_link: "I n db \<Longrightarrow> l \<in> set (magic_link_tokens db) \<Longrightarrow> usable_links db h t l \<Longrightarrow>
      I (Suc n) (db\<lparr>magic_link_tokens := update_rows (usable_links db h t) (consume_link t) (magic_link_tokens db)\<rparr>)"
begin

lemma keeps_new_link: "ml_Status l = ''active'' \<Longrightarrow> keeps (I n) (CreateMagicLinkToken l)"
  unfolding CreateMagicLinkToken_def by (rule keeps_sql_insert) (auto simp: list_ex_iff intro: new_link)

lemma keeps_any_request: "keeps (I n) (MagicLink_Request svc slug email)"
  unfolding MagicLink_Request_def recentRequestLimitExceeded_def generateToken_def
  by (intro console_rules keeps_new_link) simp

end

sublocale link_invariant \<subseteq> console_invariant
  by unfold_locales (rule spend_link, assumption+, rule keeps_any_request)

section \<open>A link logs in once\<close>

definition consumed_hashes :: "database \<Rightarrow> string set" where
  "consumed_hashes db = ml_TokenHash ` {l \<in> set (magic_link_tokens db). ml_Status l = ''consumed''}"

text \<open>Hashes are unique, a number of links is consumed, and some links are among these.\<close>

definition links_after :: "string set \<Rightarrow> nat \<Rightarrow> nat \<Rightarrow> database \<Rightarrow> bool" where
  "links_after H c n db \<longleftrightarrow> links_ok db \<and> consumed (magic_link_tokens db) = c + n \<and> H \<subseteq> consumed_hashes db"

lemma consumed_unusable: "ml_TokenHash l \<in> consumed_hashes db \<Longrightarrow> links_ok db \<Longrightarrow> l \<in> set (magic_link_tokens db) \<Longrightarrow> \<not> link_usable h t l"
  by (auto simp: consumed_hashes_def links_ok_def link_usable_def distinct_map dest: inj_onD)

lemma links_after_consume:
  assumes "links_after H c n db" "l \<in> set (magic_link_tokens db)" "usable_links db h t l"
  shows "links_after H c (Suc n) (db\<lparr>magic_link_tokens := update_rows (usable_links db h t) (consume_link t) (magic_link_tokens db)\<rparr>)"
proof -
  let ?ls = "magic_link_tokens db"
  have "map ml_TokenHash (update_rows (usable_links db h t) (consume_link t) ?ls) = map ml_TokenHash ?ls"
    by (rule map_update_rows) simp
  moreover have "consumed (update_rows (usable_links db h t) (consume_link t) ?ls) = Suc (consumed ?ls)"
    using assms by (intro consumed_update [of _ l]) (auto simp: links_after_def links_ok_def link_usable_def)
  moreover have "consumed_hashes db \<subseteq> ml_TokenHash ` {l \<in> set (update_rows (usable_links db h t) (consume_link t) ?ls). ml_Status l = ''consumed''}"
    unfolding consumed_hashes_def update_rows_def by (force simp: link_usable_def)
  ultimately show ?thesis
    using assms(1) by (auto simp: links_after_def links_ok_def consumed_hashes_def simp del: set_map)
qed

interpretation spent: link_invariant "links_after H c" for H c
proof unfold_locales
  fix n db and l :: MagicLinkToken
  assume "links_after H c n db" "ml_Status l = ''active''" "\<forall>x \<in> set (magic_link_tokens db). ml_TokenHash x \<noteq> ml_TokenHash l"
  then show "links_after H c n (db\<lparr>magic_link_tokens := magic_link_tokens db @ [l]\<rparr>)"
    by (auto simp: links_after_def links_ok_def consumed_def consumed_hashes_def)
qed (rule links_after_consume | simp add: links_after_def links_ok_def consumed_hashes_def)+

text \<open>
  C26: A magic link logs in once. Whatever the console does, in any order and with any faults of the
  database, the number of consumed links grows by exactly one with every login by link, a
  consumed link stays consumed, and a token whose links are consumed never logs in again.
\<close>

theorem magic_link_single_use:
  assumes "links_ok db0" "console_history db0 n (w_db w)"
    and "CandidateHashes (mg_mac svc) (mg_hashKeyRing svc) (TrimSpace tok) = Inr hs"
  shows "consumed (magic_link_tokens (w_db w)) = consumed (magic_link_tokens db0) + n \<and>
    consumed_hashes db0 \<subseteq> consumed_hashes (w_db w) \<and>
    (set hs \<subseteq> consumed_hashes db0 \<longrightarrow> \<not> is_ok (fst (MagicLink_Consume svc tok E w)))"
proof (intro conjI impI)
  have after: "links_ok (w_db w)" "consumed (magic_link_tokens (w_db w)) = consumed (magic_link_tokens db0) + n"
    "consumed_hashes db0 \<subseteq> consumed_hashes (w_db w)"
    using spent.history_keeps [OF assms(2), of "consumed_hashes db0" "consumed (magic_link_tokens db0)"] assms(1) by (simp_all add: links_after_def)
  then show "consumed (magic_link_tokens (w_db w)) = consumed (magic_link_tokens db0) + n"
    "consumed_hashes db0 \<subseteq> consumed_hashes (w_db w)" by simp_all
  assume spent: "set hs \<subseteq> consumed_hashes db0"
  show "\<not> is_ok (fst (MagicLink_Consume svc tok E w))"
  proof
    assume "is_ok (fst (MagicLink_Consume svc tok E w))"
    then obtain res w' where run: "MagicLink_Consume svc tok E w = (Inr res, w')"
      by (metis is_ok.elims(2) prod.collapse)
    obtain hs' h l t where "CandidateHashes (mg_mac svc) (mg_hashKeyRing svc) (TrimSpace tok) = Inr hs'" "h \<in> set hs'"
      "l \<in> set (magic_link_tokens (w_db w))" "usable_links (w_db w) h t l"
      using run by (rule MagicLink_Consume_Inr)
    then have "ml_TokenHash l \<in> consumed_hashes (w_db w)" "link_usable h t l" "l \<in> set (magic_link_tokens (w_db w))"
      using assms(3) spent after(3) by (auto simp: link_usable_def)
    then show False using consumed_unusable after(1) by blast
  qed
qed

text \<open>A member of the sample organisation with a link, and the services that share its hash key.\<close>

definition demo_user :: User where
  "demo_user = \<lparr>us_ID = 21, us_Email = ''ann@acme.io'', us_DisplayName = ''Ann'', us_Status = ''active'',
     us_CreatedAt = demo_t0, us_UpdatedAt = demo_t0\<rparr>"

definition demo_membership :: OrgMembership where
  "demo_membership = \<lparr>om_ID = 22, om_OrgID = 1, om_UserID = 21, om_Role = ''admin'', om_Status = ''active'',
     om_CreatedAt = demo_t0, om_UpdatedAt = demo_t0\<rparr>"

definition demo_link :: MagicLinkToken where
  "demo_link = \<lparr>ml_ID = 23, ml_OrgID = 1, ml_UserID = 21, ml_Email = ''ann@acme.io'', ml_TokenPrefix = ''llmgw_magic_x'',
     ml_TokenHash = ''old:x'', ml_Status = ''active'', ml_ExpiresAt = 1779271200 * time_second + time_hour,
     ml_ConsumedAt = None, ml_CreatedAt = demo_t0\<rparr>"

definition demo_console :: database where
  "demo_console = demo_db\<lparr>users := [demo_user], org_memberships := [demo_membership], magic_link_tokens := [demo_link]\<rparr>"

definition demo_links :: MagicLinkService where
  "demo_links = \<lparr>mg_configured = True, mg_mac = demo_mac, mg_hashKeyRing = Some \<lparr>hk_activeVersion = 1, hk_hashers = [(1, ''old'')]\<rparr>, mg_BaseURL = ''https://c/'',
     mg_ttl = 15 * time_minute, mg_with_query = (\<lambda>u t. Some (u @ t))\<rparr>"

definition demo_logged_in :: "PasswordlessMockLoginResult outcome \<times> world" where
  "demo_logged_in = MagicLink_Consume demo_links ''x'' demo_env (world_of demo_console)"

lemma demo_login:
  "is_ok (fst demo_logged_in) \<and> map ml_Status (magic_link_tokens (w_db (snd demo_logged_in))) = [''consumed''] \<and>
   map ml_TokenHash (magic_link_tokens (w_db (snd demo_logged_in))) = [''old:x'']"
  by code_simp

theorem magic_link_single_use_witness:
  "consumed (magic_link_tokens (w_db (snd demo_logged_in))) = consumed (magic_link_tokens demo_console) + 1 \<and>
   \<not> is_ok (fst (MagicLink_Consume demo_links ''x'' demo_env (snd demo_logged_in)))"
proof -
  let ?w = "snd demo_logged_in" and ?db = "w_db (snd demo_logged_in)"
  obtain res where run: "MagicLink_Consume demo_links ''x'' demo_env (world_of demo_console) = (Inr res, ?w)"
    using demo_login unfolding demo_logged_in_def by (metis is_ok.elims(2) prod.collapse)
  obtain l where l: "magic_link_tokens ?db = [l]" "ml_Status l = ''consumed''" "ml_TokenHash l = ''old:x''"
    using demo_login by (cases "magic_link_tokens ?db") auto
  have h: "CandidateHashes (mg_mac demo_links) (mg_hashKeyRing demo_links) (TrimSpace ''x'') = Inr [''old:x'']" by code_simp
  have ok: "links_ok demo_console" "links_ok ?db"
    using l by (simp_all add: links_ok_def demo_console_def)
  have "console_history demo_console (Suc 0) ?db"
    by (rule console_history.login [OF _ run]) (simp add: console_history.start)
  from magic_link_single_use [OF ok(1) this h] magic_link_single_use [OF ok(2) console_history.start h, of demo_env]
  show ?thesis using l by (simp add: consumed_hashes_def)
qed

section \<open>Revoked sessions stay revoked\<close>

definition revoked_in :: "uuid \<Rightarrow> uuid \<Rightarrow> nat \<Rightarrow> database \<Rightarrow> bool" where
  "revoked_in org i n db \<longleftrightarrow> i \<in> ss_ID ` set (user_sessions db) \<and>
     (\<forall>x \<in> set (user_sessions db). ss_OrgID x = org \<and> ss_ID x = i \<longrightarrow> ss_Status x = ''revoked'')"

lemma session_ids_kept:
  "ss_ID ` set (update_rows P (\<lambda>r. r\<lparr>ss_LastUsedAt := Some t\<rparr>) ss) = ss_ID ` set ss"
  "ss_ID ` set (update_rows P (\<lambda>r. r\<lparr>ss_Status := ''revoked'', ss_RevokedAt := Some t\<rparr>) ss) = ss_ID ` set ss"
  unfolding set_map [symmetric] by (subst map_update_rows; simp)+

interpretation gone: link_invariant "revoked_in org i" for org i
proof unfold_locales
  fix n db P t assume I: "revoked_in org i n db"
  show "revoked_in org i n (db\<lparr>user_sessions := update_rows P (\<lambda>r. r\<lparr>ss_LastUsedAt := Some t\<rparr>) (user_sessions db)\<rparr>)"
    using I session_ids_kept(1) [of P t "user_sessions db"] by (auto simp: revoked_in_def update_rows_def)
  show "revoked_in org i n (db\<lparr>user_sessions := update_rows P (\<lambda>r. r\<lparr>ss_Status := ''revoked'', ss_RevokedAt := Some t\<rparr>) (user_sessions db)\<rparr>)"
    using I session_ids_kept(2) [of P t "user_sessions db"] by (auto simp: revoked_in_def update_rows_def)
qed (auto simp: revoked_in_def)

text \<open>
  C27: A session authenticates only for what stands behind it: an unexpired active session with a
  candidate hash of the token, an active membership of its organisation, an active user, and the
  role of that membership. Once revoked it never authenticates again, whatever the console does.
\<close>

theorem session_authenticates_members:
  assumes revoke: "Session_Revoke org i E0 w0 = (Inr s, w1)" and "console_history (w_db w1) n (w_db w)"
    and run: "Session_Authenticate sv tok E w = (Inr p, w')"
  shows "\<exists>hashes k. CandidateHashes (sv_mac sv) (sv_hashKeyRing sv) (TrimSpace tok) = Inr hashes \<and>
    w_step w \<le> k \<and> k < w_step w' \<and> backed (w_db w) hashes (env_time E k) p \<and>
    (atp_OrgID p, atp_SessionID p) \<noteq> (org, Some i)"
proof -
  obtain hashes and w2 :: world where h: "CandidateHashes (sv_mac sv) (sv_hashKeyRing sv) (TrimSpace tok) = Inr hashes"
    "w_step w \<le> w_step w2" "w_step w2 < w_step w'" and b: "backed (w_db w) hashes (env_time E (w_step w2)) p"
    using run by (rule Session_Authenticate_Inr)
  have "revoked_in org i 0 (w_db w1)"
    unfolding revoked_in_def Session_Revoke_db [OF revoke] using Session_Revoke_hit [OF revoke]
    by (auto simp: session_ids_kept) (auto simp: update_rows_def)
  then have "revoked_in org i n (w_db w)" using gone.history_keeps assms(2) by blast
  then have "(atp_OrgID p, atp_SessionID p) \<noteq> (org, Some i)"
    using b by (auto simp: revoked_in_def backed_def)
  then show ?thesis using h b by blast
qed

definition demo_sessions :: SessionService where
  "demo_sessions = \<lparr>sv_store = True, sv_mac = demo_mac, sv_hashKeyRing = mg_hashKeyRing demo_links, sv_ttl = defaultSessionTTL\<rparr>"

text \<open>Two logins of the member, of which the first is then revoked.\<close>

definition demo_revoked :: "UserSession outcome \<times> world" where
  "demo_revoked = andThen (MagicLink_Consume demo_links ''x'') (\<lambda>a.
     andThen (PasswordlessMockLogin demo_sessions ''acme'' ''Ann@acme.io'') (\<lambda>_.
     Session_Revoke (lr_OrgID a) (ss_ID (lr_Session a)))) (demo_env\<lparr>env_token := (\<lambda>n. if n = 0 then ''a'' else ''b'')\<rparr>)
     (world_of demo_console)"

lemma demo_revoked_run:
  "is_ok (fst demo_revoked) \<and> is_ok (fst (Session_Authenticate demo_sessions ''llmgw_session_b'' demo_env (snd demo_revoked))) \<and>
   \<not> is_ok (fst (Session_Authenticate demo_sessions ''llmgw_session_a'' demo_env (snd demo_revoked)))"
  by code_simp

theorem session_authenticates_members_witness:
  "\<exists>p w' hashes k. Session_Authenticate demo_sessions ''llmgw_session_b'' demo_env (snd demo_revoked) = (Inr p, w') \<and>
    CandidateHashes demo_mac (sv_hashKeyRing demo_sessions) ''llmgw_session_b'' = Inr hashes \<and>
    backed (w_db (snd demo_revoked)) hashes (env_time demo_env k) p"
proof -
  let ?E = "demo_env\<lparr>env_token := (\<lambda>n. if n = 0 then ''a'' else ''b'')\<rparr>"
  obtain s where "demo_revoked = (Inr s, snd demo_revoked)"
    using demo_revoked_run by (metis is_ok.elims(2) prod.collapse)
  then obtain org i w0 where revoke: "Session_Revoke org i ?E w0 = (Inr s, snd demo_revoked)"
    unfolding demo_revoked_def andThen_Inr by blast
  obtain p w' where run: "Session_Authenticate demo_sessions ''llmgw_session_b'' demo_env (snd demo_revoked) = (Inr p, w')"
    using demo_revoked_run by (metis is_ok.elims(2) prod.collapse)
  have "TrimSpace ''llmgw_session_b'' = ''llmgw_session_b''" by code_simp
  then show ?thesis
    using session_authenticates_members [OF revoke console_history.start run] run by (auto simp: demo_sessions_def)
qed

section \<open>Three links an hour\<close>

definition mailbox_links :: "database \<Rightarrow> uuid \<Rightarrow> uuid \<Rightarrow> string \<Rightarrow> time \<Rightarrow> MagicLinkToken list" where
  "mailbox_links db org user email a = filter (\<lambda>l. ml_CreatedAt l \<le> a + time_hour) (recent_links db org user email a)"

definition hourly_limit :: "nat \<Rightarrow> database \<Rightarrow> bool" where
  "hourly_limit n db \<longleftrightarrow> (\<forall>org user email a. length (mailbox_links db org user email a) \<le> 3)"

definition admitted_link :: "database \<Rightarrow> MagicLinkToken \<Rightarrow> bool" where
  "admitted_link db l \<longleftrightarrow> length (recent_links db (ml_OrgID l) (ml_UserID l) (ml_Email l) (ml_CreatedAt l - time_hour)) < 3"

lemma MagicLink_Request_links:
  "let ls = magic_link_tokens (w_db w); ls' = magic_link_tokens (w_db (snd (MagicLink_Request svc slug email E w)))
   in ls' = ls \<or> (\<exists>l. admitted_link (w_db w) l \<and> ls' = ls @ [l])"
proof (cases "mg_configured svc \<and> TrimSpace slug \<noteq> [] \<and> normalizeEmail email \<noteq> []")
  case False
  then show ?thesis by (auto simp: MagicLink_Request_def Let_def act_simps)
next
  case True
  obtain r w1 where get: "GetActiveMembershipByOrgSlugAndEmail (TrimSpace slug) (normalizeEmail email) E w = (r, w1)" by fastforce
  have w1: "w_db w1 = w_db w"
    using get by (auto simp: GetActiveMembershipByOrgSlugAndEmail_def db_read_apply split: if_splits)
  show ?thesis
  proof (cases r)
    case (Inl e)
    then show ?thesis using True get w1 by (simp add: MagicLink_Request_def Let_def act_simps)
  next
    case (Inr m)
    then show ?thesis
      using True get w1
      by (auto simp: MagicLink_Request_def Let_def act_simps recentRequestLimitExceeded_def generateToken_def CreateMagicLinkToken_def
          send_mail_def admitted_link_def split: sum.splits option.splits simp del: violated.simps)
  qed
qed

lemma recent_links_snoc: "recent_links (db\<lparr>magic_link_tokens := magic_link_tokens db @ [l]\<rparr>) org user email a =
  recent_links db org user email a @ (if ml_OrgID l = org \<and> ml_UserID l = user \<and> ToLower (ml_Email l) = ToLower email \<and> a \<le> ml_CreatedAt l then [l] else [])"
  by (simp add: recent_links_def)

lemma recent_links_cong: "magic_link_tokens db' = magic_link_tokens db \<Longrightarrow> recent_links db' = recent_links db"
  by (intro ext) (simp add: recent_links_def)

lemma length_filter_imp: "(\<And>x. P x \<Longrightarrow> Q x) \<Longrightarrow> length (filter P xs) \<le> length (filter Q xs)"
  by (induction xs) (auto simp: le_Suc_eq)

lemma recent_links_mono:
  assumes "a \<le> b" and "ToLower email = ToLower email'"
  shows "length (recent_links db org user email b) \<le> length (recent_links db org user email' a)"
  unfolding recent_links_def by (rule length_filter_imp) (use assms in auto)

lemma hourly_limit_admitted:
  assumes "hourly_limit n db" "admitted_link db l"
  shows "hourly_limit n (db\<lparr>magic_link_tokens := magic_link_tokens db @ [l]\<rparr>)"
  unfolding hourly_limit_def
proof (intro allI)
  fix org user email a
  let ?new = "ml_OrgID l = org \<and> ml_UserID l = user \<and> ToLower (ml_Email l) = ToLower email \<and> a \<le> ml_CreatedAt l \<and> ml_CreatedAt l \<le> a + time_hour"
  show "length (mailbox_links (db\<lparr>magic_link_tokens := magic_link_tokens db @ [l]\<rparr>) org user email a) \<le> 3"
  proof (cases ?new)
    case True
    then have "length (recent_links db org user email a) \<le> length (recent_links db org user (ml_Email l) (ml_CreatedAt l - time_hour))"
      by (intro recent_links_mono) auto
    also have "\<dots> < 3" using assms(2) True by (auto simp: admitted_link_def)
    finally have "length (mailbox_links db org user email a) < 3"
      unfolding mailbox_links_def by (meson le_less_trans length_filter_le)
    then show ?thesis by (simp add: mailbox_links_def recent_links_snoc)
  next
    case False
    then have "mailbox_links (db\<lparr>magic_link_tokens := magic_link_tokens db @ [l]\<rparr>) org user email a = mailbox_links db org user email a"
      by (auto simp: mailbox_links_def recent_links_snoc)
    then show ?thesis using assms(1) by (simp add: hourly_limit_def)
  qed
qed

lemma hourly_limit_cong: "magic_link_tokens db' = magic_link_tokens db \<Longrightarrow> hourly_limit n db' = hourly_limit n db"
  unfolding hourly_limit_def mailbox_links_def by (subst recent_links_cong) simp_all

lemma mailbox_links_consumed:
  "length (mailbox_links (db\<lparr>magic_link_tokens := update_rows P (consume_link t) (magic_link_tokens db)\<rparr>) org user email a) =
   length (mailbox_links db org user email a)"
proof -
  have "length (filter Q (update_rows P (consume_link t) ls)) = length (filter Q ls)" if "\<And>l. Q (consume_link t l) = Q l" for Q ls
    using that by (induction ls) auto
  note this [of "\<lambda>l. (ml_OrgID l = org \<and> ml_UserID l = user \<and> ToLower (ml_Email l) = ToLower email \<and> a \<le> ml_CreatedAt l) \<and> ml_CreatedAt l \<le> a + time_hour"]
  then show ?thesis by (simp add: mailbox_links_def recent_links_def consume_link_def conj_comms)
qed

lemma keeps_request_hourly: "keeps (hourly_limit n) (MagicLink_Request svc slug email)"
proof (rule keepsI)
  fix E and w :: world assume I: "hourly_limit n (w_db w)"
  let ?db' = "w_db (snd (MagicLink_Request svc slug email E w))"
  consider "magic_link_tokens ?db' = magic_link_tokens (w_db w)"
    | l where "admitted_link (w_db w) l" "magic_link_tokens ?db' = magic_link_tokens (w_db w) @ [l]"
    using MagicLink_Request_links [of w svc slug email E] unfolding Let_def by blast
  then show "hourly_limit n ?db'"
  proof cases
    case 1
    then show ?thesis using I hourly_limit_cong by blast
  next
    case 2
    then show ?thesis using hourly_limit_admitted [OF I 2(1)]
      by (simp add: hourly_limit_cong [of ?db' "(w_db w)\<lparr>magic_link_tokens := magic_link_tokens (w_db w) @ [l]\<rparr>"])
  qed
qed

interpretation hourly: console_invariant hourly_limit
  by unfold_locales
    (simp_all add: keeps_request_hourly, simp_all add: hourly_limit_def mailbox_links_consumed, simp_all add: mailbox_links_def recent_links_def)

text \<open>
  C28: Three magic links an hour. From a console in which no mailbox has more than three links in any
  window of one hour, no sequence of operations leads to one that has, whatever the clock does.
\<close>

theorem magic_links_rate_limited:
  assumes "hourly_limit 0 db0" "console_history db0 n db"
  shows "length (mailbox_links db org user email a) \<le> 3"
  using hourly.history_keeps [OF assms(2,1)] by (simp add: hourly_limit_def)

theorem magic_links_rate_limited_witness:
  "length (mailbox_links (w_db (snd (MagicLink_Request demo_links ''acme'' ''ann@acme.io'' demo_env (world_of demo_console))))
     1 21 ''ann@acme.io'' demo_t0) \<le> 3"
proof -
  have "hourly_limit 0 (w_db (world_of demo_console))"
    by (simp add: hourly_limit_def mailbox_links_def recent_links_def demo_console_def)
  then show ?thesis by (rule magic_links_rate_limited) (rule console_history.request, rule console_history.start)
qed

end
