(* ===== verification/RateLimit.thy ===== *)
theory RateLimit
  imports Auth Strconv Samples
begin

text \<open>
  The limiter of \<^verbatim>\<open>internal/ratelimit/redis_limiter.go\<close>: one Redis counter per API key and minute,
  incremented by a script that also sets its lifetime. A script that fails has not run. The
  counter lives on the clock of the server, which the environment supplies like the gateway's.
\<close>

section \<open>The limiter\<close>

record RateDecision =
  dec_Allowed :: bool
  dec_Limit :: int
  dec_Remaining :: int
  dec_ResetAt :: time
  dec_Key :: string

definition defaultWindowTTL :: time where "defaultWindowTTL = 2 * time_minute"

text \<open>The counter under a key, unless its lifetime is over.\<close>

definition live_counter :: "time \<Rightarrow> redis_counter option \<Rightarrow> redis_counter option" where
  "live_counter now c = (case c of
     None \<Rightarrow> None
   | Some r \<Rightarrow> (case rc_expires r of None \<Rightarrow> Some r | Some x \<Rightarrow> if now < x then Some r else None))"

text \<open>\<^verbatim>\<open>INCR\<close> fails on the largest int64; \<^verbatim>\<open>EXPIRE\<close> follows the increment that made the counter one.\<close>

definition incrementWithTTLScript :: "string \<Rightarrow> time \<Rightarrow> int act" where
  "incrementWithTTLScript key ttl = (\<lambda>E w.
     let now = env_time E (w_step w);
         old = (case live_counter now (w_redis w key) of None \<Rightarrow> \<lparr>rc_value = 0, rc_expires = None\<rparr> | Some r \<Rightarrow> r);
         count = rc_value old + 1 in
     if env_redis_fault E (w_step w) \<or> \<not> in_int64 count then (Inl RedisError, tick w)
     else (Inr count, (tick w)\<lparr>w_redis := (w_redis w)(key \<mapsto>
       \<lparr>rc_value = count, rc_expires = (if count = 1 then Some (now + ttl) else rc_expires old)\<rparr>)\<rparr>))"

definition unix_minute :: "time \<Rightarrow> int" where
  "unix_minute now = go_quo (now div time_second) 60"

definition limiter_key :: "uuid \<Rightarrow> int \<Rightarrow> string" where
  "limiter_key u minute = ''rl:api_key:'' @ uuid_String u @ '':minute:'' @ itoa minute"

definition Allow :: "bool \<Rightarrow> APIKeyPrincipal \<Rightarrow> RateDecision act" where
  "Allow client p =
     andThen clock_now (\<lambda>now.
     let minute = unix_minute now; key = limiter_key (kp_APIKeyID p) minute in
     if kp_RPMLimit p \<le> 0 then fail (ErrMsg ''rpm_limit must be greater than zero'')
     else if \<not> client then fail (ErrMsg ''redis limiter client is nil'')
     else andThen (incrementWithTTLScript key defaultWindowTTL) (\<lambda>count.
       ret \<lparr>dec_Allowed = count \<le> kp_RPMLimit p, dec_Limit = kp_RPMLimit p,
            dec_Remaining = min (max (kp_RPMLimit p - count) 0) (2 ^ 31 - 1),
            dec_ResetAt = (minute + 1) * time_minute, dec_Key = key\<rparr>))"

text \<open>Calls one after the other.\<close>

fun allow_all :: "APIKeyPrincipal list \<Rightarrow> RateDecision list act" where
  "allow_all [] = ret []"
| "allow_all (p # ps) = andThen (Allow True p) (\<lambda>d. andThen (allow_all ps) (\<lambda>ds. ret (d # ds)))"

section \<open>Keys\<close>

lemma hex_digit_inj: "a < 16 \<Longrightarrow> b < 16 \<Longrightarrow> hex_digit a = hex_digit b \<Longrightarrow> a = b"
proof -
  assume "a < 16" "b < 16" and eq: "hex_digit a = hex_digit b"
  then have code: "of_char (hex_digit n) = (if n < 10 then 48 + n else 87 + n)" if "n < 16" for n :: nat
    using that by (simp add: hex_digit_def)
  have "of_char (hex_digit a) = (of_char (hex_digit b) :: nat)" using eq by simp
  then show "a = b" using code [OF \<open>a < 16\<close>] code [OF \<open>b < 16\<close>] by (auto split: if_splits)
qed

lemma digits_determine:
  "(\<And>i. i < k \<Longrightarrow> (a :: nat) div 16 ^ i mod 16 = b div 16 ^ i mod 16) \<Longrightarrow> a < 16 ^ k \<Longrightarrow> b < 16 ^ k \<Longrightarrow> a = b"
proof (induction k arbitrary: a b)
  case (Suc k)
  have "a div 16 = b div 16"
  proof (rule Suc.IH)
    show "a div 16 div 16 ^ i mod 16 = b div 16 div 16 ^ i mod 16" if "i < k" for i
      using Suc.prems(1) [of "Suc i"] that by (simp add: div_mult2_eq)
    show "a div 16 < 16 ^ k" "b div 16 < 16 ^ k"
      using Suc.prems(2,3) by (auto simp: less_mult_imp_div_less)
  qed
  moreover have "a mod 16 = b mod 16" using Suc.prems(1) [of 0] by simp
  ultimately show ?case by (metis div_mod_decomp)
qed simp

lemma hex_digits_inj: "hex_digits 32 u = hex_digits 32 v \<Longrightarrow> u = v"
proof -
  assume eq: "hex_digits 32 u = hex_digits 32 v"
  have "unat u div 16 ^ i mod 16 = unat v div 16 ^ i mod 16" if "i < 32" for i
  proof (rule hex_digit_inj)
    have "i \<in> set (rev [0..<32])" using that by simp
    then show "hex_digit (unat u div 16 ^ i mod 16) = hex_digit (unat v div 16 ^ i mod 16)"
      using eq unfolding hex_digits_def map_eq_conv by blast
  qed simp_all
  moreover have "unat u < 16 ^ 32" "unat v < 16 ^ 32"
    using unsigned_less [of u, where ?'a = nat] unsigned_less [of v, where ?'a = nat] by simp_all
  ultimately have "unat u = unat v" by (rule digits_determine)
  then show "u = v" by (rule unsigned_word_eqI)
qed

lemma uuid_String_inj: "uuid_String u = uuid_String v \<Longrightarrow> u = v"
proof -
  assume eq: "uuid_String u = uuid_String v"
  let ?h = "hex_digits 32 u" and ?g = "hex_digits 32 v"
  have len: "length ?h = 32" "length ?g = 32" by (simp_all add: hex_digits_def)
  have parts: "take 8 ?h = take 8 ?g" "take 4 (drop 8 ?h) = take 4 (drop 8 ?g)" "take 4 (drop 12 ?h) = take 4 (drop 12 ?g)"
    "take 4 (drop 16 ?h) = take 4 (drop 16 ?g)" "drop 20 ?h = drop 20 ?g"
    using eq len by (auto simp: uuid_String_def Let_def append_eq_append_conv)
  have "take 12 ?h = take 12 ?g" using parts(1,2) take_add [of 8 4 ?h] take_add [of 8 4 ?g] by simp
  then have "take 16 ?h = take 16 ?g" using parts(3) take_add [of 12 4 ?h] take_add [of 12 4 ?g] by simp
  then have "take 20 ?h = take 20 ?g" using parts(4) take_add [of 16 4 ?h] take_add [of 16 4 ?g] by simp
  then have "?h = ?g" using parts(5) by (metis append_take_drop_id)
  then show "u = v" by (rule hex_digits_inj)
qed

lemma limiter_key_inj: "limiter_key u m = limiter_key v n \<longleftrightarrow> u = v \<and> m = n"
proof
  have len: "length (uuid_String x) = 36" for x by (simp add: uuid_String_def hex_digits_def Let_def)
  assume "limiter_key u m = limiter_key v n"
  then have "uuid_String u = uuid_String v" "itoa m = itoa n"
    using len by (auto simp: limiter_key_def append_eq_append_conv)
  then show "u = v \<and> m = n" using uuid_String_inj parse_int_itoa by (metis option.inject)
qed simp

section \<open>At most the limit in every minute\<close>

text \<open>
  The environment of the limiter: a clock that does not run backwards, less than a minute between
  the reading of the clock and the run of the script, no failures of Redis.
\<close>

definition steady :: "environment \<Rightarrow> bool" where
  "steady E \<longleftrightarrow> (\<forall>n. 0 \<le> env_time E n \<and> env_time E n \<le> env_time E (Suc n) \<and>
     env_time E (Suc n) \<le> env_time E n + time_minute \<and> \<not> env_redis_fault E n)"

text \<open>The minute of the \<open>j\<close>-th call of a run that starts at step \<open>s\<close>, and the calls of a key in a minute.\<close>

definition call_minute :: "environment \<Rightarrow> nat \<Rightarrow> nat \<Rightarrow> int" where
  "call_minute E s j = unix_minute (env_time E (s + 2 * j))"

definition earlier_calls :: "environment \<Rightarrow> nat \<Rightarrow> APIKeyPrincipal list \<Rightarrow> uuid \<Rightarrow> int \<Rightarrow> nat" where
  "earlier_calls E s ps u m = length (filter (\<lambda>j. kp_APIKeyID (ps ! j) = u \<and> call_minute E s j = m) [0 ..< length ps])"

lemma earlier_calls_snoc: "earlier_calls E s (ps @ [p]) u m =
  earlier_calls E s ps u m + (if kp_APIKeyID p = u \<and> call_minute E s (length ps) = m then 1 else 0)"
proof -
  have "filter (\<lambda>j. kp_APIKeyID ((ps @ [p]) ! j) = u \<and> call_minute E s j = m) [0 ..< length ps] =
      filter (\<lambda>j. kp_APIKeyID (ps ! j) = u \<and> call_minute E s j = m) [0 ..< length ps]"
    by (rule filter_cong) (auto simp: nth_append)
  then show ?thesis by (simp add: earlier_calls_def)
qed

lemma earlier_calls_bound: "earlier_calls E s ps u m \<le> length ps"
  unfolding earlier_calls_def by (rule order_trans [OF length_filter_le]) simp

lemma unix_minute_bounds: "0 \<le> t \<Longrightarrow> unix_minute t * time_minute \<le> t \<and> t < (unix_minute t + 1) * time_minute"
  by (cases "t div time_second = 0") (simp_all add: unix_minute_def go_quo_def time_unit_defs sgn_if, linarith+)

text \<open>What the counters hold after the calls so far.\<close>

definition counted :: "environment \<Rightarrow> nat \<Rightarrow> APIKeyPrincipal list \<Rightarrow> world \<Rightarrow> bool" where
  "counted E s ps w \<longleftrightarrow> w_step w = s + 2 * length ps \<and>
     (\<forall>u m. if earlier_calls E s ps u m = 0 then w_redis w (limiter_key u m) = None
        else \<exists>x. w_redis w (limiter_key u m) = Some \<lparr>rc_value = int (earlier_calls E s ps u m), rc_expires = Some x\<rparr> \<and>
          (m + 2) * time_minute \<le> x)"

lemma allow_all_snoc: "allow_all (ps @ [p]) = andThen (allow_all ps) (\<lambda>ds. andThen (Allow True p) (\<lambda>d. ret (ds @ [d])))"
  by (induction ps) (simp_all add: fun_eq_iff andThen_def ret_def split: prod.splits sum.splits)

lemma script_counts:
  assumes "steady E" and c: "counted E s ps w" and "int (length ps) < 2 ^ 63 - 1"
  defines "m \<equiv> unix_minute (env_time E (w_step w))"
  shows "\<exists>x. incrementWithTTLScript (limiter_key u m) defaultWindowTTL E (tick w) =
    (Inr (int (earlier_calls E s ps u m) + 1),
     (tick (tick w))\<lparr>w_redis := (w_redis w)(limiter_key u m \<mapsto> \<lparr>rc_value = int (earlier_calls E s ps u m) + 1, rc_expires = Some x\<rparr>)\<rparr>) \<and>
    (m + 2) * time_minute \<le> x"
proof -
  let ?t = "env_time E (w_step w)" and ?r = "env_time E (Suc (w_step w))" and ?k = "limiter_key u m" and ?c = "earlier_calls E s ps u m"
  have time: "0 \<le> ?t" "?t \<le> ?r" "?r \<le> ?t + time_minute" and up: "\<not> env_redis_fault E (Suc (w_step w))"
    using assms(1) by (simp_all add: steady_def)
  have minute: "m * time_minute \<le> ?t" "?t < (m + 1) * time_minute"
    unfolding m_def using unix_minute_bounds [OF time(1)] by simp_all
  have fits: "in_int64 (int ?c + 1)"
    using earlier_calls_bound [of E s ps u m] assms(3) by (simp add: in_int64_def)
  show ?thesis
  proof (cases "?c = 0")
    case True
    then have "w_redis w ?k = None" using c by (simp add: counted_def)
    then show ?thesis
      using True up fits time minute
      by (intro exI [of _ "?r + defaultWindowTTL"])
        (simp add: incrementWithTTLScript_def live_counter_def Let_def defaultWindowTTL_def algebra_simps)
  next
    case False
    then obtain x where x: "w_redis w ?k = Some \<lparr>rc_value = int ?c, rc_expires = Some x\<rparr>" "(m + 2) * time_minute \<le> x"
      using c by (auto simp: counted_def dest!: spec [of _ u] spec [of _ m])
    have "?r < x" using time minute x(2) by (simp add: algebra_simps)
    then show ?thesis
      using False up fits x
      by (intro exI [of _ x]) (simp add: incrementWithTTLScript_def live_counter_def Let_def)
  qed
qed

lemma Allow_step:
  assumes "steady E" and c: "counted E s ps w" and "int (length ps) < 2 ^ 63 - 1" and "0 < kp_RPMLimit p"
  obtains d w' where "Allow True p E w = (Inr d, w')" "counted E s (ps @ [p]) w'"
    "dec_Allowed d = (int (earlier_calls E s ps (kp_APIKeyID p) (call_minute E s (length ps))) < kp_RPMLimit p)"
proof -
  let ?m = "unix_minute (env_time E (w_step w))" and ?u = "kp_APIKeyID p"
  have step: "w_step w = s + 2 * length ps" using c by (simp add: counted_def)
  then have m: "call_minute E s (length ps) = ?m" by (simp add: call_minute_def)
  obtain x where x: "incrementWithTTLScript (limiter_key ?u ?m) defaultWindowTTL E (tick w) =
    (Inr (int (earlier_calls E s ps ?u ?m) + 1),
     (tick (tick w))\<lparr>w_redis := (w_redis w)(limiter_key ?u ?m \<mapsto> \<lparr>rc_value = int (earlier_calls E s ps ?u ?m) + 1, rc_expires = Some x\<rparr>)\<rparr>)"
    "(?m + 2) * time_minute \<le> x"
    using script_counts [OF assms(1-3), of ?u] by blast
  let ?w' = "(tick (tick w))\<lparr>w_redis := (w_redis w)(limiter_key ?u ?m \<mapsto> \<lparr>rc_value = int (earlier_calls E s ps ?u ?m) + 1, rc_expires = Some x\<rparr>)\<rparr>"
  obtain d where d: "Allow True p E w = (Inr d, ?w')" "dec_Allowed d = (int (earlier_calls E s ps ?u ?m) < kp_RPMLimit p)"
    using assms(4) x(1) by (auto simp: Allow_def Let_def act_simps add1_zle_eq)
  have "counted E s (ps @ [p]) ?w'"
    unfolding counted_def
  proof (intro conjI allI)
    fix u m
    have old: "if earlier_calls E s ps u m = 0 then w_redis w (limiter_key u m) = None
        else \<exists>x. w_redis w (limiter_key u m) = Some \<lparr>rc_value = int (earlier_calls E s ps u m), rc_expires = Some x\<rparr> \<and>
          (m + 2) * time_minute \<le> x" using c by (simp add: counted_def)
    show "if earlier_calls E s (ps @ [p]) u m = 0 then w_redis ?w' (limiter_key u m) = None
        else \<exists>x. w_redis ?w' (limiter_key u m) = Some \<lparr>rc_value = int (earlier_calls E s (ps @ [p]) u m), rc_expires = Some x\<rparr> \<and>
          (m + 2) * time_minute \<le> x"
    proof (cases "?u = u \<and> ?m = m")
      case True
      then show ?thesis using x(2) m by (auto simp: earlier_calls_snoc)
    next
      case False
      then show ?thesis using old m by (auto simp: earlier_calls_snoc limiter_key_inj)
    qed
  qed (simp add: step)
  then show thesis using that d m by simp
qed

text \<open>
  C19: The limiter admits in every minute exactly the first \<^verbatim>\<open>RPMLimit\<close> requests of a key, also when
  requests of other keys come in between: a request is allowed when fewer than the limit of the
  key came before it in the same minute, and each key and minute has a counter of its own.
\<close>

theorem rate_limit_exact:
  assumes "steady E" and "w_redis w = Map.empty" and "int (length ps) < 2 ^ 63" and "list_all (\<lambda>p. 0 < kp_RPMLimit p) ps"
  shows "\<exists>ds w'. allow_all ps E w = (Inr ds, w') \<and> length ds = length ps \<and>
    (\<forall>i < length ps. dec_Allowed (ds ! i) =
      (int (earlier_calls E (w_step w) (take i ps) (kp_APIKeyID (ps ! i)) (call_minute E (w_step w) i)) < kp_RPMLimit (ps ! i)))"
proof -
  have "\<exists>ds w'. allow_all ps E w = (Inr ds, w') \<and> counted E (w_step w) ps w' \<and> length ds = length ps \<and>
    (\<forall>i < length ps. dec_Allowed (ds ! i) =
      (int (earlier_calls E (w_step w) (take i ps) (kp_APIKeyID (ps ! i)) (call_minute E (w_step w) i)) < kp_RPMLimit (ps ! i)))"
    using assms(3,4)
  proof (induction ps rule: rev_induct)
    case Nil
    then show ?case using assms(2) by (simp add: act_simps counted_def earlier_calls_def)
  next
    case (snoc p ps)
    then obtain ds w1 where ih: "allow_all ps E w = (Inr ds, w1)" "counted E (w_step w) ps w1" "length ds = length ps"
      "\<forall>i < length ps. dec_Allowed (ds ! i) =
        (int (earlier_calls E (w_step w) (take i ps) (kp_APIKeyID (ps ! i)) (call_minute E (w_step w) i)) < kp_RPMLimit (ps ! i))"
      by auto
    obtain d w' where d: "Allow True p E w1 = (Inr d, w')" "counted E (w_step w) (ps @ [p]) w'"
      "dec_Allowed d = (int (earlier_calls E (w_step w) ps (kp_APIKeyID p) (call_minute E (w_step w) (length ps))) < kp_RPMLimit p)"
      using Allow_step [OF assms(1) ih(2), of p] snoc.prems by auto
    have "allow_all (ps @ [p]) E w = (Inr (ds @ [d]), w')"
      using ih(1) d(1) by (simp add: allow_all_snoc act_simps del: allow_all.simps)
    then show ?case using ih(3,4) d(2,3) by (auto simp: nth_append less_Suc_eq)
  qed
  then show ?thesis by blast
qed

definition two_a_minute :: APIKeyPrincipal where
  "two_a_minute = \<lparr>kp_OrgID = 1, kp_APIKeyID = 2, kp_Scopes = [], kp_RPMLimit = 2\<rparr>"

theorem rate_limit_exact_witness:
  "\<exists>ds w'. allow_all [two_a_minute, two_a_minute, two_a_minute] demo_env (world_of demo_db) = (Inr ds, w') \<and>
    dec_Allowed (ds ! 0) \<and> dec_Allowed (ds ! 1) \<and> \<not> dec_Allowed (ds ! 2)"
proof -
  let ?ps = "[two_a_minute, two_a_minute, two_a_minute]" and ?w = "world_of demo_db"
  have "steady demo_env" by (simp add: steady_def demo_env_def time_unit_defs)
  moreover have "w_redis ?w = Map.empty" by (simp add: world_of_def)
  moreover have "list_all (\<lambda>p. 0 < kp_RPMLimit p) ?ps" by (simp add: two_a_minute_def)
  ultimately obtain ds w' where run: "allow_all ?ps demo_env ?w = (Inr ds, w')"
    and all: "\<forall>i < length ?ps. dec_Allowed (ds ! i) = (int (earlier_calls demo_env (w_step ?w) (take i ?ps)
      (kp_APIKeyID (?ps ! i)) (call_minute demo_env (w_step ?w) i)) < kp_RPMLimit (?ps ! i))"
    using rate_limit_exact [of demo_env ?w ?ps] by auto
  have "map (\<lambda>i. int (earlier_calls demo_env (w_step ?w) (take i ?ps) (kp_APIKeyID (?ps ! i)) (call_minute demo_env (w_step ?w) i))
      < kp_RPMLimit (?ps ! i)) [0, 1, 2] = [True, True, False]"
    by code_simp
  then show ?thesis using run all [rule_format, of 0] all [rule_format, of 1] all [rule_format, of 2] by simp
qed

end
