(* ===== verification/Edge.thy ===== *)
theory Edge
  imports Gateway Sessions RateLimit
begin

text \<open>
  The HTTP edge: the middleware of \<^verbatim>\<open>internal/http/middleware\<close>, the audit log, the handler of the chat
  endpoint and the table of routes of \<^verbatim>\<open>internal/app/router.go\<close>. A handler takes and returns the
  context of the request; a middleware takes the rest of the chain, which \<^verbatim>\<open>c.Next\<close> runs. Matching
  of paths, decoding of UUIDs and the bytes of an event stream are parameters.
\<close>

section \<open>The context of a request\<close>

datatype request_body = NoBody | Body string | BodyTooLarge | BodyError

datatype reply =
    NoReply
  | ErrorReply string string string
  | ChatReply ChatCompletionResponse
  | EventStream "string list"
  | OtherReply

record gin_context =
  gc_Method :: string
  gc_Path :: string
  gc_Authorization :: string
  gc_RequestIDHeader :: string
  gc_Body :: request_body
  gc_ctx :: ctx
  gc_request_id :: string
  gc_admin_token_principal :: "AdminTokenPrincipal option"
  gc_api_key_principal :: "APIKeyPrincipal option"
  gc_audit_resource_type :: "string option"
  gc_audit_resource_id :: "uuid option"
  gc_audit_action :: "string option"
  gc_Status :: int
  gc_Reply :: reply

type_synonym handler = "gin_context \<Rightarrow> gin_context act"

definition reply_with :: "int \<Rightarrow> reply \<Rightarrow> gin_context \<Rightarrow> gin_context" where
  "reply_with status r c = c\<lparr>gc_Status := status, gc_Reply := r\<rparr>"

definition RequestID :: "handler \<Rightarrow> handler" where
  "RequestID next_handler c = (if gc_RequestIDHeader c = []
     then andThen new_uuid (\<lambda>u. next_handler (c\<lparr>gc_request_id := uuid_String u\<rparr>))
     else next_handler (c\<lparr>gc_request_id := gc_RequestIDHeader c\<rparr>))"

definition bearerToken :: "string \<Rightarrow> string option" where
  "bearerToken header = (if \<not> HasPrefix header ''Bearer '' then None
     else let token = TrimSpace (TrimPrefix header ''Bearer '') in if token = [] then None else Some token)"

definition abortWithError :: "int \<Rightarrow> string \<Rightarrow> string \<Rightarrow> handler" where
  "abortWithError status code message c = ret (reply_with status (ErrorReply code message (gc_request_id c)) c)"

definition abortUnauthorized :: handler where
  "abortUnauthorized = abortWithError 401 ''unauthorized'' ''unauthorized''"

fun normalizeError :: "err \<Rightarrow> int \<times> string \<times> string" where
  "normalizeError (DomainError status code message) = (status, code, message)"
| "normalizeError _ = (500, ''internal_error'', ''internal server error'')"

definition RespondError :: "err \<Rightarrow> handler" where
  "RespondError e c = (case normalizeError e of (status, code, message) \<Rightarrow> abortWithError status code message c)"

section \<open>Authentication and permissions\<close>

definition PlatformAuth :: "string \<Rightarrow> handler \<Rightarrow> handler" where
  "PlatformAuth expectedToken next_handler c = (case bearerToken (gc_Authorization c) of
     None \<Rightarrow> abortUnauthorized c
   | Some token \<Rightarrow> if token \<noteq> expectedToken then abortUnauthorized c else next_handler c)"

definition authenticate_admin :: "(string \<Rightarrow> AdminTokenPrincipal act) \<Rightarrow> (string \<Rightarrow> AdminTokenPrincipal act) \<Rightarrow> string \<Rightarrow> AdminTokenPrincipal act" where
  "authenticate_admin adminTokens sessions token =
     (if HasPrefix token AdminTokenPlainPrefix then adminTokens token
      else if HasPrefix token SessionPlainPrefix then sessions token
      else andThen (attempt (adminTokens token)) (\<lambda>r. case r of Inr p \<Rightarrow> ret p | Inl _ \<Rightarrow> sessions token))"

definition AdminAuth :: "(string \<Rightarrow> AdminTokenPrincipal act) \<Rightarrow> (string \<Rightarrow> AdminTokenPrincipal act) \<Rightarrow> handler \<Rightarrow> handler" where
  "AdminAuth adminTokens sessions next_handler c = (case bearerToken (gc_Authorization c) of
     None \<Rightarrow> abortUnauthorized c
   | Some token \<Rightarrow> andThen (attempt (authenticate_admin adminTokens sessions token)) (\<lambda>r. case r of
       Inl _ \<Rightarrow> abortUnauthorized c
     | Inr p \<Rightarrow> next_handler (c\<lparr>gc_admin_token_principal := Some p\<rparr>)))"

definition RequireAdminPermission :: "(AdminTokenPrincipal \<Rightarrow> bool) \<Rightarrow> handler \<Rightarrow> handler" where
  "RequireAdminPermission allowed next_handler c = (case gc_admin_token_principal c of
     None \<Rightarrow> abortUnauthorized c
   | Some p \<Rightarrow> if \<not> allowed p then abortWithError 403 ''forbidden'' ''forbidden'' c else next_handler c)"

definition GatewayAPIKeyAuth :: "(string \<Rightarrow> APIKeyPrincipal act) \<Rightarrow> handler \<Rightarrow> handler" where
  "GatewayAPIKeyAuth authenticator next_handler c = (case bearerToken (gc_Authorization c) of
     None \<Rightarrow> abortUnauthorized c
   | Some token \<Rightarrow> andThen (attempt (authenticator token)) (\<lambda>r. case r of
       Inl _ \<Rightarrow> abortUnauthorized c
     | Inr p \<Rightarrow> next_handler (c\<lparr>gc_api_key_principal := Some p\<rparr>)))"

definition RequireAPIKeyScope :: "string \<Rightarrow> handler \<Rightarrow> handler" where
  "RequireAPIKeyScope scope next_handler c = (case gc_api_key_principal c of
     None \<Rightarrow> abortUnauthorized c
   | Some p \<Rightarrow> if \<not> api_key_HasScope p scope then abortWithError 403 ''forbidden'' ''forbidden'' c else next_handler c)"

section \<open>Rate limiting\<close>

record chat_edge =
  ce_service :: chat_service
  ce_ParseUUID :: "string \<Rightarrow> uuid option"
  ce_flusher :: bool
  ce_write_ok :: "nat \<Rightarrow> bool"
  ce_events :: "ChatStreamResult \<Rightarrow> nat \<Rightarrow> (string \<times> StreamUsage option) list"
  ce_stream_err :: "ChatStreamResult \<Rightarrow> nat \<Rightarrow> err option"

definition parse_or_new :: "chat_edge \<Rightarrow> gin_context \<Rightarrow> uuid act" where
  "parse_or_new edge c = (case ce_ParseUUID edge (gc_request_id c) of Some u \<Rightarrow> ret u | None \<Rightarrow> new_uuid)"

text \<open>\<^verbatim>\<open>json.Unmarshal\<close> into a structure with one member, its error ignored.\<close>

fun probe_model :: "raw_json \<Rightarrow> string" where
  "probe_model (RawValid (JObj members)) = fold (\<lambda>(k, v) old. if ToLower k = ''model'' then (case v of JStr s \<Rightarrow> s | _ \<Rightarrow> old) else old) members []"
| "probe_model _ = []"

definition requestHashAndModel :: "chat_service \<Rightarrow> request_body \<Rightarrow> string \<times> string" where
  "requestHashAndModel svc b = (case b of
     Body body \<Rightarrow> if body = [] then ([], []) else (''sha256:'' @ gw_sha256_hex svc body, probe_model (gw_parse_json svc body))
   | _ \<Rightarrow> ([], []))"

definition recordRateLimitFailure :: "chat_edge \<Rightarrow> bool \<Rightarrow> APIKeyPrincipal \<Rightarrow> string \<Rightarrow> int \<Rightarrow> string \<Rightarrow> time \<Rightarrow> gin_context \<Rightarrow> unit act" where
  "recordRateLimitFailure edge recorder p status statusCode errorCode startedAt c =
     (if \<not> recorder then ret () else
      andThen (parse_or_new edge c) (\<lambda>requestID.
      andThen clock_now (\<lambda>t1. andThen clock_now (\<lambda>t2.
      andThen (attempt (RecordFailure (gw_metering (ce_service edge)) \<lparr>fi_RequestID = requestID, fi_OrgID = kp_OrgID p,
        fi_APIKeyID = Some (kp_APIKeyID p), fi_ProviderID = None, fi_ModelID = None, fi_RoutePolicyID = None,
        fi_Method = gc_Method c, fi_Path = gc_Path c, fi_RequestModel = snd (requestHashAndModel (ce_service edge) (gc_Body c)),
        fi_Status = status, fi_StatusCode = statusCode, fi_ErrorCode = errorCode,
        fi_RequestHash = fst (requestHashAndModel (ce_service edge) (gc_Body c)), fi_ResponseHash = [],
        fi_LatencyMS = latency_ms startedAt t1, fi_ProviderLatencyMS = None, fi_Metadata = None,
        fi_StartedAt = startedAt, fi_CompletedAt = t2\<rparr>)) (\<lambda>_. ret ())))))"

definition RateLimit_mw :: "chat_edge \<Rightarrow> (APIKeyPrincipal \<Rightarrow> RateDecision act) option \<Rightarrow> bool \<Rightarrow> handler \<Rightarrow> handler" where
  "RateLimit_mw edge limiter recorder next_handler c =
     andThen clock_now (\<lambda>startedAt. case gc_api_key_principal c of
       None \<Rightarrow> abortUnauthorized c
     | Some p \<Rightarrow> (case limiter of
         None \<Rightarrow> abortWithError 503 ''provider_unavailable'' ''rate limit service unavailable'' c
       | Some allow \<Rightarrow> andThen (attempt (allow p)) (\<lambda>r. case r of
           Inl _ \<Rightarrow> andThen (recordRateLimitFailure edge recorder p ''error'' 503 ''provider_unavailable'' startedAt c) (\<lambda>_.
             abortWithError 503 ''provider_unavailable'' ''rate limit service unavailable'' c)
         | Inr d \<Rightarrow> if \<not> dec_Allowed d then
               andThen (recordRateLimitFailure edge recorder p ''rate_limited'' 429 ''rate_limit_exceeded'' startedAt c) (\<lambda>_.
               abortWithError 429 ''rate_limit_exceeded'' ''rate limit exceeded'' c)
             else next_handler c)))"

section \<open>The audit log\<close>

definition InsertAdminAuditLog :: "AdminAuditLog \<Rightarrow> AdminAuditLog act" where
  "InsertAdminAuditLog r = sql_insert (\<lambda>db.
     [(\<not> list_ex (\<lambda>x. al_ID x = al_ID r) (admin_audit_logs db), UniqueViolation),
      (al_Action r \<noteq> [] \<and> al_ResourceType r \<noteq> [] \<and> al_RequestID r \<noteq> [] \<and>
         (al_ActorAdminTokenID r = None) \<noteq> (al_ActorUserID r = None), CheckViolation),
      (org_exists db (al_OrgID r) \<and>
         (case al_ActorAdminTokenID r of None \<Rightarrow> True
          | Some t \<Rightarrow> list_ex (\<lambda>x. at_OrgID x = al_OrgID r \<and> at_ID x = t) (admin_tokens db)) \<and>
         (case al_ActorUserID r of None \<Rightarrow> True | Some u \<Rightarrow> is_member db (al_OrgID r) u), ForeignKeyViolation)])
     (\<lambda>r db. db\<lparr>admin_audit_logs := admin_audit_logs db @ [r]\<rparr>) r"

definition ListAdminAuditLogs :: "uuid \<Rightarrow> int \<Rightarrow> int \<Rightarrow> AdminAuditLog list act" where
  "ListAdminAuditLogs org limit offset = db_read (\<lambda>db.
     if limit < 0 \<or> offset < 0 then Inl NumericOutOfRange
     else Inr (take (nat limit) (drop (nat offset)
       (SliceStable (newest_first al_CreatedAt al_ID) (filter (\<lambda>r. al_OrgID r = org) (admin_audit_logs db))))))"

record RecordInput =
  au_OrgID :: uuid
  au_ActorAdminTokenID :: "uuid option"
  au_ActorUserID :: "uuid option"
  au_Action :: string
  au_ResourceType :: string
  au_ResourceID :: "uuid option"
  au_RequestID :: string

definition no_actor :: "uuid option \<Rightarrow> bool" where
  "no_actor a \<longleftrightarrow> a = None \<or> a = Some uuid_Nil"

definition Audit_Record :: "RecordInput \<Rightarrow> AdminAuditLog act" where
  "Audit_Record i =
     (if au_OrgID i = uuid_Nil then fail (ErrMsg ''org_id is required'')
      else if no_actor (au_ActorAdminTokenID i) \<and> no_actor (au_ActorUserID i) then fail (ErrMsg ''actor is required'')
      else if au_ActorAdminTokenID i \<noteq> None \<and> au_ActorUserID i \<noteq> None then fail (ErrMsg ''only one actor is allowed'')
      else if au_Action i = [] then fail (ErrMsg ''action is required'')
      else if au_ResourceType i = [] then fail (ErrMsg ''resource_type is required'')
      else andThen (if au_RequestID i = [] then andThen new_uuid (\<lambda>u. ret (uuid_String u)) else ret (au_RequestID i)) (\<lambda>requestID.
        andThen new_uuid (\<lambda>u.
        andThen clock_now (\<lambda>now.
        InsertAdminAuditLog \<lparr>al_ID = u, al_OrgID = au_OrgID i, al_ActorAdminTokenID = au_ActorAdminTokenID i, al_Action = au_Action i,
          al_ResourceType = au_ResourceType i, al_ResourceID = au_ResourceID i, al_RequestID = requestID, al_CreatedAt = now,
          al_ActorUserID = au_ActorUserID i\<rparr>))))"

definition isAdminMutation :: "string \<Rightarrow> bool" where
  "isAdminMutation m \<longleftrightarrow> m \<in> {''POST'', ''PATCH'', ''PUT'', ''DELETE''}"

definition defaultAuditAction :: "string \<Rightarrow> string \<Rightarrow> string" where
  "defaultAuditAction m resourceType =
     (if m = ''POST'' then ''create_'' @ resourceType
      else if m = ''PATCH'' \<or> m = ''PUT'' then ''update_'' @ resourceType
      else if m = ''DELETE'' then ''delete_'' @ resourceType else resourceType)"

definition auditStringValue :: "string option \<Rightarrow> string option" where
  "auditStringValue v = (case v of None \<Rightarrow> None | Some s \<Rightarrow> if s = [] then None else Some s)"

definition audit_input :: "AdminTokenPrincipal \<Rightarrow> string \<Rightarrow> gin_context \<Rightarrow> RecordInput" where
  "audit_input p resourceType c =
     (let user = (if IsUser p then atp_UserID p else None) in
      \<lparr>au_OrgID = atp_OrgID p, au_ActorAdminTokenID = (if user = None then Some (atp_AdminTokenID p) else None), au_ActorUserID = user,
       au_Action = (case auditStringValue (gc_audit_action c) of Some a \<Rightarrow> a | None \<Rightarrow> defaultAuditAction (gc_Method c) resourceType),
       au_ResourceType = resourceType, au_ResourceID = gc_audit_resource_id c, au_RequestID = gc_request_id c\<rparr>)"

definition AdminAudit :: "bool \<Rightarrow> handler \<Rightarrow> handler" where
  "AdminAudit service next_handler c = andThen (next_handler c) (\<lambda>c.
     if \<not> service \<or> \<not> isAdminMutation (gc_Method c) \<or> 400 \<le> gc_Status c then ret c
     else case gc_admin_token_principal c of
       None \<Rightarrow> ret c
     | Some p \<Rightarrow> (case auditStringValue (gc_audit_resource_type c) of
         None \<Rightarrow> ret c
       | Some resourceType \<Rightarrow> andThen (attempt (Audit_Record (audit_input p resourceType c))) (\<lambda>_. ret c)))"

section \<open>The chat endpoint\<close>

fun probe_stream :: "(string \<times> json) list \<Rightarrow> bool \<Rightarrow> bool outcome" where
  "probe_stream [] b = Inr b"
| "probe_stream ((k, v) # rest) b = (if ToLower k = ''stream''
     then (case decode_bool v b of Inl e \<Rightarrow> Inl e | Inr b' \<Rightarrow> probe_stream rest b') else probe_stream rest b)"

fun wants_stream :: "raw_json \<Rightarrow> bool outcome" where
  "wants_stream (RawValid (JObj members)) = probe_stream members False"
| "wants_stream (RawValid JNull) = Inr False"
| "wants_stream _ = Inl ErrJSON"

text \<open>The loop over the events: the usage of the last event that has one, until a write fails.\<close>

fun pump :: "(nat \<Rightarrow> bool) \<Rightarrow> nat \<Rightarrow> (string \<times> StreamUsage option) list \<Rightarrow> StreamUsage option \<Rightarrow> string list \<times> StreamUsage option" where
  "pump ok i [] usage = ([], usage)"
| "pump ok i ((data, u) # events) usage =
     (let usage' = (case u of None \<Rightarrow> usage | Some x \<Rightarrow> Some x) in
      if \<not> ok i then ([], usage') else case pump ok (Suc i) events usage' of (out, final) \<Rightarrow> (data # out, final))"

definition createStream :: "chat_edge \<Rightarrow> ChatInput \<Rightarrow> handler" where
  "createStream edge input c =
     andThen (attempt (StreamChat (ce_service edge) input)) (\<lambda>r. case r of
       Inl e \<Rightarrow> RespondError e c
     | Inr result \<Rightarrow>
         if \<not> ce_flusher edge then abortWithError 500 ''internal_error'' ''streaming is not supported'' c
         else andThen (\<lambda>E w. (Inr (ce_events edge result (w_step w), ce_stream_err edge result (w_step w)), tick w)) (\<lambda>(events, streamErr).
           case pump (ce_write_ok edge) 0 events None of (out, usage) \<Rightarrow>
           andThen (attempt (FinalizeStream (ce_service edge) result usage streamErr)) (\<lambda>_.
           ret (reply_with 200 (EventStream out) c))))"

definition ChatCompletions_Create :: "chat_edge \<Rightarrow> handler" where
  "ChatCompletions_Create edge c = (case gc_api_key_principal c of
     None \<Rightarrow> abortUnauthorized c
   | Some p \<Rightarrow> (case gc_Body c of
       NoBody \<Rightarrow> fail Panic
     | BodyTooLarge \<Rightarrow> abortWithError 413 ''invalid_request'' ''request body too large'' c
     | BodyError \<Rightarrow> abortWithError 400 ''invalid_request'' ''invalid request body'' c
     | Body body \<Rightarrow> andThen (parse_or_new edge c) (\<lambda>requestID.
         case wants_stream (gw_parse_json (ce_service edge) body) of
           Inl _ \<Rightarrow> abortWithError 400 ''invalid_request'' ''invalid JSON body'' c
         | Inr stream \<Rightarrow>
             let input = \<lparr>in_RequestID = requestID, in_Principal = p, in_Method = gc_Method c, in_Path = gc_Path c,
                   in_RawBody = body, in_ctx = gc_ctx c\<rparr> in
             if stream then createStream edge input c
             else andThen (attempt (Chat (ce_service edge) input)) (\<lambda>r. case r of
               Inl e \<Rightarrow> RespondError e c
             | Inr response \<Rightarrow> ret (reply_with 200 (ChatReply response) c)))))"

section \<open>The routes\<close>

datatype permission = Authenticated | ManageMembers | ViewMembers | ManageTokens | ManageConfiguration | View

datatype guard = Open | Platform | Console permission | GatewayKey

record RouterConfig =
  ro_AppEnv :: string
  ro_PlatformBootstrapToken :: string
  ro_mac :: mac_fun
  ro_TokenHashKeyRing :: "TokenHashKeyRing option"
  ro_Store :: bool
  ro_RateLimiter :: "(APIKeyPrincipal \<Rightarrow> RateDecision act) option"
  ro_magic_links :: bool

definition platform_routes :: "(string \<times> string \<times> guard) list" where
  "platform_routes = [(''POST'', ''/api/v1/platform/orgs'', Platform), (''POST'', ''/api/v1/platform/orgs/:org_id/admin-tokens'', Platform)]"

definition public_routes :: "RouterConfig \<Rightarrow> (string \<times> string \<times> guard) list" where
  "public_routes cfg =
     (if ro_AppEnv cfg \<noteq> ''production'' then [(''POST'', ''/api/v1/admin/sessions/passwordless-mock'', Open)] else []) @
     (if ro_magic_links cfg then [(''POST'', ''/api/v1/admin/sessions/passwordless/request'', Open),
       (''POST'', ''/api/v1/admin/sessions/passwordless/verify'', Open)] else [])"

definition console_routes :: "(string \<times> string \<times> permission) list" where
  "console_routes =
    [(''GET'', ''/me'', Authenticated),
     (''POST'', ''/members'', ManageMembers), (''GET'', ''/members'', ViewMembers),
     (''POST'', ''/api-keys'', ManageTokens), (''GET'', ''/api-keys'', ManageTokens), (''POST'', ''/api-keys/:api_key_id/revoke'', ManageTokens),
     (''POST'', ''/providers'', ManageConfiguration), (''GET'', ''/providers'', ManageConfiguration),
     (''GET'', ''/providers/health'', ManageConfiguration), (''POST'', ''/providers/:provider_id/health-check'', ManageConfiguration),
     (''POST'', ''/models'', ManageConfiguration), (''GET'', ''/models'', ManageConfiguration),
     (''PATCH'', ''/models/:model_id/pricing'', ManageConfiguration), (''GET'', ''/models/:model_id/pricing-versions'', ManageConfiguration),
     (''POST'', ''/route-policies'', ManageConfiguration), (''GET'', ''/route-policies'', ManageConfiguration),
     (''POST'', ''/budgets'', ManageConfiguration), (''GET'', ''/budgets'', ManageConfiguration), (''GET'', ''/budgets/status'', ManageConfiguration),
     (''POST'', ''/budget-alerts'', ManageConfiguration), (''GET'', ''/budget-alerts'', ManageConfiguration),
     (''GET'', ''/budget-alert-deliveries'', ManageConfiguration),
     (''POST'', ''/anomaly-policies'', ManageConfiguration), (''GET'', ''/anomaly-policies'', ManageConfiguration),
     (''POST'', ''/content-policies'', ManageConfiguration), (''GET'', ''/content-policies'', ManageConfiguration),
     (''GET'', ''/audit-logs'', View), (''GET'', ''/cache-events'', View), (''GET'', ''/request-logs'', View), (''GET'', ''/usage/summary'', View),
     (''GET'', ''/analytics/daily-cost'', View), (''GET'', ''/analytics/model-cost-breakdown'', View),
     (''GET'', ''/analytics/provider-latency'', View), (''GET'', ''/analytics/error-rate'', View)]"

definition routes :: "RouterConfig \<Rightarrow> (string \<times> string \<times> guard) list" where
  "routes cfg = [(''GET'', ''/healthz'', Open)] @ (if ro_AppEnv cfg \<noteq> ''production'' then [(''GET'', ''/metrics'', Open)] else []) @
     (if \<not> ro_Store cfg then [] else
        platform_routes @ public_routes cfg @ map (\<lambda>(m, path, perm). (m, ''/api/v1/admin'' @ path, Console perm)) console_routes @
        (case ro_RateLimiter cfg of None \<Rightarrow> [] | Some _ \<Rightarrow> [(''POST'', ''/v1/chat/completions'', GatewayKey)]))"

fun permits :: "permission \<Rightarrow> AdminTokenPrincipal \<Rightarrow> bool" where
  "permits Authenticated p = True"
| "permits ManageMembers p = CanManageMembers p"
| "permits ViewMembers p = CanViewMembers p"
| "permits ManageTokens p = CanManageTokens p"
| "permits ManageConfiguration p = CanManageConfiguration p"
| "permits View p = CanView p"

definition session_service :: "RouterConfig \<Rightarrow> SessionService" where
  "session_service cfg = \<lparr>sv_store = ro_Store cfg, sv_mac = ro_mac cfg, sv_hashKeyRing = ro_TokenHashKeyRing cfg, sv_ttl = defaultSessionTTL\<rparr>"

definition console_authenticate :: "RouterConfig \<Rightarrow> string \<Rightarrow> AdminTokenPrincipal act" where
  "console_authenticate cfg = authenticate_admin (AdminToken_Authenticate (ro_mac cfg) (ro_TokenHashKeyRing cfg))
     (Session_Authenticate (session_service cfg))"

text \<open>The middleware in front of a handler, in the order the groups add it.\<close>

fun guarded :: "RouterConfig \<Rightarrow> chat_edge \<Rightarrow> guard \<Rightarrow> handler \<Rightarrow> handler" where
  "guarded cfg edge Open h = h"
| "guarded cfg edge Platform h = PlatformAuth (ro_PlatformBootstrapToken cfg) h"
| "guarded cfg edge (Console perm) h =
     AdminAuth (AdminToken_Authenticate (ro_mac cfg) (ro_TokenHashKeyRing cfg)) (Session_Authenticate (session_service cfg))
       (AdminAudit True (if perm = Authenticated then h else RequireAdminPermission (permits perm) h))"
| "guarded cfg edge GatewayKey h =
     GatewayAPIKeyAuth (APIKey_Authenticate (ro_mac cfg) (ro_TokenHashKeyRing cfg))
       (RequireAPIKeyScope ''chat.completions'' (RateLimit_mw edge (ro_RateLimiter cfg) True h))"

definition serve :: "RouterConfig \<Rightarrow> chat_edge \<Rightarrow> guard \<Rightarrow> handler \<Rightarrow> handler" where
  "serve cfg edge g h = RequestID (guarded cfg edge g h)"

end
