(* ===== verification/Access.thy ===== *)
theory Access
  imports Edge
begin

text \<open>
  Who gets through the edge: what stands in front of every handler of the route table, and what
  the audit log records of the changes that were made.
\<close>

section \<open>The chat endpoint\<close>

lemma recordRateLimitFailure_Inr: "\<exists>w'. recordRateLimitFailure edge recorder p status code err startedAt c E w = (Inr (), w')"
proof (cases recorder)
  case True
  obtain u w1 where "parse_or_new edge c E w = (Inr u, w1)"
    by (cases "ce_ParseUUID edge (gc_request_id c)") (auto simp: parse_or_new_def act_simps)
  then show ?thesis using True by (simp add: recordRateLimitFailure_def act_simps split: prod.split)
qed (simp add: recordRateLimitFailure_def act_simps)

text \<open>A request was turned away: no handler has run.\<close>

definition refused_with :: "int set \<Rightarrow> (handler \<Rightarrow> gin_context outcome \<times> world) \<Rightarrow> bool" where
  "refused_with codes run \<longleftrightarrow> (\<exists>c w. gc_Status c \<in> codes \<and> (\<forall>h. run h = (Inr c, w)))"

lemma refused_withI: "gc_Status c \<in> codes \<Longrightarrow> (\<And>h. run h = (Inr c, w)) \<Longrightarrow> refused_with codes run"
  by (auto simp: refused_with_def)

lemma abort_status [simp]: "abortWithError s code message c E w = (Inr (reply_with s (ErrorReply code message (gc_request_id c)) c), w)"
  "abortUnauthorized c E w = (Inr (reply_with 401 (ErrorReply ''unauthorized'' ''unauthorized'' (gc_request_id c)) c), w)"
  by (simp_all add: abortWithError_def abortUnauthorized_def ret_def)

lemma reply_status [simp]: "gc_Status (reply_with s r c) = s"
  by (simp add: reply_with_def)

lemma limited_cases:
  assumes "gc_api_key_principal c = Some p"
  obtains (turned_away) "refused_with {429, 503} (\<lambda>h. RateLimit_mw edge limiter recorder h c E w)"
  | (allowed) allow d w1 where "limiter = Some allow" "allow p E (tick w) = (Inr d, w1)" "dec_Allowed d"
      "\<And>h. RateLimit_mw edge limiter recorder h c E w = h c E w1"
proof (cases limiter)
  case None
  then have "refused_with {429, 503} (\<lambda>h. RateLimit_mw edge limiter recorder h c E w)"
    using assms by (intro refused_withI) (auto simp: RateLimit_mw_def act_simps)
  then show ?thesis by (rule turned_away)
next
  case (Some allow)
  obtain r w1 where r: "allow p E (tick w) = (r, w1)" by fastforce
  let ?t = "env_time E (w_step w)"
  obtain w2 where w2: "recordRateLimitFailure edge recorder p ''error'' 503 ''provider_unavailable'' ?t c E w1 = (Inr (), w2)"
    using recordRateLimitFailure_Inr by blast
  obtain w3 where w3: "recordRateLimitFailure edge recorder p ''rate_limited'' 429 ''rate_limit_exceeded'' ?t c E w1 = (Inr (), w3)"
    using recordRateLimitFailure_Inr by blast
  consider (down) e where "r = Inl e" | (over) d where "r = Inr d" "\<not> dec_Allowed d" | (ok) d where "r = Inr d" "dec_Allowed d"
    by (cases r) auto
  then show ?thesis
  proof cases
    case down
    then have "refused_with {429, 503} (\<lambda>h. RateLimit_mw edge limiter recorder h c E w)"
      using assms Some r w2 by (intro refused_withI) (auto simp: RateLimit_mw_def act_simps)
    then show ?thesis by (rule turned_away)
  next
    case over
    then have "refused_with {429, 503} (\<lambda>h. RateLimit_mw edge limiter recorder h c E w)"
      using assms Some r w3 by (intro refused_withI) (auto simp: RateLimit_mw_def act_simps)
    then show ?thesis by (rule turned_away)
  next
    case ok
    then show ?thesis using assms Some r by (intro allowed [OF Some r [unfolded ok(1)] ok(2)]) (simp add: RateLimit_mw_def act_simps)
  qed
qed

text \<open>
  C16: What a request needs to reach the chat service. The edge turns it away with a status of its own
  before any handler runs, or the bearer token belongs to an API key of the database that is
  active and not expired, the key has the scope of the endpoint, and the rate limiter has
  admitted the request; the service then sees the principal of exactly this key.
\<close>

theorem gateway_admission:
  "refused_with {401, 403, 429, 503} (\<lambda>h. guarded cfg edge GatewayKey h c E w) \<or>
   (\<exists>token hashes k n allow d w1 w2.
      bearerToken (gc_Authorization c) = Some token \<and>
      CandidateHashes (ro_mac cfg) (ro_TokenHashKeyRing cfg) (TrimSpace token) = Inr hashes \<and>
      k \<in> set (api_keys (w_db w)) \<and> ak_KeyHash k \<in> set hashes \<and> ak_Status k = ''active'' \<and>
      w_step w \<le> n \<and> n < w_step w1 \<and> \<not> expired (ak_ExpiresAt k) (env_time E n) \<and>
      api_key_HasScope (principal_of k) ''chat.completions'' \<and>
      ro_RateLimiter cfg = Some allow \<and> allow (principal_of k) E w1 = (Inr d, w2) \<and> dec_Allowed d \<and>
      (\<forall>h. guarded cfg edge GatewayKey h c E w = h (c\<lparr>gc_api_key_principal := Some (principal_of k)\<rparr>) E w2))"
proof (cases "bearerToken (gc_Authorization c)")
  case None
  then show ?thesis by (intro disjI1 refused_withI) (auto simp: GatewayAPIKeyAuth_def)
next
  case token: (Some token)
  obtain r w1 where r: "APIKey_Authenticate (ro_mac cfg) (ro_TokenHashKeyRing cfg) token E w = (r, w1)" by fastforce
  have run: "guarded cfg edge GatewayKey h c E w = (case r of Inl _ \<Rightarrow> abortUnauthorized c E w1
    | Inr p \<Rightarrow> RequireAPIKeyScope ''chat.completions'' (RateLimit_mw edge (ro_RateLimiter cfg) True h) (c\<lparr>gc_api_key_principal := Some p\<rparr>) E w1)" for h
    using token r by (simp add: GatewayAPIKeyAuth_def act_simps split: sum.split)
  show ?thesis
  proof (cases r)
    case (Inl e)
    then show ?thesis using run by (intro disjI1 refused_withI) auto
  next
    case (Inr p)
    obtain hashes k n where k: "CandidateHashes (ro_mac cfg) (ro_TokenHashKeyRing cfg) (TrimSpace token) = Inr hashes"
      "k \<in> set (api_keys (w_db w))" "ak_KeyHash k \<in> set hashes" "ak_Status k = ''active''"
      "\<not> expired (ak_ExpiresAt k) (env_time E n)" "p = principal_of k" "w_step w \<le> n" "n < w_step w1"
      by (rule APIKey_Authenticate_sound [OF r [unfolded Inr]]) blast
    let ?c = "c\<lparr>gc_api_key_principal := Some p\<rparr>"
    show ?thesis
    proof (cases "api_key_HasScope p ''chat.completions''")
      case False
      then show ?thesis using run Inr by (intro disjI1 refused_withI) (auto simp: RequireAPIKeyScope_def)
    next
      case scope: True
      then have step: "guarded cfg edge GatewayKey h c E w = RateLimit_mw edge (ro_RateLimiter cfg) True h ?c E w1" for h
        using run Inr by (simp add: RequireAPIKeyScope_def)
      have "gc_api_key_principal ?c = Some p" by simp
      then show ?thesis
      proof (cases rule: limited_cases [of ?c p edge "ro_RateLimiter cfg" True E w1])
        case turned_away
        then show ?thesis unfolding step by (intro disjI1) (auto simp: refused_with_def)
      next
        case (allowed allow d w2)
        have "n < w_step (tick w1)" using k(8) by simp
        moreover have "guarded cfg edge GatewayKey h c E w = h (c\<lparr>gc_api_key_principal := Some (principal_of k)\<rparr>) E w2" for h
          using allowed(4) unfolding step k(6) .
        ultimately show ?thesis
          using token k(1-5,7) scope allowed(1-3) unfolding k(6) by blast
      qed
    qed
  qed
qed

section \<open>The console\<close>

lemma console_table:
  "list_all (\<lambda>(m, path, perm). isAdminMutation m \<longrightarrow> perm \<in> {ManageMembers, ManageTokens, ManageConfiguration}) console_routes"
  "list_all (\<lambda>(m, path, perm). \<not> HasPrefix path ''/sessions/'') console_routes"
  by code_simp+

lemma routes_under_admin:
  assumes "(m, ''/api/v1/admin'' @ path, g) \<in> set (routes cfg)" and "\<not> HasPrefix path ''/sessions/passwordless''"
  obtains perm where "g = Console perm" "(m, path, perm) \<in> set console_routes"
proof -
  have "(m, ''/api/v1/admin'' @ path, g) \<notin> set (public_routes cfg)"
    using assms(2) by (auto simp: public_routes_def HasPrefix_def)
  moreover have "(m, ''/api/v1/admin'' @ path, g) \<notin> set platform_routes" by (auto simp: platform_routes_def)
  ultimately have "(m, ''/api/v1/admin'' @ path, g) \<in> (\<lambda>(m, path, perm). (m, ''/api/v1/admin'' @ path, Console perm)) ` set console_routes"
    using assms(1) by (auto simp: routes_def split: if_splits option.splits)
  then show thesis using that by auto
qed

lemma viewer_permissions:
  assumes "IsUser p" "permits perm p" "perm \<in> {ManageMembers, ManageTokens, ManageConfiguration}"
  shows "atp_Role p = ''owner'' \<or> atp_Role p = ''admin''"
  using assms by (auto simp: IsUser_def IsServiceToken_def CanManageMembers_def CanManageTokens_def CanManageConfiguration_def)

lemma audited_abort: "400 \<le> s \<Longrightarrow> AdminAudit b (abortWithError s code message) c E w =
  (Inr (reply_with s (ErrorReply code message (gc_request_id c)) c), w)"
  by (simp add: AdminAudit_def act_simps)

lemma console_cases:
  obtains (turned_away) "refused_with {401, 403} (\<lambda>h. guarded cfg edge (Console perm) h c E w)"
  | (admitted) token p w1 where "bearerToken (gc_Authorization c) = Some token" "console_authenticate cfg token E w = (Inr p, w1)"
      "permits perm p" "\<And>h. guarded cfg edge (Console perm) h c E w = AdminAudit True h (c\<lparr>gc_admin_token_principal := Some p\<rparr>) E w1"
proof (cases "bearerToken (gc_Authorization c)")
  case None
  then have "refused_with {401, 403} (\<lambda>h. guarded cfg edge (Console perm) h c E w)"
    by (intro refused_withI) (auto simp: AdminAuth_def)
  then show ?thesis by (rule turned_away)
next
  case token: (Some token)
  obtain r w1 where r: "console_authenticate cfg token E w = (r, w1)" by fastforce
  let ?inner = "\<lambda>h. if perm = Authenticated then h else RequireAdminPermission (permits perm) h"
  have run: "guarded cfg edge (Console perm) h c E w = (case r of Inl _ \<Rightarrow> abortUnauthorized c E w1
    | Inr p \<Rightarrow> AdminAudit True (?inner h) (c\<lparr>gc_admin_token_principal := Some p\<rparr>) E w1)" for h
    using token r by (simp add: AdminAuth_def console_authenticate_def act_simps split: sum.split)
  show ?thesis
  proof (cases r)
    case (Inl e)
    then have "refused_with {401, 403} (\<lambda>h. guarded cfg edge (Console perm) h c E w)"
      unfolding run by (intro refused_withI) auto
    then show ?thesis by (rule turned_away)
  next
    case (Inr p)
    let ?c = "c\<lparr>gc_admin_token_principal := Some p\<rparr>"
    show ?thesis
    proof (cases "permits perm p")
      case True
      have "AdminAudit True (?inner h) ?c E w1 = AdminAudit True h ?c E w1" for h
        using True by (simp add: AdminAudit_def RequireAdminPermission_def act_simps)
      then show ?thesis using token r Inr True run by (intro admitted) auto
    next
      case False
      then have "AdminAudit True (?inner h) ?c E w1 = AdminAudit True (abortWithError 403 ''forbidden'' ''forbidden'') ?c E w1" for h
        by (cases perm) (auto simp: AdminAudit_def RequireAdminPermission_def act_simps)
      then have "refused_with {401, 403} (\<lambda>h. guarded cfg edge (Console perm) h c E w)"
        using run Inr by (intro refused_withI) (auto simp: audited_abort)
      then show ?thesis by (rule turned_away)
    qed
  qed
qed

text \<open>
  C17: The console is closed to strangers and read-only for viewers. Every route under
  \<^verbatim>\<open>/api/v1/admin\<close> but the passwordless login answers 401 or 403 without running its handler, or runs it
  for a principal that the bearer token authenticated and that has the permission of the route;
  a user who reaches a handler of a changing method is an owner or an administrator.
\<close>

theorem console_needs_permission:
  assumes "(m, ''/api/v1/admin'' @ path, g) \<in> set (routes cfg)" and "\<not> HasPrefix path ''/sessions/passwordless''"
  shows "refused_with {401, 403} (\<lambda>h. guarded cfg edge g h c E w) \<or>
    (\<exists>perm token p w1. g = Console perm \<and> bearerToken (gc_Authorization c) = Some token \<and>
       console_authenticate cfg token E w = (Inr p, w1) \<and> permits perm p \<and>
       (isAdminMutation m \<and> IsUser p \<longrightarrow> atp_Role p = ''owner'' \<or> atp_Role p = ''admin'') \<and>
       (\<forall>h. guarded cfg edge g h c E w = AdminAudit True h (c\<lparr>gc_admin_token_principal := Some p\<rparr>) E w1))"
proof -
  obtain perm where perm: "g = Console perm" "(m, path, perm) \<in> set console_routes"
    using assms by (rule routes_under_admin)
  show ?thesis
  proof (cases rule: console_cases [of cfg edge perm c E w])
    case turned_away
    then show ?thesis using perm by simp
  next
    case (admitted token p w1)
    have "isAdminMutation m \<and> IsUser p \<longrightarrow> atp_Role p = ''owner'' \<or> atp_Role p = ''admin''"
      using console_table(1) perm(2) viewer_permissions [OF _ admitted(3)] by (auto simp: list_all_iff)
    then show ?thesis using admitted perm(1) by blast
  qed
qed

definition demo_router :: RouterConfig where
  "demo_router = \<lparr>ro_AppEnv = ''production'', ro_PlatformBootstrapToken = ''secret'', ro_mac = demo_mac,
     ro_TokenHashKeyRing = Some \<lparr>hk_activeVersion = 1, hk_hashers = [(1, ''old'')]\<rparr>, ro_Store = True,
     ro_RateLimiter = Some (Allow True), ro_magic_links = True\<rparr>"

definition demo_edge :: chat_edge where
  "demo_edge = \<lparr>ce_service = demo_chat_service, ce_ParseUUID = (\<lambda>_. None), ce_flusher = True, ce_write_ok = (\<lambda>_. True),
     ce_events = (\<lambda>_ _. []), ce_stream_err = (\<lambda>_ _. None)\<rparr>"

definition demo_request :: gin_context where
  "demo_request = \<lparr>gc_Method = ''POST'', gc_Path = ''/api/v1/admin/budgets'', gc_Authorization = ''Bearer nobody'', gc_RequestIDHeader = ''r1'',
     gc_Body = Body ''{}'', gc_ctx = (\<lambda>_. None), gc_request_id = ''r1'', gc_admin_token_principal = None, gc_api_key_principal = None,
     gc_audit_resource_type = None, gc_audit_resource_id = None, gc_audit_action = None, gc_Status = 200, gc_Reply = NoReply\<rparr>"

lemma demo_stranger: "\<not> is_ok (fst (console_authenticate demo_router ''nobody'' demo_env (world_of demo_db)))"
  by code_simp

theorem console_needs_permission_witness:
  "refused_with {401, 403} (\<lambda>h. guarded demo_router demo_edge (Console ManageConfiguration) h demo_request demo_env (world_of demo_db))"
proof -
  have route: "(''POST'', ''/api/v1/admin'' @ ''/budgets'', Console ManageConfiguration) \<in> set (routes demo_router)"
    by (simp add: routes_def demo_router_def console_routes_def)
  have "\<not> HasPrefix ''/budgets'' ''/sessions/passwordless''" by (simp add: HasPrefix_def)
  moreover have "bearerToken (gc_Authorization demo_request) = Some ''nobody''" by code_simp
  ultimately show ?thesis
    using console_needs_permission [OF route, of demo_edge demo_request demo_env "world_of demo_db"] demo_stranger by auto
qed

section \<open>The audit log\<close>

text \<open>What an entry says of a change, and whose entries the log accepts.\<close>

definition audit_entry :: "AdminTokenPrincipal \<Rightarrow> string \<Rightarrow> gin_context \<Rightarrow> AdminAuditLog \<Rightarrow> bool" where
  "audit_entry p resourceType c l \<longleftrightarrow> al_OrgID l = atp_OrgID p \<and> al_ResourceType l = resourceType \<and> al_ResourceID l = gc_audit_resource_id c \<and>
     al_RequestID l = gc_request_id c \<and> al_ActorUserID l = (if IsUser p then atp_UserID p else None) \<and>
     al_ActorAdminTokenID l = (if al_ActorUserID l = None then Some (atp_AdminTokenID p) else None)"

definition known_actor :: "database \<Rightarrow> AdminTokenPrincipal \<Rightarrow> bool" where
  "known_actor db p \<longleftrightarrow> atp_OrgID p \<noteq> uuid_Nil \<and> org_exists db (atp_OrgID p) \<and>
     (case (if IsUser p then atp_UserID p else None) of
        Some u \<Rightarrow> u \<noteq> uuid_Nil \<and> is_member db (atp_OrgID p) u
      | None \<Rightarrow> atp_AdminTokenID p \<noteq> uuid_Nil \<and> list_ex (\<lambda>t. at_OrgID t = atp_OrgID p \<and> at_ID t = atp_AdminTokenID p) (admin_tokens db))"

lemma Audit_Record_known:
  assumes "healthy E" and "known_actor (w_db w) p" and "resourceType \<noteq> []" "gc_request_id c \<noteq> []" "isAdminMutation (gc_Method c)"
    and "\<forall>n. env_uuid E n \<notin> al_ID ` set (admin_audit_logs (w_db w))"
  obtains l w' where "Audit_Record (audit_input p resourceType c) E w = (Inr l, w')" "audit_entry p resourceType c l"
    "w_db w' = (w_db w)\<lparr>admin_audit_logs := admin_audit_logs (w_db w) @ [l]\<rparr>"
proof -
  let ?i = "audit_input p resourceType c"
  have action: "au_Action ?i \<noteq> []"
    by (auto simp: audit_input_def Let_def auditStringValue_def defaultAuditAction_def split: option.splits if_splits)
      (use assms(5) in \<open>auto simp: isAdminMutation_def\<close>)
  let ?l = "\<lparr>al_ID = env_uuid E (w_step w), al_OrgID = atp_OrgID p, al_ActorAdminTokenID = au_ActorAdminTokenID ?i, al_Action = au_Action ?i,
    al_ResourceType = resourceType, al_ResourceID = gc_audit_resource_id c, al_RequestID = gc_request_id c,
    al_CreatedAt = env_time E (Suc (w_step w)), al_ActorUserID = au_ActorUserID ?i\<rparr>"
  have org: "au_OrgID ?i = atp_OrgID p" "au_ResourceType ?i = resourceType" "au_RequestID ?i = gc_request_id c" "au_ResourceID ?i = gc_audit_resource_id c"
    by (simp_all add: audit_input_def Let_def)
  have fresh: "\<not> list_ex (\<lambda>x. al_ID x = env_uuid E (w_step w)) (admin_audit_logs (w_db w))"
    using assms(6) unfolding list_ex_iff by (metis imageI)
  have entry: "audit_entry p resourceType c ?l" by (simp add: audit_entry_def audit_input_def Let_def)
  have "Audit_Record ?i E w = (Inr ?l, (tick (tick (tick w)))\<lparr>w_db := (w_db w)\<lparr>admin_audit_logs := admin_audit_logs (w_db w) @ [?l]\<rparr>\<rparr>)"
    using assms(1-4) action fresh
    by (auto simp: Audit_Record_def InsertAdminAuditLog_def act_simps org no_actor_def known_actor_def audit_input_def Let_def split: if_splits option.splits)
  then show thesis using that entry by simp
qed

text \<open>
  C29: The audit log has one entry for every change and none for anything else. When the handler of a
  console route has returned, a changing method that ended below 400 appends exactly one entry,
  with the organisation, the resource and the actor of the principal (the user, or else the
  token); reads and failed changes append none. The answer is the handler's in every case.
\<close>

theorem audit_records_changes:
  assumes "healthy E" and run: "h c E w = (Inr c1, w1)" and "gc_admin_token_principal c1 = Some p"
    and "gc_audit_resource_type c1 = Some resourceType" "resourceType \<noteq> []" "gc_request_id c1 \<noteq> []"
    and "known_actor (w_db w1) p" and "\<forall>n. env_uuid E n \<notin> al_ID ` set (admin_audit_logs (w_db w1))"
  shows "\<exists>w2 ls. AdminAudit True h c E w = (Inr c1, w2) \<and>
    w_db w2 = (w_db w1)\<lparr>admin_audit_logs := admin_audit_logs (w_db w1) @ ls\<rparr> \<and> list_all (audit_entry p resourceType c1) ls \<and>
    length ls = (if isAdminMutation (gc_Method c1) \<and> gc_Status c1 < 400 then 1 else 0)"
proof (cases "isAdminMutation (gc_Method c1) \<and> gc_Status c1 < 400")
  case True
  obtain l w2 where "Audit_Record (audit_input p resourceType c1) E w1 = (Inr l, w2)" "audit_entry p resourceType c1 l"
    "w_db w2 = (w_db w1)\<lparr>admin_audit_logs := admin_audit_logs (w_db w1) @ [l]\<rparr>"
    using Audit_Record_known [OF assms(1,7,5,6) _ assms(8)] True by blast
  then show ?thesis
    using True run assms(3-5)
    by (intro exI [of _ w2] exI [of _ "[l]"]) (simp add: AdminAudit_def act_simps auditStringValue_def not_le)
next
  case False
  then show ?thesis
    using run by (intro exI [of _ w1] exI [of _ "[]"]) (auto simp: AdminAudit_def act_simps)
qed

definition demo_member :: AdminTokenPrincipal where
  "demo_member = \<lparr>atp_OrgID = 1, atp_AdminTokenID = 0, atp_ActorType = ''user'', atp_Role = ''admin'', atp_UserID = Some 21,
     atp_MembershipID = Some 22, atp_SessionID = Some 30, atp_UserEmail = [], atp_DisplayName = [], atp_Scopes = []\<rparr>"

definition demo_change :: handler where
  "demo_change c = ret (reply_with 201 OtherReply (c\<lparr>gc_audit_resource_type := Some ''budget'', gc_audit_resource_id := Some 6\<rparr>))"

theorem audit_records_changes_witness:
  "\<exists>c1 w2 l. AdminAudit True demo_change (demo_request\<lparr>gc_admin_token_principal := Some demo_member\<rparr>) demo_env
      (world_of (demo_db\<lparr>org_memberships := [\<lparr>om_ID = 22, om_OrgID = 1, om_UserID = 21, om_Role = ''admin'', om_Status = ''active'',
        om_CreatedAt = 0, om_UpdatedAt = 0\<rparr>]\<rparr>)) = (Inr c1, w2) \<and>
    admin_audit_logs (w_db w2) = [l] \<and> al_ActorUserID l = Some 21 \<and> al_ResourceType l = ''budget''"
proof -
  let ?c = "demo_request\<lparr>gc_admin_token_principal := Some demo_member\<rparr>"
  let ?w = "world_of (demo_db\<lparr>org_memberships := [\<lparr>om_ID = 22, om_OrgID = 1, om_UserID = 21, om_Role = ''admin'', om_Status = ''active'',
        om_CreatedAt = 0, om_UpdatedAt = 0\<rparr>]\<rparr>)"
  let ?c1 = "reply_with 201 OtherReply (?c\<lparr>gc_audit_resource_type := Some ''budget'', gc_audit_resource_id := Some 6\<rparr>)"
  have run: "demo_change ?c demo_env ?w = (Inr ?c1, ?w)" by (simp add: demo_change_def ret_def)
  have known: "known_actor (w_db ?w) demo_member"
    by (simp add: known_actor_def demo_member_def IsUser_def uuid_Nil_def org_exists_def is_member_def demo_defs)
  have rest: "gc_admin_token_principal ?c1 = Some demo_member" "gc_audit_resource_type ?c1 = Some ''budget''" "gc_request_id ?c1 \<noteq> []"
    "admin_audit_logs (w_db ?w) = []" "isAdminMutation (gc_Method ?c1) \<and> gc_Status ?c1 < 400"
    by (simp_all add: reply_with_def demo_request_def demo_defs isAdminMutation_def)
  obtain w2 ls where "AdminAudit True demo_change ?c demo_env ?w = (Inr ?c1, w2)"
    "w_db w2 = (w_db ?w)\<lparr>admin_audit_logs := admin_audit_logs (w_db ?w) @ ls\<rparr>" "list_all (audit_entry demo_member ''budget'' ?c1) ls"
    "length ls = (if isAdminMutation (gc_Method ?c1) \<and> gc_Status ?c1 < 400 then 1 else 0)"
    using audit_records_changes [where h = demo_change and c = ?c and E = demo_env and w = ?w, OF healthy_demo run rest(1,2) _ rest(3) known] rest(4) by auto
  then show ?thesis
    using rest(4,5) by (cases ls) (auto simp: audit_entry_def demo_member_def IsUser_def)
qed

end
