(* ===== verification/Delivery.thy ===== *)
theory Delivery
  imports Edge Requests
begin

text \<open>
  The chat endpoint over the chat service: what a request leaves behind once its answer is out, and
  what a stream delivers that is never billed.
\<close>

section \<open>No reservation survives the answer\<close>

text \<open>Answering changes the context of the request only.\<close>

lemma keeps_in_abort [keeps_in_rules]: "keeps_in E I (abortWithError s code message c)"
  "keeps_in E I (abortUnauthorized c)" "keeps_in E I (RespondError e c)"
  by (auto simp: keeps_in_def RespondError_def abortWithError_def abortUnauthorized_def ret_def split: prod.split)

lemma createStream_closes:
  assumes E: "healthy E" and "ce_flusher edge"
  shows "keeps_in E (settled_for (in_RequestID input)) (createStream edge input c)"
proof (rule keeps_inI)
  fix w r w' assume before: "settled_for (in_RequestID input) (w_db w)" and run: "createStream edge input c E w = (r, w')"
  obtain x w1 where x: "StreamChat (ce_service edge) input E w = (x, w1)" by fastforce
  note opened = ends_inD [OF StreamChat_ends [OF E] before x]
  show "settled_for (in_RequestID input) (w_db w')"
  proof (cases x)
    case (Inl e)
    then have "w' = w1" using run x
      by (auto simp: createStream_def act_simps RespondError_def abortWithError_def split: prod.splits)
    then show ?thesis using opened Inl by simp
  next
    case (Inr st)
    have st: "st_input st = input" "handed_over (st_reservationActive st) (in_RequestID (st_input st)) (w_db (tick w1))"
      using opened Inr by auto
    obtain usage e y where y: "FinalizeStream (ce_service edge) st usage e E (tick w1) = (y, w')"
      using run x Inr assms(2) by (auto simp: createStream_def act_simps split: prod.splits)
    show ?thesis using ends_inD [OF FinalizeStream_ends [OF E] st(2) y] st(1) by simp
  qed
qed

lemma keeps_in_attempt: "keeps_in E I m \<Longrightarrow> keeps_in E I (attempt m)"
  by (auto simp: keeps_in_def attempt_apply split: prod.split)


definition demo_chat_edge :: chat_edge where
  "demo_chat_edge = \<lparr>ce_service = demo_chat_service, ce_ParseUUID = (\<lambda>_. Some 77), ce_flusher = True, ce_write_ok = (\<lambda>_. True),
     ce_events = (\<lambda>_ _. []), ce_stream_err = (\<lambda>_ _. None)\<rparr>"

definition demo_chat_request :: gin_context where
  "demo_chat_request = \<lparr>gc_Method = ''POST'', gc_Path = ''/v1/chat/completions'', gc_Authorization = ''Bearer k'', gc_RequestIDHeader = [],
     gc_Body = Body ''body'', gc_ctx = (\<lambda>_. None), gc_request_id = ''r'', gc_admin_token_principal = None,
     gc_api_key_principal = Some (in_Principal demo_chat), gc_audit_resource_type = None, gc_audit_resource_id = None,
     gc_audit_action = None, gc_Status = 200, gc_Reply = NoReply\<rparr>"


section \<open>A repeated request identifier\<close>

interpretation pinned: records_view "\<lambda>db. records_of db = R" for R
  by unfold_locales simp

lemma RecordSuccess_taken:
  assumes "si_RequestID i \<in> rl_ID ` set (request_logs (w_db w))"
  obtains e w' where "RecordSuccess s i E w = (Inl e, w')" "w_db w' = w_db w"
proof (cases "RecordSuccess s i E w")
  case (Pair r w')
  show ?thesis
  proof (cases r)
    case (Inl e)
    then show ?thesis using that Pair RecordSuccess_Inl(1) by blast
  next
    case (Inr x)
    then obtain w2 where tx: "record_success_tx SettleTx i E (tick w) = (Inr x, w2)"
      using RecordSuccess_Inr [OF Pair [unfolded Inr]] by metis
    have "rl_ID (sr_RequestLog x) = si_RequestID i" "rl_ID (sr_RequestLog x) \<notin> rl_ID ` set (request_logs (w_db w))"
      using tx by (rule record_success_tx_Inr; simp add: result_ok_def rows_free_def)+
    then show ?thesis using assms by simp
  qed
qed

lemma release_if_records: "records_of (w_db (snd (release_if active q E w))) = records_of (w_db w)"
proof -
  have "keeps (\<lambda>db. records_of db = records_of (w_db w)) (release_if active q)"
    unfolding release_if_def by (intro keeps_rules pinned.keeps_view_Release)
  then show ?thesis by (simp add: keeps_def)
qed



end
