(* ===== verification/Catalog.thy ===== *)
theory Catalog
  imports Gateway
begin

text \<open>
  Providers and models as the console manages them: \<^verbatim>\<open>provider_service.go\<close> and \<^verbatim>\<open>health_service.go\<close> of
  \<^verbatim>\<open>internal/provider\<close> with their statements. The HTTP client of the health probe is a function of the request and of
  the number of the interaction; what of \<^verbatim>\<open>net/url\<close> is needed comes with the record \<open>net_lib\<close>.
\<close>

section \<open>Statements\<close>

definition CreateProvider_row :: "Provider \<Rightarrow> Provider act" where
  "CreateProvider_row r = sql_insert (\<lambda>db.
     [(\<not> list_ex (\<lambda>x. pr_ID x = pr_ID r \<or> pr_OrgID x = pr_OrgID r \<and> pr_Name x = pr_Name r) (providers db), UniqueViolation),
      (pr_Name r \<noteq> [] \<and> pr_Type r \<in> {''mock'', ''openai_compatible''} \<and> 0 < pr_TimeoutMs r \<and>
         pr_Status r \<in> {''active'', ''disabled''} \<and> (pr_Type r = ''mock'' \<or> pr_BaseUrl r \<noteq> None), CheckViolation),
      (org_exists db (pr_OrgID r), ForeignKeyViolation)])
     (\<lambda>r db. db\<lparr>providers := providers db @ [r]\<rparr>)
     (r\<lparr>pr_LastHealthStatus := None, pr_LastHealthCheckedAt := None, pr_LastErrorCode := None, pr_LastErrorMessage := None\<rparr>)"

definition ListProviders :: "uuid \<Rightarrow> Provider list act" where
  "ListProviders org = db_read (\<lambda>db.
     Inr (SliceStable (newest_first pr_CreatedAt pr_ID) (filter (\<lambda>r. pr_OrgID r = org) (providers db))))"

definition UpdateProviderHealth :: "uuid \<Rightarrow> uuid \<Rightarrow> string option \<Rightarrow> time option \<Rightarrow> string option \<Rightarrow> string option \<Rightarrow> time \<Rightarrow> Provider act" where
  "UpdateProviderHealth org i status checkedAt code message now =
     (if status \<notin> {None, Some ''healthy'', Some ''unhealthy''}
      then db_exec (\<lambda>db. if list_ex (\<lambda>r. pr_OrgID r = org \<and> pr_ID r = i) (providers db) then Inl CheckViolation else Inl NoRows)
      else update_returning providers (\<lambda>rs db. db\<lparr>providers := rs\<rparr>) (\<lambda>r. pr_OrgID r = org \<and> pr_ID r = i)
        (\<lambda>r. r\<lparr>pr_LastHealthStatus := status, pr_LastHealthCheckedAt := checkedAt, pr_LastErrorCode := code,
              pr_LastErrorMessage := message, pr_UpdatedAt := now\<rparr>))"

text \<open>\<^verbatim>\<open>ON CONFLICT (org_id, provider_id) DO UPDATE\<close>: a provider has one secret, the latest.\<close>

definition UpsertProviderSecret :: "ProviderSecret \<Rightarrow> ProviderSecret act" where
  "UpsertProviderSecret r = db_exec (\<lambda>db.
     let same = (\<lambda>x. ps_OrgID x = ps_OrgID r \<and> ps_ProviderID x = ps_ProviderID r);
         put = (\<lambda>x. x\<lparr>ps_EncryptedApiKey := ps_EncryptedApiKey r, ps_Nonce := ps_Nonce r,
                   ps_KeyVersion := ps_KeyVersion r, ps_UpdatedAt := ps_UpdatedAt r\<rparr>) in
     if ps_EncryptedApiKey r = [] \<or> ps_Nonce r = [] \<or> ps_KeyVersion r \<le> 0 then Inl CheckViolation
     else case filter same (provider_secrets db) of
       x # _ \<Rightarrow> Inr (put x, db\<lparr>provider_secrets := update_rows same put (provider_secrets db)\<rparr>)
     | [] \<Rightarrow>
         if list_ex (\<lambda>x. ps_ID x = ps_ID r) (provider_secrets db) then Inl UniqueViolation
         else if \<not> (org_exists db (ps_OrgID r) \<and>
           list_ex (\<lambda>p. pr_OrgID p = ps_OrgID r \<and> pr_ID p = ps_ProviderID r) (providers db)) then Inl ForeignKeyViolation
         else Inr (r, db\<lparr>provider_secrets := provider_secrets db @ [r]\<rparr>))"

definition CreateModel_row :: "Model \<Rightarrow> Model act" where
  "CreateModel_row r = sql_insert (\<lambda>db.
     [(\<not> list_ex (\<lambda>x. md_ID x = md_ID r \<or> md_OrgID x = md_OrgID r \<and> md_ProviderID x = md_ProviderID r \<and>
         md_ProviderModelName x = md_ProviderModelName r) (models db), UniqueViolation),
      (md_ProviderModelName r \<noteq> [] \<and> md_DisplayName r \<noteq> [] \<and> 0 \<le> md_InputPriceMicroUsdPer1kTokens r \<and>
         0 \<le> md_OutputPriceMicroUsdPer1kTokens r \<and> (case md_ContextWindow r of None \<Rightarrow> True | Some n \<Rightarrow> 0 < n) \<and>
         md_Status r \<in> {''active'', ''disabled''}, CheckViolation),
      (org_exists db (md_OrgID r) \<and>
         list_ex (\<lambda>p. pr_OrgID p = md_OrgID r \<and> pr_ID p = md_ProviderID r) (providers db), ForeignKeyViolation)])
     (\<lambda>r db. db\<lparr>models := models db @ [r]\<rparr>) r"

definition ListModels :: "uuid \<Rightarrow> Model list act" where
  "ListModels org = db_read (\<lambda>db.
     Inr (SliceStable (newest_first md_CreatedAt md_ID) (filter (\<lambda>r. md_OrgID r = org) (models db))))"

section \<open>The provider service\<close>

record provider_service =
  sp_gcm :: cipher
  sp_net :: net_lib
  sp_secretKeyRing :: "SecretKeyRing option"
  sp_publicOutboundOnly :: bool

record CreateProviderParams =
  cpp_OrgID :: uuid
  cpp_Name :: string
  cpp_Type :: string
  cpp_BaseURL :: "string option"
  cpp_APIKey :: "string option"
  cpp_TimeoutMS :: int

record CreateModelParams =
  cmp_OrgID :: uuid
  cmp_ProviderID :: uuid
  cmp_ProviderModelName :: string
  cmp_DisplayName :: string
  cmp_InputPrice :: int
  cmp_OutputPrice :: int
  cmp_ContextWindow :: "int option"

text \<open>The key ring of the options wins; without one the single key does, if it makes a ring.\<close>

definition NewService :: "cipher \<Rightarrow> net_lib \<Rightarrow> string \<Rightarrow> SecretKeyRing option \<Rightarrow> bool \<Rightarrow> provider_service" where
  "NewService gcm net secretEncryptionKey keyRing publicOnly = \<lparr>sp_gcm = gcm, sp_net = net,
     sp_secretKeyRing = (case keyRing of Some r \<Rightarrow> Some r
       | None \<Rightarrow> (case NewSingleKeyRing secretEncryptionKey of Inr r \<Rightarrow> Some r | Inl _ \<Rightarrow> None)),
     sp_publicOutboundOnly = publicOnly\<rparr>"

abbreviation ErrProviderNotFound :: err where "ErrProviderNotFound \<equiv> ErrMsg ''provider not found''"

definition blank :: "string option \<Rightarrow> bool" where
  "blank v \<longleftrightarrow> (case v of None \<Rightarrow> True | Some s \<Rightarrow> TrimSpace s = [])"

definition newPgText :: "string option \<Rightarrow> string option" where
  "newPgText v = (if blank v then None else map_option TrimSpace v)"

text \<open>\<^verbatim>\<open>err.Error()\<close> of the checks on a URL, which are plain messages.\<close>

fun err_message :: "err \<Rightarrow> string" where
  "err_message (ErrMsg m) = m"
| "err_message _ = []"

definition validateProviderParams :: "net_lib \<Rightarrow> CreateProviderParams \<Rightarrow> bool \<Rightarrow> unit outcome" where
  "validateProviderParams net p publicOnly =
     (if cpp_OrgID p = uuid_Nil then Inl (ValidationError ''org_id is required'')
      else if TrimSpace (cpp_Name p) = [] then Inl (ValidationError ''name is required'')
      else if cpp_TimeoutMS p \<le> 0 then Inl (ValidationError ''timeout_ms must be greater than zero'')
      else if cpp_Type p = ''mock'' then Inr ()
      else if cpp_Type p = ''openai_compatible'' then
        (if blank (cpp_BaseURL p) then Inl (ValidationError ''base_url is required'')
         else case ValidateOutboundHTTPURL net (the (cpp_BaseURL p)) ''base_url'' publicOnly of
           Inl e \<Rightarrow> Inl (ValidationError (err_message e))
         | Inr _ \<Rightarrow> if blank (cpp_APIKey p) then Inl (ValidationError ''api_key is required'') else Inr ())
      else Inl (ValidationError ''provider type must be mock or openai_compatible''))"

definition validateModelParams :: "CreateModelParams \<Rightarrow> unit outcome" where
  "validateModelParams p =
     (if cmp_OrgID p = uuid_Nil then Inl (ValidationError ''org_id is required'')
      else if cmp_ProviderID p = uuid_Nil then Inl (ValidationError ''provider_id is required'')
      else if TrimSpace (cmp_ProviderModelName p) = [] then Inl (ValidationError ''provider_model_name is required'')
      else if TrimSpace (cmp_DisplayName p) = [] then Inl (ValidationError ''display_name is required'')
      else if cmp_InputPrice p < 0 \<or> cmp_OutputPrice p < 0 then Inl (ValidationError ''model prices must be non-negative'')
      else if cmp_ContextWindow p \<noteq> None \<and> the (cmp_ContextWindow p) \<le> 0
      then Inl (ValidationError ''context_window must be greater than zero'')
      else Inr ())"

text \<open>The two halves of the transaction of \<^verbatim>\<open>CreateProvider\<close>: the row, and the sealed key of a real provider.\<close>

definition store_api_key :: "provider_service \<Rightarrow> CreateProviderParams \<Rightarrow> time \<Rightarrow> Provider \<Rightarrow> ProviderSecret act" where
  "store_api_key s p now provider = (case sp_secretKeyRing s of
     None \<Rightarrow> fail (ErrMsg ''provider secret keyring is invalid'')
   | Some ring \<Rightarrow>
       andThen (ring_Seal (sp_gcm s) ring (TrimSpace (the (cpp_APIKey p)))) (\<lambda>sealed.
       andThen new_uuid (\<lambda>i. UpsertProviderSecret
         \<lparr>ps_ID = i, ps_OrgID = cpp_OrgID p, ps_ProviderID = pr_ID provider, ps_EncryptedApiKey = sd_Encrypted sealed,
          ps_Nonce = sd_Nonce sealed, ps_KeyVersion = sd_KeyVersion sealed, ps_CreatedAt = now, ps_UpdatedAt = now\<rparr>)))"

definition create_provider_tx :: "provider_service \<Rightarrow> CreateProviderParams \<Rightarrow> time \<Rightarrow> Provider act" where
  "create_provider_tx s p now =
     andThen new_uuid (\<lambda>i.
     andThen (CreateProvider_row \<lparr>pr_ID = i, pr_OrgID = cpp_OrgID p, pr_Name = TrimSpace (cpp_Name p), pr_Type = cpp_Type p,
       pr_BaseUrl = newPgText (cpp_BaseURL p), pr_TimeoutMs = cpp_TimeoutMS p, pr_Status = ''active'', pr_CreatedAt = now,
       pr_UpdatedAt = now, pr_LastHealthStatus = None, pr_LastHealthCheckedAt = None, pr_LastErrorCode = None,
       pr_LastErrorMessage = None\<rparr>) (\<lambda>provider.
     if cpp_Type p \<noteq> ''openai_compatible'' then ret provider
     else andThen (store_api_key s p now provider) (\<lambda>_. ret provider)))"

definition CreateProvider :: "provider_service \<Rightarrow> CreateProviderParams \<Rightarrow> Provider act" where
  "CreateProvider s p = (case validateProviderParams (sp_net s) p (sp_publicOutboundOnly s) of
     Inl e \<Rightarrow> fail e
   | Inr _ \<Rightarrow> andThen clock_now (\<lambda>now. ExecTx (create_provider_tx s p now)))"

definition create_model_tx :: "CreateModelParams \<Rightarrow> time \<Rightarrow> Model act" where
  "create_model_tx p now =
     andThen new_uuid (\<lambda>i.
     andThen (CreateModel_row \<lparr>md_ID = i, md_OrgID = cmp_OrgID p, md_ProviderID = cmp_ProviderID p,
       md_ProviderModelName = TrimSpace (cmp_ProviderModelName p), md_DisplayName = TrimSpace (cmp_DisplayName p),
       md_InputPriceMicroUsdPer1kTokens = cmp_InputPrice p, md_OutputPriceMicroUsdPer1kTokens = cmp_OutputPrice p,
       md_ContextWindow = cmp_ContextWindow p, md_Status = ''active'', md_CreatedAt = now, md_UpdatedAt = now\<rparr>) (\<lambda>model.
     andThen (CreateInitialVersionWithQueries model now) (\<lambda>_. ret model)))"

definition CreateModel :: "CreateModelParams \<Rightarrow> Model act" where
  "CreateModel p = (case validateModelParams p of
     Inl e \<Rightarrow> fail e
   | Inr _ \<Rightarrow> andThen (no_rows_as ErrProviderNotFound (GetProvider (cmp_OrgID p) (cmp_ProviderID p))) (\<lambda>_.
       andThen clock_now (\<lambda>now. ExecTx (create_model_tx p now))))"

section \<open>The health probe\<close>

datatype probe_reply = Reply int | TimedOut | Unreachable

record health_service =
  sh_gcm :: cipher
  sh_net :: net_lib
  sh_secretKeyRing :: "SecretKeyRing option"
  sh_publicOutboundOnly :: bool
  sh_client :: "int \<Rightarrow> string \<Rightarrow> string \<Rightarrow> nat \<Rightarrow> probe_reply"

definition providerModelsURL :: "string \<Rightarrow> string" where
  "providerModelsURL baseURL = rev (dropWhile (\<lambda>c. c = CHR ''/'') (rev baseURL)) @ ''/models''"

definition nullable_text :: "string \<Rightarrow> string option" where
  "nullable_text v = (if TrimSpace v = [] then None else Some v)"

text \<open>One GET with the key as bearer token and the timeout in milliseconds.\<close>

definition health_Do :: "health_service \<Rightarrow> int \<Rightarrow> string \<Rightarrow> string \<Rightarrow> probe_reply act" where
  "health_Do s timeoutMS url apiKey = (\<lambda>E w. (Inr (sh_client s timeoutMS url apiKey (w_step w)), tick w))"

fun probe_result :: "probe_reply \<Rightarrow> string \<times> string" where
  "probe_result TimedOut = (''provider_timeout'', ''provider health check timed out'')"
| "probe_result Unreachable = (''provider_unavailable'', ''provider health check failed'')"
| "probe_result (Reply status) =
     (if status < 200 \<or> 300 \<le> status
      then (if 500 \<le> status then ''provider_unavailable'' else ''provider_error'', ''provider health check returned status '' @ itoa status)
      else ([], []))"

definition checkOpenAICompatible :: "health_service \<Rightarrow> Provider \<Rightarrow> (string \<times> string) act" where
  "checkOpenAICompatible s item =
     (if blank (pr_BaseUrl item) then ret (''provider_error'', ''provider base_url is required'')
      else case ValidateOutboundHTTPURL (sh_net s) (the (pr_BaseUrl item)) ''provider base_url'' (sh_publicOutboundOnly s) of
        Inl e \<Rightarrow> ret (''provider_error'', err_message e)
      | Inr _ \<Rightarrow>
        andThen (attempt (GetProviderSecret (pr_OrgID item) (pr_ID item))) (\<lambda>secret. case secret of
          Inl _ \<Rightarrow> ret (''provider_error'', ''provider api key is required'')
        | Inr secret \<Rightarrow> (case sh_secretKeyRing s of
            None \<Rightarrow> ret (''provider_error'', ''provider secret configuration is invalid'')
          | Some ring \<Rightarrow>
            (case ring_Open (sh_gcm s) ring (ps_EncryptedApiKey secret) (ps_Nonce secret) (ps_KeyVersion secret) of
              Inl _ \<Rightarrow> ret (''provider_error'', ''provider api key decrypt failed'')
            | Inr apiKey \<Rightarrow>
              let url = providerModelsURL (the (pr_BaseUrl item)) in
              if url_Parse (sh_net s) url = None then ret (''provider_error'', ''build provider health request failed'')
              else andThen (health_Do s (if pr_TimeoutMs item \<le> 0 then 30000 else pr_TimeoutMs item) url apiKey)
                (\<lambda>reply. ret (probe_result reply))))))"

definition health_Check :: "health_service \<Rightarrow> uuid \<Rightarrow> uuid \<Rightarrow> Provider act" where
  "health_Check s orgID providerID =
     andThen (no_rows_as ErrProviderNotFound (GetProvider orgID providerID)) (\<lambda>item.
     andThen (if pr_Type item = ''openai_compatible'' then checkOpenAICompatible s item else ret ([], [])) (\<lambda>(code, message).
     andThen clock_now (\<lambda>now.
     UpdateProviderHealth orgID providerID (Some (if code \<noteq> [] then ''unhealthy'' else ''healthy'')) (Some now)
       (nullable_text code) (nullable_text message) now)))"

section \<open>The key of a provider\<close>

lemma filter_update_rows_same: "(\<And>x. P (f x) = P x) \<Longrightarrow> filter P (update_rows P f xs) = map f (filter P xs)"
  by (induction xs) auto

lemma UpsertProviderSecret_Inr:
  assumes "UpsertProviderSecret r E w = (Inr x, w')"
  obtains ss y where "w_db w' = (w_db w)\<lparr>provider_secrets := ss\<rparr>"
    "first_row (filter (\<lambda>s. ps_OrgID s = ps_OrgID r \<and> ps_ProviderID s = ps_ProviderID r) ss) = Inr y"
    "ps_EncryptedApiKey y = ps_EncryptedApiKey r" "ps_Nonce y = ps_Nonce r" "ps_KeyVersion y = ps_KeyVersion r"
proof (cases "filter (\<lambda>s. ps_OrgID s = ps_OrgID r \<and> ps_ProviderID s = ps_ProviderID r) (provider_secrets (w_db w))")
  case Nil
  then show ?thesis using assms
    by (intro that [of "provider_secrets (w_db w) @ [r]" r]) (auto simp: UpsertProviderSecret_def act_inr Let_def split: if_splits)
next
  case (Cons z zs)
  let ?same = "\<lambda>s. ps_OrgID s = ps_OrgID r \<and> ps_ProviderID s = ps_ProviderID r"
  let ?put = "\<lambda>x. x\<lparr>ps_EncryptedApiKey := ps_EncryptedApiKey r, ps_Nonce := ps_Nonce r, ps_KeyVersion := ps_KeyVersion r, ps_UpdatedAt := ps_UpdatedAt r\<rparr>"
  have "filter ?same (update_rows ?same ?put (provider_secrets (w_db w))) = ?put z # map ?put zs"
    using Cons by (subst filter_update_rows_same) auto
  then show ?thesis using assms Cons
    by (intro that [of "update_rows ?same ?put (provider_secrets (w_db w))" "?put z"])
      (auto simp: UpsertProviderSecret_def act_inr Let_def split: if_splits)
qed

lemma store_api_key_Inr:
  assumes gcm: "aead (sp_gcm s)" and run: "store_api_key s p now provider E w = (Inr x, w')"
  obtains ring ss y where "sp_secretKeyRing s = Some ring" "w_db w' = (w_db w)\<lparr>provider_secrets := ss\<rparr>"
    "first_row (filter (\<lambda>s. ps_OrgID s = cpp_OrgID p \<and> ps_ProviderID s = pr_ID provider) ss) = Inr y"
    "ring_Open (sp_gcm s) ring (ps_EncryptedApiKey y) (ps_Nonce y) (ps_KeyVersion y) = Inr (TrimSpace (the (cpp_APIKey p)))"
proof -
  obtain ring where ring: "sp_secretKeyRing s = Some ring"
    using run by (cases "sp_secretKeyRing s") (auto simp: store_api_key_def act_inr)
  obtain sealed w1 i where seal: "ring_Seal (sp_gcm s) ring (TrimSpace (the (cpp_APIKey p))) E w = (Inr sealed, w1)"
    and up: "UpsertProviderSecret \<lparr>ps_ID = i, ps_OrgID = cpp_OrgID p, ps_ProviderID = pr_ID provider, ps_EncryptedApiKey = sd_Encrypted sealed,
          ps_Nonce = sd_Nonce sealed, ps_KeyVersion = sd_KeyVersion sealed, ps_CreatedAt = now, ps_UpdatedAt = now\<rparr> E (tick w1) = (Inr x, w')"
    using run ring by (auto simp: store_api_key_def andThen_Inr new_uuid_Inr)
  note opened = ring_roundtrip [OF gcm seal]
  show ?thesis
    by (rule UpsertProviderSecret_Inr [OF up]) (use that ring opened in auto)
qed

lemma CreateProvider_row_Inr:
  assumes "CreateProvider_row r E w = (Inr x, w')"
  shows "pr_ID x = pr_ID r" "pr_OrgID x = pr_OrgID r" "pr_Name x = pr_Name r" "pr_Type x = pr_Type r" "pr_BaseUrl x = pr_BaseUrl r"
    "pr_TimeoutMs x = pr_TimeoutMs r" "w_db w' = (w_db w)\<lparr>providers := providers (w_db w) @ [x]\<rparr>"
    "\<forall>y \<in> set (providers (w_db w)). pr_ID y \<noteq> pr_ID x"
  using assms by (auto simp: CreateProvider_row_def act_inr list_ex_iff)

lemma outbound_url_field:
  "ValidateOutboundHTTPURL net u field publicOnly = Inr () \<Longrightarrow> ValidateOutboundHTTPURL net (TrimSpace u) field' publicOnly = Inr ()"
  by (auto simp: ValidateOutboundHTTPURL_def split: option.splits if_splits)

lemma validateProviderParams_Inr:
  assumes "validateProviderParams net p publicOnly = Inr ()"
  obtains (mock) "cpp_Type p = ''mock''"
  | (real) base key where "cpp_Type p = ''openai_compatible''" "cpp_BaseURL p = Some base" "TrimSpace base \<noteq> []"
      "ValidateOutboundHTTPURL net base ''base_url'' publicOnly = Inr ()" "cpp_APIKey p = Some key" "TrimSpace key \<noteq> []"
  using assms by (auto simp: validateProviderParams_def blank_def split: if_splits option.splits sum.splits)

text \<open>A chat service and a provider service of the same process.\<close>

definition same_process :: "provider_service \<Rightarrow> chat_service \<Rightarrow> bool" where
  "same_process s svc \<longleftrightarrow> gw_secretKeyRing svc = sp_secretKeyRing s \<and> as_gcm (gw_alerts svc) = sp_gcm s \<and>
     as_net (gw_alerts svc) = sp_net s \<and> gw_publicOutboundOnly svc = sp_publicOutboundOnly s"

lemma create_provider_tx_Inr:
  assumes "create_provider_tx s p now E w = (Inr pr, w')"
  obtains w1 w2 x where "pr_OrgID pr = cpp_OrgID p" "pr_Name pr = TrimSpace (cpp_Name p)" "pr_Type pr = cpp_Type p"
    "pr_BaseUrl pr = newPgText (cpp_BaseURL p)" "pr_TimeoutMs pr = cpp_TimeoutMS p"
    "\<forall>y \<in> set (providers (w_db w)). pr_ID y \<noteq> pr_ID pr" "w_db w1 = (w_db w)\<lparr>providers := providers (w_db w) @ [pr]\<rparr>"
    "if cpp_Type p \<noteq> ''openai_compatible'' then w' = w1 else store_api_key s p now pr E w1 = (Inr x, w')"
proof -
  from assms obtain i w1 where row: "CreateProvider_row \<lparr>pr_ID = i, pr_OrgID = cpp_OrgID p, pr_Name = TrimSpace (cpp_Name p), pr_Type = cpp_Type p,
       pr_BaseUrl = newPgText (cpp_BaseURL p), pr_TimeoutMs = cpp_TimeoutMS p, pr_Status = ''active'', pr_CreatedAt = now,
       pr_UpdatedAt = now, pr_LastHealthStatus = None, pr_LastHealthCheckedAt = None, pr_LastErrorCode = None,
       pr_LastErrorMessage = None\<rparr> E (tick w) = (Inr pr, w1)"
    and rest: "\<exists>x. if cpp_Type p \<noteq> ''openai_compatible'' then w' = w1 else store_api_key s p now pr E w1 = (Inr x, w')"
    unfolding create_provider_tx_def
    by (cases "cpp_Type p \<noteq> ''openai_compatible''") (auto simp: andThen_Inr new_uuid_Inr ret_Inr)
  from rest obtain x where "if cpp_Type p \<noteq> ''openai_compatible'' then w' = w1 else store_api_key s p now pr E w1 = (Inr x, w')" ..
  then show ?thesis using CreateProvider_row_Inr [OF row] by (intro that) auto
qed

text \<open>
  C39: The key and the URL given for a provider are what a chat later calls it with. Once CreateProvider has returned,
  the provider is found under its identifier, and as long as the database is that one every chat service of the same
  process, whenever it asks, gets its configuration: the trimmed URL, the timeout and for a real provider the trimmed
  key, although the database holds only its ciphertext. The mock provider has no key.
\<close>

theorem provider_key_reaches_gateway:
  assumes gcm: "aead (sp_gcm s)" and run: "CreateProvider s p E w = (Inr pr, w')"
    and svc: "same_process s svc" and later: "w_db w1 = w_db w'" and up: "\<not> env_fault E1 (w_step w1)"
  shows "GetProvider (cpp_OrgID p) (pr_ID pr) E1 w1 = (Inr pr, tick w1) \<and>
    fst (providerConfig svc pr E1 w1) = Inr
      \<lparr>pf_ID = pr_ID pr, pf_Name = TrimSpace (cpp_Name p), pf_Type = cpp_Type p,
       pf_BaseURL = (if blank (cpp_BaseURL p) then [] else TrimSpace (the (cpp_BaseURL p))),
       pf_APIKey = (if cpp_Type p = ''openai_compatible'' then TrimSpace (the (cpp_APIKey p)) else []),
       pf_TimeoutMS = cpp_TimeoutMS p\<rparr>"
proof -
  obtain now w2 where valid: "validateProviderParams (sp_net s) p (sp_publicOutboundOnly s) = Inr ()"
    and tx: "ExecTx (create_provider_tx s p now) E w2 = (Inr pr, w')"
    using run by (auto simp: CreateProvider_def andThen_Inr clock_now_Inr fail_Inr split: sum.splits)
  from tx obtain w3 where body: "create_provider_tx s p now E (tick w2) = (Inr pr, w3)" and w': "w' = tick w3"
    by (rule ExecTx_Inr)
  from body obtain w4 x where pr: "pr_OrgID pr = cpp_OrgID p" "pr_Name pr = TrimSpace (cpp_Name p)" "pr_Type pr = cpp_Type p"
    "pr_BaseUrl pr = newPgText (cpp_BaseURL p)" "pr_TimeoutMs pr = cpp_TimeoutMS p"
    and fresh: "\<forall>y \<in> set (providers (w_db w2)). pr_ID y \<noteq> pr_ID pr"
    and w4: "w_db w4 = (w_db w2)\<lparr>providers := providers (w_db w2) @ [pr]\<rparr>"
    and rest: "if cpp_Type p \<noteq> ''openai_compatible'' then w3 = w4 else store_api_key s p now pr E w4 = (Inr x, w3)"
    by (rule create_provider_tx_Inr) auto
  have base: "(case pr_BaseUrl pr of Some u \<Rightarrow> u | None \<Rightarrow> []) = (if blank (cpp_BaseURL p) then [] else TrimSpace (the (cpp_BaseURL p)))"
    by (auto simp: pr newPgText_def blank_def split: option.splits)
  have row: "GetProvider (cpp_OrgID p) (pr_ID pr) E1 w1 = (Inr pr, tick w1)" if "providers (w_db w1) = providers (w_db w2) @ [pr]"
  proof -
    have "filter (\<lambda>r. pr_OrgID r = cpp_OrgID p \<and> pr_ID r = pr_ID pr) (providers (w_db w1)) = [pr]"
      using that fresh pr(1) by (auto simp: filter_empty_conv)
    then show ?thesis using up by (simp add: GetProvider_def act_simps)
  qed
  from valid show ?thesis
  proof (cases rule: validateProviderParams_Inr)
    case mock
    then have "w_db w1 = w_db w4" using rest later w' by simp
    then show ?thesis using row w4 mock pr base
      by (simp add: providerConfig_def Let_def ret_apply)
  next
    case (real url key)
    then have "store_api_key s p now pr E w4 = (Inr x, w3)" using rest by simp
    then obtain ring ss y where ring: "sp_secretKeyRing s = Some ring" and w3: "w_db w3 = (w_db w4)\<lparr>provider_secrets := ss\<rparr>"
      and y: "first_row (filter (\<lambda>s. ps_OrgID s = cpp_OrgID p \<and> ps_ProviderID s = pr_ID pr) ss) = Inr y"
        "ring_Open (sp_gcm s) ring (ps_EncryptedApiKey y) (ps_Nonce y) (ps_KeyVersion y) = Inr (TrimSpace (the (cpp_APIKey p)))"
      by (rule store_api_key_Inr [OF gcm])
    have "ValidateOutboundHTTPURL (sp_net s) (TrimSpace url) ''provider base_url'' (sp_publicOutboundOnly s) = Inr ()"
      using real(4) by (rule outbound_url_field)
    moreover have "GetProviderSecret (cpp_OrgID p) (pr_ID pr) E1 w1 = (Inr y, tick w1)"
      using y(1) up w3 later w' by (simp add: GetProviderSecret_def act_simps)
    moreover have "\<not> blank (cpp_BaseURL p)" using real(2,3) by (simp add: blank_def)
    ultimately show ?thesis
      using row w4 w3 later w' real pr base y(2) ring svc
      by (simp add: providerConfig_def Let_def andThen_apply lift_apply ret_apply same_process_def)
  qed
qed

definition demo_names :: net_lib where
  "demo_names = \<lparr>url_Parse = (\<lambda>v. Some \<lparr>url_Scheme = ''https'', url_Host = ''llm.example'', url_Hostname = ''llm.example'', url_has_User = False\<rparr>),
     ParseIP = (\<lambda>_. None)\<rparr>"

definition demo_provider_service :: provider_service where
  "demo_provider_service = NewService demo_cipher demo_names [] (Some \<lparr>kr_activeVersion = 1, kr_boxes = [(1, ''k'')]\<rparr>) True"

definition demo_new_provider :: CreateProviderParams where
  "demo_new_provider = \<lparr>cpp_OrgID = 1, cpp_Name = ''main'', cpp_Type = ''openai_compatible'', cpp_BaseURL = Some ''https://llm.example '',
     cpp_APIKey = Some '' sk-1 '', cpp_TimeoutMS = 1000\<rparr>"

definition demo_sibling :: chat_service where
  "demo_sibling = demo_chat_service\<lparr>gw_secretKeyRing := sp_secretKeyRing demo_provider_service, gw_publicOutboundOnly := True,
     gw_alerts := demo_alerts\<lparr>as_gcm := demo_cipher, as_net := demo_names\<rparr>\<rparr>"

lemma demo_provider_created: "is_ok (fst (CreateProvider demo_provider_service demo_new_provider demo_env (world_of demo_db)))"
  by code_simp

theorem provider_key_reaches_gateway_witness:
  "\<exists>pr cfg. fst (CreateProvider demo_provider_service demo_new_provider demo_env (world_of demo_db)) = Inr pr \<and>
     fst (providerConfig demo_sibling pr demo_env (snd (CreateProvider demo_provider_service demo_new_provider demo_env (world_of demo_db)))) = Inr cfg \<and>
     pf_APIKey cfg = ''sk-1'' \<and> pf_BaseURL cfg = ''https://llm.example''"
proof -
  let ?run = "CreateProvider demo_provider_service demo_new_provider demo_env (world_of demo_db)"
  obtain pr where pr: "fst ?run = Inr pr" using demo_provider_created by (cases "fst ?run") auto
  then have run: "?run = (Inr pr, snd ?run)" by (simp add: prod_eq_iff)
  have "aead (sp_gcm demo_provider_service)" by (simp add: demo_provider_service_def NewService_def aead_demo)
  moreover have "same_process demo_provider_service demo_sibling"
    by (simp add: same_process_def demo_sibling_def demo_provider_service_def NewService_def)
  moreover have "\<not> env_fault demo_env (w_step (snd ?run))" by (simp add: demo_env_def)
  moreover have "TrimSpace '' sk-1 '' = ''sk-1''" "TrimSpace ''https://llm.example '' = ''https://llm.example''"
    by code_simp+
  ultimately show ?thesis
    using provider_key_reaches_gateway [OF _ run _ refl, of demo_sibling demo_env] pr
    by (simp add: demo_new_provider_def blank_def)
qed

section \<open>The price list\<close>

text \<open>
  What the catalogue promises: identifiers of models do not repeat, every version belongs to a model, and every model
  has an active version, which is unique and carries the prices of its row by \<open>pricing_ok\<close>.
\<close>

definition catalog_ok :: "database \<Rightarrow> bool" where
  "catalog_ok db \<longleftrightarrow> pricing_ok db \<and> distinct (map md_ID (models db)) \<and>
     (\<forall>v \<in> set (model_pricing_versions db). \<exists>m \<in> set (models db). md_OrgID m = pv_OrgID v \<and> md_ID m = pv_ModelID v) \<and>
     (\<forall>m \<in> set (models db). \<exists>v \<in> set (model_pricing_versions db). active_version (md_OrgID m) (md_ID m) v)"

text \<open>The operations of the console on providers and models, in any order and with any failures.\<close>

datatype catalog_op =
    AddProvider CreateProviderParams
  | AddModel CreateModelParams
  | Reprice UpdateModelPricingParams
  | Probe uuid uuid

fun catalog_step :: "provider_service \<Rightarrow> health_service \<Rightarrow> catalog_op \<Rightarrow> unit act" where
  "catalog_step s h (AddProvider p) = andThen (attempt (CreateProvider s p)) (\<lambda>_. ret ())"
| "catalog_step s h (AddModel p) = andThen (attempt (CreateModel p)) (\<lambda>_. ret ())"
| "catalog_step s h (Reprice p) = andThen (attempt (UpdateModelPricing p)) (\<lambda>_. ret ())"
| "catalog_step s h (Probe org i) = andThen (attempt (health_Check h org i)) (\<lambda>_. ret ())"

fun catalog_history :: "provider_service \<Rightarrow> health_service \<Rightarrow> catalog_op list \<Rightarrow> unit act" where
  "catalog_history s h [] = ret ()"
| "catalog_history s h (op # ops) = andThen (catalog_step s h op) (\<lambda>_. catalog_history s h ops)"

lemma catalog_ok_cong:
  "models db' = models db \<Longrightarrow> model_pricing_versions db' = model_pricing_versions db \<Longrightarrow> catalog_ok db' = catalog_ok db"
  by (simp add: catalog_ok_def pricing_ok_def)

lemma initial_version_Inr:
  assumes "CreateInitialVersionWithQueries model now E w = (Inr v, w')"
  shows "w_db w' = (w_db w)\<lparr>model_pricing_versions := model_pricing_versions (w_db w) @ [v]\<rparr>"
    "active_version (md_OrgID model) (md_ID model) v" "prices_match model v" "pv_Version v = 1"
    "version_key v \<notin> version_key ` set (model_pricing_versions (w_db w))"
proof -
  have "\<not> (md_OrgID model = uuid_Nil \<or> md_ID model = uuid_Nil)"
    using assms by (auto simp: CreateInitialVersionWithQueries_def fail_Inr)
  then obtain since w0 i w1 where start: "(if time_IsZero now then clock_now else ret now) E w = (Inr since, w0)"
    and i: "new_uuid E w0 = (Inr i, w1)" and row: "CreateModelPricingVersion
          \<lparr>pv_ID = i, pv_OrgID = md_OrgID model, pv_ModelID = md_ID model, pv_Version = 1,
           pv_InputPriceMicroUsdPer1kTokens = md_InputPriceMicroUsdPer1kTokens model,
           pv_OutputPriceMicroUsdPer1kTokens = md_OutputPriceMicroUsdPer1kTokens model,
           pv_Status = PricingStatusActive, pv_EffectiveFrom = since, pv_EffectiveTo = None,
           pv_CreatedAt = since\<rparr> E w1 = (Inr v, w')"
    using assms unfolding CreateInitialVersionWithQueries_def by (simp only: if_False andThen_Inr) blast
  have "w_db w1 = w_db w" using start i by (cases "time_IsZero now") (auto simp: clock_now_Inr ret_Inr new_uuid_Inr)
  then show "w_db w' = (w_db w)\<lparr>model_pricing_versions := model_pricing_versions (w_db w) @ [v]\<rparr>"
    "active_version (md_OrgID model) (md_ID model) v" "prices_match model v" "pv_Version v = 1"
    "version_key v \<notin> version_key ` set (model_pricing_versions (w_db w))"
    using CreateModelPricingVersion_Inr [OF row] by (auto simp: active_version_def prices_match_def)
qed

lemma CreateModel_row_Inr:
  assumes "CreateModel_row r E w = (Inr m, w')"
  shows "m = r" "w_db w' = (w_db w)\<lparr>models := models (w_db w) @ [r]\<rparr>" "md_ID r \<notin> md_ID ` set (models (w_db w))"
  using assms by (auto simp: CreateModel_row_def act_inr list_ex_iff)

lemma create_model_tx_Inr:
  assumes "create_model_tx p now E w = (Inr m, w')"
  obtains v where "w_db w' = (w_db w)\<lparr>models := models (w_db w) @ [m], model_pricing_versions := model_pricing_versions (w_db w) @ [v]\<rparr>"
    "active_version (md_OrgID m) (md_ID m) v" "prices_match m v" "md_ID m \<notin> md_ID ` set (models (w_db w))"
    "version_key v \<notin> version_key ` set (model_pricing_versions (w_db w))"
proof -
  from assms obtain r w1 v where row: "CreateModel_row r E (tick w) = (Inr m, w1)"
    and ver: "CreateInitialVersionWithQueries m now E w1 = (Inr v, w')"
    by (auto simp: create_model_tx_def andThen_Inr new_uuid_Inr ret_Inr)
  show ?thesis
    using CreateModel_row_Inr [OF row] initial_version_Inr [OF ver] by (intro that [of v]) auto
qed

lemma catalog_ok_new_model:
  assumes ok: "catalog_ok db" and v: "active_version (md_OrgID m) (md_ID m) v" "prices_match m v"
    and fresh: "md_ID m \<notin> md_ID ` set (models db)" "version_key v \<notin> version_key ` set (model_pricing_versions db)"
  shows "catalog_ok (db\<lparr>models := models db @ [m], model_pricing_versions := model_pricing_versions db @ [v]\<rparr>)"
proof -
  have none: "md_ID m \<noteq> pv_ModelID x" if x: "x \<in> set (model_pricing_versions db)" for x
  proof -
    obtain y where "y \<in> set (models db)" "md_ID y = pv_ModelID x" using ok x by (auto simp: catalog_ok_def)
    then show ?thesis using fresh(1) by (metis image_eqI)
  qed
  have key: "pv_ModelID v = md_ID m" "pv_OrgID v = md_OrgID m" "pv_Status v = ''active''" using v(1) by (auto simp: active_version_def)
  have "prices_match x y" if "y \<in> set (model_pricing_versions db @ [v])" "x \<in> set (models db @ [m])"
    "active_version (md_OrgID x) (md_ID x) y" for x y
  proof (cases "x = m")
    case True
    then have "pv_ModelID y = md_ID m" using that(3) by (simp add: active_version_def)
    then have "y = v" using that(1) none [of y] by auto
    then show ?thesis using True v(2) by simp
  next
    case False
    then have "x \<in> set (models db)" using that(2) by simp
    moreover from this have "md_ID x \<noteq> md_ID m" using fresh(1) by (metis image_eqI)
    then have "y \<noteq> v" using that(3) key by (auto simp: active_version_def)
    ultimately show ?thesis using that ok by (auto simp: catalog_ok_def pricing_ok_def)
  qed
  moreover have "(pv_OrgID v, pv_ModelID v) \<notin> (\<lambda>v. (pv_OrgID v, pv_ModelID v)) ` set (model_pricing_versions db)"
    using none key by auto
  ultimately have "pricing_ok (db\<lparr>models := models db @ [m], model_pricing_versions := model_pricing_versions db @ [v]\<rparr>)"
    using ok fresh(2) key by (auto simp: catalog_ok_def pricing_ok_def)
  moreover have "distinct (map md_ID (models db @ [m]))" using ok fresh(1) by (auto simp: catalog_ok_def)
  ultimately show ?thesis using ok v(1) key by (auto simp: catalog_ok_def)
qed

lemma keeps_CreateModel: "keeps catalog_ok (CreateModel p)"
proof -
  have tx: "keeps catalog_ok (ExecTx (create_model_tx p now))" for now
  proof (rule keepsI)
    fix E and w :: world assume ok: "catalog_ok (w_db w)"
    show "catalog_ok (w_db (snd (ExecTx (create_model_tx p now) E w)))"
    proof (cases rule: ExecTx_cases [of "create_model_tx p now" E w])
      case aborted
      then show ?thesis using ok by simp
    next
      case (committed m w2)
      then show ?thesis using create_model_tx_Inr [OF committed(1)] catalog_ok_new_model [of "w_db w" m] ok
        by (metis snd_conv tick_simps(1))
    qed
  qed
  show ?thesis unfolding CreateModel_def GetProvider_def
    by (intro keeps_sum keeps_fail keeps_andThen keeps_no_rows_as keeps_db_read keeps_clock tx)
qed

lemma catalog_ok_reprice:
  assumes ok: "catalog_ok db" and v: "active_version org i v"
    and price: "pv_InputPriceMicroUsdPer1kTokens v = up_InputPrice p" "pv_OutputPriceMicroUsdPer1kTokens v = up_OutputPrice p"
    and fresh: "version_key v \<notin> version_key ` set (model_pricing_versions db)"
    and p: "up_OrgID p = org" "up_ModelID p = i"
    and model: "\<exists>m \<in> set (models db). md_OrgID m = org \<and> md_ID m = i"
  shows "catalog_ok (db\<lparr>
       models := update_rows (\<lambda>x. md_OrgID x = org \<and> md_ID x = i) (reprice p t) (models db),
       model_pricing_versions := update_rows (active_version org i) (supersede t) (model_pricing_versions db) @ [v]\<rparr>)"
    (is "catalog_ok ?db")
proof -
  let ?sel = "\<lambda>x. md_OrgID x = org \<and> md_ID x = i"
  have "pricing_ok ?db" using ok v price fresh p by (intro pricing_ok_update) (auto simp: catalog_ok_def)
  moreover have ids: "map (\<lambda>m. (md_OrgID m, md_ID m)) (update_rows ?sel (reprice p t) (models db)) = map (\<lambda>m. (md_OrgID m, md_ID m)) (models db)"
    by (rule map_update_rows) simp
  moreover have "map md_ID (update_rows ?sel (reprice p t) (models db)) = map md_ID (models db)"
    by (rule map_update_rows) simp
  moreover have "\<exists>m \<in> set (models ?db). md_OrgID m = pv_OrgID x \<and> md_ID m = pv_ModelID x" if "x \<in> set (model_pricing_versions ?db)" for x
  proof -
    have "\<exists>m \<in> set (models db). (md_OrgID m, md_ID m) = (pv_OrgID x, pv_ModelID x)"
      using that v model ok by (auto simp: update_rows_def active_version_def catalog_ok_def)
    then have "(pv_OrgID x, pv_ModelID x) \<in> set (map (\<lambda>m. (md_OrgID m, md_ID m)) (models db))" by (auto simp: image_iff intro: rev_bexI)
    then have "(pv_OrgID x, pv_ModelID x) \<in> set (map (\<lambda>m. (md_OrgID m, md_ID m)) (models ?db))" using ids by simp
    then show ?thesis by auto
  qed
  moreover have "\<exists>x \<in> set (model_pricing_versions ?db). active_version (md_OrgID m) (md_ID m) x" if "m \<in> set (models ?db)" for m
  proof (cases "md_OrgID m = org \<and> md_ID m = i")
    case True
    then show ?thesis using v by auto
  next
    case False
    then have "m \<in> set (models db)" using that by (auto simp: update_rows_def)
    then obtain x where "x \<in> set (model_pricing_versions db)" "active_version (md_OrgID m) (md_ID m) x"
      using ok by (auto simp: catalog_ok_def)
    then show ?thesis using False by (intro bexI [of _ x]) (auto simp: update_rows_def active_version_def)
  qed
  ultimately show ?thesis using ok by (auto simp: catalog_ok_def)
qed

lemma update_pricing_tx_model:
  "update_pricing_tx p now E w = (Inr u, w2) \<Longrightarrow> \<exists>m \<in> set (models (w_db w)). md_OrgID m = up_OrgID p \<and> md_ID m = up_ModelID p"
  by (auto simp: update_pricing_tx_def andThen_Inr no_rows_as_Inr GetModel_def db_read_Inr dest!: first_row_Inr)

lemma keeps_UpdateModelPricing: "keeps catalog_ok (UpdateModelPricing p)"
proof -
  have tx: "keeps catalog_ok (ExecTx (update_pricing_tx p now))" for now
  proof (rule keepsI)
    fix E and w :: world assume ok: "catalog_ok (w_db w)"
    show "catalog_ok (w_db (snd (ExecTx (update_pricing_tx p now) E w)))"
    proof (cases rule: ExecTx_cases [of "update_pricing_tx p now" E w])
      case aborted
      then show ?thesis using ok by simp
    next
      case (committed u w2)
      from committed(1) have "catalog_ok (w_db w2)"
        by (rule update_pricing_tx_effect)
          (use catalog_ok_reprice [OF ok] update_pricing_tx_model [OF committed(1)] in auto)
      then show ?thesis using committed(2) by simp
    qed
  qed
  show ?thesis unfolding UpdateModelPricing_def by (intro keeps_if keeps_fail keeps_andThen keeps_clock tx)
qed

lemma keeps_ring_Seal: "keeps I (ring_Seal gcm r plaintext)"
  unfolding ring_Seal_def box_Seal_def random_bytes_def by (intro keeps_rules)

text \<open>Statements that only touch the tables of providers.\<close>

definition of_prices :: "(database \<Rightarrow> bool) \<Rightarrow> bool" where
  "of_prices I \<longleftrightarrow> (\<forall>db db'. models db' = models db \<longrightarrow> model_pricing_versions db' = model_pricing_versions db \<longrightarrow> I db \<longrightarrow> I db')"

lemma keeps_provider_rows:
  assumes "of_prices I"
  shows "keeps I (CreateProvider_row r)" "keeps I (UpsertProviderSecret q)" "keeps I (UpdateProviderHealth org i status checked code message now)"
  using assms unfolding CreateProvider_row_def UpsertProviderSecret_def UpdateProviderHealth_def
  by (auto simp: of_prices_def Let_def intro!: keeps_sql_insert keeps_db_exec keeps_if keeps_update_returning
      split: if_splits list.splits)

lemma keeps_CreateProvider: "of_prices I \<Longrightarrow> keeps I (CreateProvider s p)"
  unfolding CreateProvider_def create_provider_tx_def store_api_key_def
  by (intro keeps_rules keeps_provider_rows keeps_ring_Seal)

lemma keeps_client: "keeps I (health_Do s t url key)"
  by (simp add: keeps_def health_Do_def)

lemma keeps_health_Check: "of_prices I \<Longrightarrow> keeps I (health_Check s org i)"
  unfolding health_Check_def checkOpenAICompatible_def GetProvider_def GetProviderSecret_def
  by (intro keeps_rules keeps_provider_rows keeps_no_rows_as keeps_client) simp_all

lemma keeps_catalog_step: "keeps catalog_ok (catalog_step s h op)"
proof -
  have "of_prices catalog_ok" unfolding of_prices_def using catalog_ok_cong by blast
  then show ?thesis
    by (cases op) (auto intro!: keeps_andThen keeps_attempt keeps_ret keeps_CreateProvider keeps_health_Check
        keeps_CreateModel keeps_UpdateModelPricing)
qed

lemma keeps_catalog_history: "keeps catalog_ok (catalog_history s h ops)"
  by (induction ops) (auto intro: keeps_ret keeps_andThen keeps_catalog_step)

lemma filter_key_eq: "distinct (map f xs) \<Longrightarrow> x \<in> set xs \<Longrightarrow> filter (\<lambda>y. f y = f x) xs = [x]"
  by (induction xs) (auto simp: filter_empty_conv image_iff)

lemma catalog_ok_active:
  assumes ok: "catalog_ok db" and m: "m \<in> set (models db)"
  obtains v where "filter (active_version (md_OrgID m) (md_ID m)) (model_pricing_versions db) = [v]" "prices_match m v"
proof -
  let ?act = "filter (\<lambda>v. pv_Status v = PricingStatusActive) (model_pricing_versions db)"
  let ?key = "\<lambda>v. (pv_OrgID v, pv_ModelID v)"
  obtain v where v: "v \<in> set (model_pricing_versions db)" "active_version (md_OrgID m) (md_ID m) v"
    using ok m by (auto simp: catalog_ok_def)
  have "filter (\<lambda>y. ?key y = ?key v) ?act = [v]"
    using ok v by (intro filter_key_eq) (auto simp: catalog_ok_def pricing_ok_def active_version_def)
  moreover have "filter (active_version (md_OrgID m) (md_ID m)) (model_pricing_versions db) = filter (\<lambda>y. ?key y = ?key v) ?act"
    using v(2) by (auto simp: active_version_def intro!: filter_cong)
  moreover have "prices_match m v" using ok v m by (auto simp: catalog_ok_def pricing_ok_def)
  ultimately show ?thesis using that by simp
qed

text \<open>
  C34: Whatever the console does to providers, models and prices, in any order, and whichever statements fail on the
  way, every model that exists can be charged: asked for its price in force, the service returns exactly one version,
  the only active one, with the prices of the model's row. A model is never left without a price or with two.
\<close>

theorem catalog_always_priced:
  assumes ok: "catalog_ok (w_db w)" and run: "catalog_history s h ops E w = (r, w')"
    and later: "w_db w1 = w_db w'" and model: "m \<in> set (models (w_db w1))" and up: "\<not> env_fault E1 (w_step w1)"
  shows "catalog_ok (w_db w') \<and>
    (\<exists>v. GetActiveModelPricingVersion (md_OrgID m) (md_ID m) E1 w1 = (Inr v, tick w1) \<and> prices_match m v \<and>
       filter (active_version (md_OrgID m) (md_ID m)) (model_pricing_versions (w_db w')) = [v])"
proof -
  have ok': "catalog_ok (w_db w')" using keepsD [OF keeps_catalog_history ok run] .
  then obtain v where v: "filter (active_version (md_OrgID m) (md_ID m)) (model_pricing_versions (w_db w')) = [v]" "prices_match m v"
    using catalog_ok_active [of "w_db w'" m] model later by auto
  then have "GetActiveModelPricingVersion (md_OrgID m) (md_ID m) E1 w1 = (Inr v, tick w1)"
    using up later by (simp add: GetActiveModelPricingVersion_def GetActiveModelPricingVersion_row_def no_rows_as_apply db_read_apply)
  then show ?thesis using ok' v by blast
qed

definition demo_new_model :: CreateModelParams where
  "demo_new_model = \<lparr>cmp_OrgID = 1, cmp_ProviderID = 3, cmp_ProviderModelName = ''large'', cmp_DisplayName = ''Large'',
     cmp_InputPrice = 500, cmp_OutputPrice = 900, cmp_ContextWindow = None\<rparr>"

definition demo_health :: health_service where
  "demo_health = \<lparr>sh_gcm = demo_cipher, sh_net = demo_names, sh_secretKeyRing = None, sh_publicOutboundOnly = True, sh_client = (\<lambda>_ _ _ _. Reply 200)\<rparr>"

abbreviation demo_ops :: "catalog_op list" where
  "demo_ops \<equiv> [AddModel demo_new_model, Reprice \<lparr>up_OrgID = 1, up_ModelID = 4, up_InputPrice = 200, up_OutputPrice = 700\<rparr>, Probe 1 3]"

lemma demo_models: "map md_ProviderModelName (models (w_db (snd (catalog_history demo_provider_service demo_health demo_ops demo_env (world_of demo_db)))))
    = [''m'', ''large'']"
  by code_simp

theorem catalog_always_priced_witness:
  "\<exists>m v. md_ProviderModelName m = ''large'' \<and>
     fst (GetActiveModelPricingVersion (md_OrgID m) (md_ID m) demo_env
       (snd (catalog_history demo_provider_service demo_health demo_ops demo_env (world_of demo_db)))) = Inr v \<and> prices_match m v"
proof -
  let ?run = "catalog_history demo_provider_service demo_health demo_ops demo_env (world_of demo_db)"
  have ok: "catalog_ok (w_db (world_of demo_db))"
    by (simp add: demo_defs catalog_ok_def pricing_ok_def version_key_def prices_match_def active_version_def)
  have "''large'' \<in> set (map md_ProviderModelName (models (w_db (snd ?run))))" unfolding demo_models by simp
  then obtain m where m: "m \<in> set (models (w_db (snd ?run)))" "md_ProviderModelName m = ''large''"
    unfolding set_map by (elim imageE) simp
  have "\<not> env_fault demo_env (w_step (snd ?run))" by (simp add: demo_env_def)
  from catalog_always_priced [OF ok _ refl m(1) this, of demo_provider_service demo_health demo_ops demo_env "fst ?run"]
  show ?thesis using m(2) by auto
qed

section \<open>What a healthy provider is\<close>

lemma probe_result_ok: "probe_result reply = (code, message) \<Longrightarrow> code = [] \<longleftrightarrow> (\<exists>status. reply = Reply status \<and> 200 \<le> status \<and> status < 300)"
  by (cases reply) (auto split: if_splits)

lemma probe_silent: "([], message) = probe_result reply \<Longrightarrow> \<exists>status. reply = Reply status \<and> 200 \<le> status \<and> status < 300"
  using probe_result_ok [of reply "[]" message] by simp

text \<open>The probe of a real provider is silent only if the stored key was sent to its checked URL and the answer was a 2xx.\<close>

lemma checkOpenAICompatible_ok:
  assumes "checkOpenAICompatible s item E w = (Inr ([], message), w')"
  shows "\<exists>base secret ring key n status. pr_BaseUrl item = Some base \<and>
    ValidateOutboundHTTPURL (sh_net s) base ''provider base_url'' (sh_publicOutboundOnly s) = Inr () \<and>
    secret \<in> set (provider_secrets (w_db w)) \<and> ps_OrgID secret = pr_OrgID item \<and> ps_ProviderID secret = pr_ID item \<and>
    sh_secretKeyRing s = Some ring \<and>
    ring_Open (sh_gcm s) ring (ps_EncryptedApiKey secret) (ps_Nonce secret) (ps_KeyVersion secret) = Inr key \<and>
    sh_client s (if pr_TimeoutMs item \<le> 0 then 30000 else pr_TimeoutMs item) (providerModelsURL base) key n = Reply status \<and>
    200 \<le> status \<and> status < 300"
  using assms unfolding checkOpenAICompatible_def
  by (auto simp: andThen_Inr attempt_Inr ret_Inr blank_def Let_def health_Do_def GetProviderSecret_def db_read_apply
      split: if_splits sum.splits option.splits dest!: first_row_Inr probe_silent) blast+

lemma keeps_check: "keeps I (checkOpenAICompatible s item)"
  unfolding checkOpenAICompatible_def GetProviderSecret_def by (intro keeps_rules keeps_client)

lemma health_Check_Inr:
  assumes "health_Check s org i E w = (Inr row, w')"
  obtains item code message w1 where "item \<in> set (providers (w_db w))" "pr_OrgID item = org" "pr_ID item = i"
    "pr_LastHealthStatus row = Some (if code = [] then ''healthy'' else ''unhealthy'')" "pr_Type row = pr_Type item"
    "if pr_Type item = ''openai_compatible'' then checkOpenAICompatible s item E (tick w) = (Inr (code, message), w1) else code = []"
proof -
  from assms obtain item code message w1 now where get: "GetProvider org i E w = (Inr item, tick w)"
    and check: "(if pr_Type item = ''openai_compatible'' then checkOpenAICompatible s item else ret ([], [])) E (tick w) = (Inr (code, message), w1)"
    and upd: "UpdateProviderHealth org i (Some (if code \<noteq> [] then ''unhealthy'' else ''healthy'')) (Some now)
       (nullable_text code) (nullable_text message) now E (tick w1) = (Inr row, w')"
    unfolding health_Check_def
    by (auto simp: andThen_Inr no_rows_as_Inr clock_now_Inr GetProvider_def db_read_Inr split: prod.splits)
  have "keeps (\<lambda>db. db = w_db w) (if pr_Type item = ''openai_compatible'' then checkOpenAICompatible s item else ret ([], []))"
    by (intro keeps_if keeps_check keeps_ret)
  then have db: "w_db w1 = w_db w" unfolding keeps_def by (elim allE [where x = E] allE [where x = "tick w"]) (simp only: check tick_simps snd_conv)
  have row: "first_row (filter (\<lambda>r. pr_OrgID r = org \<and> pr_ID r = i) (providers (w_db w))) = Inr item"
    using get by (simp add: GetProvider_def db_read_Inr)
  then have "pr_Type row = pr_Type item" "pr_LastHealthStatus row = Some (if code = [] then ''healthy'' else ''unhealthy'')"
    using upd db by (auto simp: UpdateProviderHealth_def update_returning_Inr split: if_splits)
  then show ?thesis using that first_row_Inr [OF row] check by (auto simp: ret_Inr split: if_splits)
qed

text \<open>
  A provider is shown as healthy only if it is the mock or the service reached it with the key stored for it, at
  a URL that passes the checks on outbound addresses.
\<close>

lemma healthy_was_reached:
  assumes run: "health_Check s org i E w = (Inr row, w')" and "pr_LastHealthStatus row = Some ''healthy''"
    and "pr_Type row = ''openai_compatible''"
  shows "\<exists>item base secret ring key n status. item \<in> set (providers (w_db w)) \<and> pr_OrgID item = org \<and> pr_ID item = i \<and>
    pr_BaseUrl item = Some base \<and> ValidateOutboundHTTPURL (sh_net s) base ''provider base_url'' (sh_publicOutboundOnly s) = Inr () \<and>
    secret \<in> set (provider_secrets (w_db w)) \<and> ps_OrgID secret = org \<and> ps_ProviderID secret = i \<and> sh_secretKeyRing s = Some ring \<and>
    ring_Open (sh_gcm s) ring (ps_EncryptedApiKey secret) (ps_Nonce secret) (ps_KeyVersion secret) = Inr key \<and>
    sh_client s (if pr_TimeoutMs item \<le> 0 then 30000 else pr_TimeoutMs item) (providerModelsURL base) key n = Reply status \<and>
    200 \<le> status \<and> status < 300"
proof -
  obtain item code message w1 where item: "item \<in> set (providers (w_db w))" "pr_OrgID item = org" "pr_ID item = i" "code = []"
    and check: "checkOpenAICompatible s item E (tick w) = (Inr (code, message), w1)"
    using assms by (elim health_Check_Inr) (auto split: if_splits)
  show ?thesis using checkOpenAICompatible_ok [OF check [unfolded item(4)]] item by fastforce
qed

end
