(* ===== verification/Adapters.thy ===== *)
theory Adapters
  imports Edge
begin

text \<open>
  The adapters behind the provider contract: \<^verbatim>\<open>internal/provider/openai_compatible\<close> and
  \<^verbatim>\<open>internal/provider/mock\<close>. The HTTP client, the parser of JSON texts and the clock are functions of the
  interaction number. Messages of errors are left out, as everywhere; spans are observability.
\<close>

section \<open>The client\<close>

record http_request =
  hr_URL :: string
  hr_APIKey :: string
  hr_Accept :: string
  hr_Body :: json
  hr_TimeoutMS :: int

text \<open>
  How a body ends: at its end, or with an error while the context of the call is alive or not. The
  answer to a request is a status with a body, or an error of the client that is a timeout or not.
\<close>

datatype stream_end = EndOfFile | ReadError bool err

datatype http_answer = Answer int string stream_end | NoAnswer bool err

record openai_lib =
  oa_Do :: "http_request \<Rightarrow> nat \<Rightarrow> http_answer"
  oa_NewRequest_ok :: "string \<Rightarrow> bool"
  oa_Unmarshal :: "string \<Rightarrow> raw_json"
  oa_Decode :: "string \<Rightarrow> raw_json option"
  oa_latency_ms :: "nat \<Rightarrow> int"

section \<open>The request\<close>

definition upstreamChatCompletionsURL :: "string \<Rightarrow> string" where
  "upstreamChatCompletionsURL baseURL = rev (dropWhile (\<lambda>c. c = CHR ''/'') (rev baseURL)) @ ''/chat/completions''"

definition message_json :: "ChatMessage \<Rightarrow> json" where
  "message_json m = JObj [(''role'', JStr (cm_Role m)), (''content'', JStr (cm_Content m))]"

definition number_json :: "rat \<Rightarrow> json" where
  "number_json q = (case quotient_of q of (a, b) \<Rightarrow> if b = 1 then JInt a else JFrac q)"

text \<open>The body as it is marshalled: pointers with \<^verbatim>\<open>omitempty\<close> are left out when nil.\<close>

definition upstream_body :: "ChatRequest \<Rightarrow> (string \<times> json) list \<Rightarrow> json" where
  "upstream_body req extra = JObj ([(''model'', JStr (mf_ProviderModelName (cq_Model req))),
     (''messages'', JArr (map message_json (cq_Messages req)))] @
     (case cq_Temperature req of Some t \<Rightarrow> [(''temperature'', number_json t)] | None \<Rightarrow> []) @
     (case cq_MaxTokens req of Some n \<Rightarrow> [(''max_tokens'', JInt n)] | None \<Rightarrow> []) @ extra)"

definition newUpstreamRequest :: "ChatRequest \<Rightarrow> json" where
  "newUpstreamRequest req = upstream_body req [(''stream'', JBool False)]"

definition newStreamingUpstreamRequest :: "ChatRequest \<Rightarrow> json" where
  "newStreamingUpstreamRequest req =
     upstream_body req [(''stream'', JBool True), (''stream_options'', JObj [(''include_usage'', JBool True)])]"

definition provider_error :: "string \<Rightarrow> err option \<Rightarrow> err" where
  "provider_error code cause = ProviderErr code 0 False cause"

definition upstreamStatusError :: "int \<Rightarrow> err" where
  "upstreamStatusError status =
     ProviderErr (if 500 \<le> status then ''provider_unavailable'' else ''provider_error'') status (status = 429 \<or> 500 \<le> status) None"

definition upstream_http :: "string \<Rightarrow> json \<Rightarrow> ChatRequest \<Rightarrow> http_request" where
  "upstream_http accept body req =
     \<lparr>hr_URL = upstreamChatCompletionsURL (pf_BaseURL (cq_Provider req)), hr_APIKey = pf_APIKey (cq_Provider req), hr_Accept = accept,
      hr_Body = body, hr_TimeoutMS = (if pf_TimeoutMS (cq_Provider req) \<le> 0 then 30000 else pf_TimeoutMS (cq_Provider req))\<rparr>"

text \<open>What both calls do before they look at a body: check the configuration, send, and sort out the failures.\<close>

definition send_upstream :: "openai_lib \<Rightarrow> string \<Rightarrow> json \<Rightarrow> ChatRequest \<Rightarrow> nat \<Rightarrow> (string \<times> stream_end) outcome" where
  "send_upstream lib accept body req n =
     (if TrimSpace (pf_BaseURL (cq_Provider req)) = [] then Inl (provider_error ''provider_error'' None)
      else if TrimSpace (pf_APIKey (cq_Provider req)) = [] then Inl (provider_error ''provider_error'' None)
      else if \<not> oa_NewRequest_ok lib (upstreamChatCompletionsURL (pf_BaseURL (cq_Provider req)))
      then Inl (provider_error ''provider_error'' (Some (ErrMsg ''invalid URL'')))
      else case oa_Do lib (upstream_http accept body req) n of
        NoAnswer timeout cause \<Rightarrow> Inl (provider_error (if timeout then ''provider_timeout'' else ''provider_unavailable'') (Some cause))
      | Answer status text ending \<Rightarrow>
          if status < 200 \<or> 300 \<le> status then Inl (upstreamStatusError status) else Inr (text, ending))"

section \<open>Usage and answers\<close>

text \<open>
  Decoding into a struct with pointers: a repeated member is decoded over the earlier one. Of the choices
  the first alone is kept, as the code reads no other; \<open>None\<close> is an empty or absent slice.
\<close>

record upstreamUsage =
  uu_PromptTokens :: "int option"
  uu_CompletionTokens :: "int option"
  uu_TotalTokens :: "int option"

definition no_usage :: upstreamUsage where
  "no_usage = \<lparr>uu_PromptTokens = None, uu_CompletionTokens = None, uu_TotalTokens = None\<rparr>"

fun decode_usage_members :: "(string \<times> json) list \<Rightarrow> upstreamUsage \<Rightarrow> upstreamUsage outcome" where
  "decode_usage_members [] u = Inr u"
| "decode_usage_members ((k, v) # rest) u =
     (if ToLower k = ''prompt_tokens'' then
        (case decode_int v of Inl e \<Rightarrow> Inl e | Inr n \<Rightarrow> decode_usage_members rest (u\<lparr>uu_PromptTokens := n\<rparr>))
      else if ToLower k = ''completion_tokens'' then
        (case decode_int v of Inl e \<Rightarrow> Inl e | Inr n \<Rightarrow> decode_usage_members rest (u\<lparr>uu_CompletionTokens := n\<rparr>))
      else if ToLower k = ''total_tokens'' then
        (case decode_int v of Inl e \<Rightarrow> Inl e | Inr n \<Rightarrow> decode_usage_members rest (u\<lparr>uu_TotalTokens := n\<rparr>))
      else decode_usage_members rest u)"

fun decode_usage :: "json \<Rightarrow> upstreamUsage option \<Rightarrow> upstreamUsage option outcome" where
  "decode_usage JNull old = Inr None"
| "decode_usage (JObj members) old =
     (case decode_usage_members members (case old of Some u \<Rightarrow> u | None \<Rightarrow> no_usage) of Inl e \<Rightarrow> Inl e | Inr u \<Rightarrow> Inr (Some u))"
| "decode_usage _ old = Inl ErrJSON"

record upstreamChoice =
  uc_Index :: int
  uc_Message :: ChatMessage
  uc_FinishReason :: string

definition no_choice :: upstreamChoice where
  "no_choice = \<lparr>uc_Index = 0, uc_Message = \<lparr>cm_Role = [], cm_Content = []\<rparr>, uc_FinishReason = []\<rparr>"

fun decode_message_over :: "json \<Rightarrow> ChatMessage \<Rightarrow> ChatMessage outcome" where
  "decode_message_over (JObj members) old = decode_message_members members old"
| "decode_message_over JNull old = Inr old"
| "decode_message_over _ old = Inl ErrJSON"

fun decode_choice_members :: "(string \<times> json) list \<Rightarrow> upstreamChoice \<Rightarrow> upstreamChoice outcome" where
  "decode_choice_members [] c = Inr c"
| "decode_choice_members ((k, v) # rest) c =
     (if ToLower k = ''index'' then
        (case decode_int v of Inl e \<Rightarrow> Inl e
         | Inr n \<Rightarrow> decode_choice_members rest (case n of Some i \<Rightarrow> c\<lparr>uc_Index := i\<rparr> | None \<Rightarrow> c))
      else if ToLower k = ''message'' then
        (case decode_message_over v (uc_Message c) of Inl e \<Rightarrow> Inl e | Inr m \<Rightarrow> decode_choice_members rest (c\<lparr>uc_Message := m\<rparr>))
      else if ToLower k = ''finish_reason'' then
        (case decode_string v (uc_FinishReason c) of Inl e \<Rightarrow> Inl e | Inr s \<Rightarrow> decode_choice_members rest (c\<lparr>uc_FinishReason := s\<rparr>))
      else decode_choice_members rest c)"

fun decode_choice :: "json \<Rightarrow> upstreamChoice \<Rightarrow> upstreamChoice outcome" where
  "decode_choice (JObj members) old = decode_choice_members members old"
| "decode_choice JNull old = Inr old"
| "decode_choice _ old = Inl ErrJSON"

fun decode_choices :: "json \<Rightarrow> upstreamChoice option \<Rightarrow> upstreamChoice option outcome" where
  "decode_choices JNull old = Inr None"
| "decode_choices (JArr []) old = Inr None"
| "decode_choices (JArr (j # js)) old =
     (case decode_choice j (case old of Some c \<Rightarrow> c | None \<Rightarrow> no_choice) of
        Inl e \<Rightarrow> Inl e
      | Inr c \<Rightarrow> if list_all (\<lambda>x. is_ok (decode_choice x no_choice)) js then Inr (Some c) else Inl ErrJSON)"
| "decode_choices _ old = Inl ErrJSON"

record upstreamResponse =
  ur_ID :: string
  ur_Choice :: "upstreamChoice option"
  ur_Usage :: "upstreamUsage option"

fun decode_response_members :: "(string \<times> json) list \<Rightarrow> upstreamResponse \<Rightarrow> upstreamResponse outcome" where
  "decode_response_members [] r = Inr r"
| "decode_response_members ((k, v) # rest) r =
     (if ToLower k = ''id'' then
        (case decode_string v (ur_ID r) of Inl e \<Rightarrow> Inl e | Inr s \<Rightarrow> decode_response_members rest (r\<lparr>ur_ID := s\<rparr>))
      else if ToLower k = ''choices'' then
        (case decode_choices v (ur_Choice r) of Inl e \<Rightarrow> Inl e | Inr c \<Rightarrow> decode_response_members rest (r\<lparr>ur_Choice := c\<rparr>))
      else if ToLower k = ''usage'' then
        (case decode_usage v (ur_Usage r) of Inl e \<Rightarrow> Inl e | Inr u \<Rightarrow> decode_response_members rest (r\<lparr>ur_Usage := u\<rparr>))
      else decode_response_members rest r)"

definition no_response :: upstreamResponse where
  "no_response = \<lparr>ur_ID = [], ur_Choice = None, ur_Usage = None\<rparr>"

fun decode_response :: "raw_json \<Rightarrow> upstreamResponse outcome" where
  "decode_response (RawValid (JObj members)) = decode_response_members members no_response"
| "decode_response (RawValid JNull) = Inr no_response"
| "decode_response _ = Inl ErrJSON"

text \<open>
  \<^verbatim>\<open>Decode\<close> reads the first value of the body; \<open>oa_Decode\<close> is \<open>None\<close> when the text ends before the value does, and
  then the error is how the body ended.
\<close>

definition decode_body :: "openai_lib \<Rightarrow> string \<Rightarrow> stream_end \<Rightarrow> upstreamResponse outcome" where
  "decode_body lib body ending = (case oa_Decode lib body of
     Some v \<Rightarrow> decode_response v
   | None \<Rightarrow> (case ending of EndOfFile \<Rightarrow> Inl ErrJSON | ReadError ctxEnded cause \<Rightarrow> Inl cause))"

text \<open>The token counts, when all three are there; the map of raw counts is marshalled with sorted keys.\<close>

definition full_usage :: "upstreamUsage option \<Rightarrow> (int \<times> int \<times> int) option" where
  "full_usage u = (case u of None \<Rightarrow> None
   | Some v \<Rightarrow> (case (uu_PromptTokens v, uu_CompletionTokens v, uu_TotalTokens v) of
       (Some p, Some c, Some t) \<Rightarrow> Some (p, c, t) | _ \<Rightarrow> None))"

definition raw_usage :: "int \<Rightarrow> int \<Rightarrow> int \<Rightarrow> json" where
  "raw_usage p c t = JObj [(''completion_tokens'', JInt c), (''prompt_tokens'', JInt p), (''total_tokens'', JInt t)]"

definition openai_Chat :: "openai_lib \<Rightarrow> ChatRequest \<Rightarrow> nat \<Rightarrow> ChatResponse outcome" where
  "openai_Chat lib req n =
     (if cq_Stream req then Inl (provider_error ''stream_not_supported'' None)
      else case send_upstream lib ''application/json'' (newUpstreamRequest req) req n of
        Inl e \<Rightarrow> Inl e
      | Inr (text, ending) \<Rightarrow> (case decode_body lib text ending of
          Inl e \<Rightarrow> Inl (provider_error ''provider_error'' (Some e))
        | Inr upstream \<Rightarrow> (case full_usage (ur_Usage upstream) of
            None \<Rightarrow> Inl (provider_error ''usage_missing'' None)
          | Some (p, c, t) \<Rightarrow> (case ur_Choice upstream of
              None \<Rightarrow> Inl (provider_error ''provider_error'' None)
            | Some choice \<Rightarrow> Inr \<lparr>ans_ProviderResponseID = ur_ID upstream, ans_Content = cm_Content (uc_Message choice),
                ans_Role = cm_Role (uc_Message choice), ans_FinishReason = uc_FinishReason choice,
                ans_Usage = \<lparr>ug_PromptTokens = p, ug_CompletionTokens = c, ug_TotalTokens = t\<rparr>,
                ans_LatencyMS = oa_latency_ms lib n, ans_RawUsage = raw_usage p c t\<rparr>))))"

section \<open>Streams\<close>

text \<open>What the chat endpoint writes for an event.\<close>

definition wire :: "string \<Rightarrow> string" where
  "wire data = ''data: '' @ data @ [CHR 0x0A, CHR 0x0A]"

record StreamEvent =
  se_Data :: string
  se_Usage :: "StreamUsage option"
  se_Done :: bool

fun member_usage :: "(string \<times> json) list \<Rightarrow> upstreamUsage option \<Rightarrow> upstreamUsage option outcome" where
  "member_usage [] u = Inr u"
| "member_usage ((k, v) # rest) u = (if ToLower k = ''usage''
     then (case decode_usage v u of Inl e \<Rightarrow> Inl e | Inr u' \<Rightarrow> member_usage rest u') else member_usage rest u)"

fun chunk_usage :: "raw_json \<Rightarrow> upstreamUsage option" where
  "chunk_usage (RawValid (JObj members)) = (case member_usage members None of Inl _ \<Rightarrow> None | Inr u \<Rightarrow> u)"
| "chunk_usage _ = None"

definition parseStreamUsage :: "openai_lib \<Rightarrow> string \<Rightarrow> StreamUsage option" where
  "parseStreamUsage lib data =
     (if data = [] \<or> data = ''[DONE]'' then None
      else case full_usage (chunk_usage (oa_Unmarshal lib data)) of
        None \<Rightarrow> None
      | Some (p, c, t) \<Rightarrow> Some \<lparr>su_PromptTokens = p, su_CompletionTokens = c, su_TotalTokens = t, su_Raw = raw_usage p c t\<rparr>)"

definition emitData :: "openai_lib \<Rightarrow> string \<Rightarrow> StreamEvent" where
  "emitData lib data = \<lparr>se_Data = data, se_Usage = parseStreamUsage lib data, se_Done = (data = ''[DONE]'')\<rparr>"

definition appendDataLine :: "string list \<Rightarrow> string \<Rightarrow> string list" where
  "appendDataLine ls line = (if HasPrefix line ''data:'' then ls @ [TrimSpace (drop 5 line)] else ls)"

fun join_lines :: "string list \<Rightarrow> string" where
  "join_lines [] = []"
| "join_lines [l] = l"
| "join_lines (l # ls) = l @ CHR 0x0A # join_lines ls"

definition trim_eol :: "string \<Rightarrow> string" where
  "trim_eol line = rev (dropWhile (\<lambda>c. c \<in> {CHR 0x0D, CHR 0x0A}) (rev line))"

lemma rest_shorter: "x \<in> set s \<Longrightarrow> length (tl (dropWhile (\<lambda>c. c \<noteq> x) s)) < length s"
  by (induction s) (auto simp: less_Suc_eq)

text \<open>
  The loop of \<^verbatim>\<open>read\<close> over the text that arrives: its events, and whether it stopped at the mark of the
  end. What is left when the text ends is a last line without its newline.
\<close>

function read_stream :: "openai_lib \<Rightarrow> string \<Rightarrow> string list \<Rightarrow> StreamEvent list \<times> bool" where
  "read_stream lib text dataLines =
     (if CHR 0x0A \<notin> set text then
        (let left = (if text \<noteq> [] then appendDataLine dataLines text else dataLines)
         in (if left \<noteq> [] then [emitData lib (join_lines left)] else [], False))
      else
        let line = trim_eol (takeWhile (\<lambda>c. c \<noteq> CHR 0x0A) text); rest = tl (dropWhile (\<lambda>c. c \<noteq> CHR 0x0A) text) in
        if line \<noteq> [] then read_stream lib rest (appendDataLine dataLines line)
        else if dataLines = [] then read_stream lib rest []
        else let event = emitData lib (join_lines dataLines) in
          if se_Done event then ([event], True)
          else case read_stream lib rest [] of (events, stopped) \<Rightarrow> (event # events, stopped))"
  by pat_completeness auto

termination
  by (relation "measure (\<lambda>(lib, text, ls). length text)") (auto simp: rest_shorter simp del: length_tl)

declare read_stream.simps [simp del]

text \<open>The channel and \<^verbatim>\<open>Err\<close> of a stream: a failed read is an error unless the context had ended.\<close>

definition openai_read :: "openai_lib \<Rightarrow> string \<Rightarrow> stream_end \<Rightarrow> StreamEvent list \<times> err option" where
  "openai_read lib text ending = (case read_stream lib text [] of (events, stopped) \<Rightarrow>
     (events, if stopped then None else case ending of
        EndOfFile \<Rightarrow> None
      | ReadError ctxEnded cause \<Rightarrow> if ctxEnded then None else Some (provider_error ''provider_error'' (Some cause))))"

definition openai_StreamChat :: "openai_lib \<Rightarrow> ChatRequest \<Rightarrow> nat \<Rightarrow> (StreamEvent list \<times> err option) outcome" where
  "openai_StreamChat lib req n = (case send_upstream lib ''text/event-stream'' (newStreamingUpstreamRequest req) req n of
     Inl e \<Rightarrow> Inl e
   | Inr (text, ending) \<Rightarrow> Inr (openai_read lib text ending))"

definition NewAdapter :: "openai_lib \<Rightarrow> adapter" where
  "NewAdapter lib = \<lparr>ad_Chat = openai_Chat lib,
     ad_StreamChat = (\<lambda>req n. case openai_StreamChat lib req n of Inl e \<Rightarrow> Inl e | Inr _ \<Rightarrow> Inr ())\<rparr>"

section \<open>The mock\<close>

text \<open>
  A delay ends with the timer, or with the context and then with its error. The channel of a stream holds
  all three events, so none is lost whenever the consumer reads.
\<close>

record mock_adapter =
  mk_err :: "err option"
  mk_delay :: int
  mk_ctx :: "nat \<Rightarrow> err option"
  mk_latency_ms :: "nat \<Rightarrow> int"
  mk_Marshal :: "json \<Rightarrow> string"

definition mockPromptTokens :: int where "mockPromptTokens = 20"

definition mockCompletionTokens :: int where "mockCompletionTokens = 30"

definition mock_cancelled :: "mock_adapter \<Rightarrow> nat \<Rightarrow> err option" where
  "mock_cancelled a n = (if mk_delay a > 0
     then map_option (\<lambda>e. provider_error ''provider_timeout'' (Some e)) (mk_ctx a n) else None)"

definition mock_raw_usage :: json where
  "mock_raw_usage = raw_usage mockPromptTokens mockCompletionTokens (mockPromptTokens + mockCompletionTokens)"

definition mock_Chat :: "mock_adapter \<Rightarrow> ChatRequest \<Rightarrow> nat \<Rightarrow> ChatResponse outcome" where
  "mock_Chat a req n =
     (if cq_Stream req then Inl (provider_error ''stream_not_supported'' None)
      else case mock_cancelled a n of Some e \<Rightarrow> Inl e
      | None \<Rightarrow> (case mk_err a of Some e \<Rightarrow> Inl e
        | None \<Rightarrow> Inr \<lparr>ans_ProviderResponseID = (if cq_RequestID req \<noteq> [] then ''mock_'' @ cq_RequestID req else ''mock_response''),
            ans_Content = ''Mock response'', ans_Role = ''assistant'', ans_FinishReason = ''stop'',
            ans_Usage = \<lparr>ug_PromptTokens = mockPromptTokens, ug_CompletionTokens = mockCompletionTokens,
              ug_TotalTokens = mockPromptTokens + mockCompletionTokens\<rparr>,
            ans_LatencyMS = mk_latency_ms a n, ans_RawUsage = mock_raw_usage\<rparr>))"

definition mock_StreamChat :: "mock_adapter \<Rightarrow> ChatRequest \<Rightarrow> nat \<Rightarrow> StreamEvent list \<times> err option" where
  "mock_StreamChat a req n = (case mock_cancelled a n of Some e \<Rightarrow> ([], Some e)
     | None \<Rightarrow> (case mk_err a of Some e \<Rightarrow> ([], Some e)
       | None \<Rightarrow> ([\<lparr>se_Data = mk_Marshal a (JObj [(''choices'', JArr [JObj [(''delta'', JObj [(''content'', JStr ''Mock response''),
              (''role'', JStr ''assistant'')]), (''index'', JInt 0)]]), (''id'', JStr (''mock_'' @ cq_RequestID req))]),
            se_Usage = None, se_Done = False\<rparr>,
          \<lparr>se_Data = mk_Marshal a (JObj [(''choices'', JArr []), (''id'', JStr (''mock_'' @ cq_RequestID req)), (''usage'', mock_raw_usage)]),
            se_Usage = Some \<lparr>su_PromptTokens = mockPromptTokens, su_CompletionTokens = mockCompletionTokens,
              su_TotalTokens = mockPromptTokens + mockCompletionTokens, su_Raw = mock_raw_usage\<rparr>, se_Done = False\<rparr>,
          \<lparr>se_Data = ''[DONE]'', se_Usage = None, se_Done = True\<rparr>], None)))"

section \<open>What is retried\<close>

text \<open>An upstream answer worth another attempt: none at all unless the caller gave up, 429, or 5xx.\<close>

fun transient_answer :: "http_answer \<Rightarrow> bool" where
  "transient_answer (NoAnswer timeout cause) = (\<not> is_canceled cause)"
| "transient_answer (Answer status body ending) = (status = 429 \<or> 500 \<le> status)"

definition configured :: "openai_lib \<Rightarrow> ChatRequest \<Rightarrow> bool" where
  "configured lib req \<longleftrightarrow> \<not> cq_Stream req \<and> TrimSpace (pf_BaseURL (cq_Provider req)) \<noteq> [] \<and>
     TrimSpace (pf_APIKey (cq_Provider req)) \<noteq> [] \<and> oa_NewRequest_ok lib (upstreamChatCompletionsURL (pf_BaseURL (cq_Provider req)))"

definition chat_answer :: "openai_lib \<Rightarrow> ChatRequest \<Rightarrow> nat \<Rightarrow> http_answer" where
  "chat_answer lib req n = oa_Do lib (upstream_http ''application/json'' (newUpstreamRequest req) req) n"

lemma ShouldRetry_simps [simp]:
  "ShouldRetry (provider_error ''provider_error'' cause) = False" "ShouldRetry (provider_error ''usage_missing'' cause) = False"
  "ShouldRetry (provider_error ''provider_timeout'' (Some e)) = (\<not> is_canceled e)"
  "ShouldRetry (provider_error ''provider_unavailable'' (Some e)) = (\<not> is_canceled e)"
  "ShouldRetry (upstreamStatusError status) = (status = 429 \<or> 500 \<le> status)"
  by (auto simp: ShouldRetry_def provider_error_def upstreamStatusError_def)

lemma send_upstream_configured:
  assumes "configured lib req"
  shows "send_upstream lib ''application/json'' (newUpstreamRequest req) req n = (case chat_answer lib req n of
      NoAnswer timeout cause \<Rightarrow> Inl (provider_error (if timeout then ''provider_timeout'' else ''provider_unavailable'') (Some cause))
    | Answer status body ending \<Rightarrow> if status < 200 \<or> 300 \<le> status then Inl (upstreamStatusError status) else Inr (body, ending))"
  using assms by (simp add: configured_def send_upstream_def chat_answer_def)

text \<open>After a 2xx status every failure is one of the body, and final.\<close>

definition from_body :: "openai_lib \<Rightarrow> string \<Rightarrow> stream_end \<Rightarrow> nat \<Rightarrow> ChatResponse outcome" where
  "from_body lib body ending n = (case decode_body lib body ending of
      Inl e \<Rightarrow> Inl (provider_error ''provider_error'' (Some e))
    | Inr upstream \<Rightarrow> (case full_usage (ur_Usage upstream) of
        None \<Rightarrow> Inl (provider_error ''usage_missing'' None)
      | Some (p, c, t) \<Rightarrow> (case ur_Choice upstream of
          None \<Rightarrow> Inl (provider_error ''provider_error'' None)
        | Some choice \<Rightarrow> Inr \<lparr>ans_ProviderResponseID = ur_ID upstream, ans_Content = cm_Content (uc_Message choice),
            ans_Role = cm_Role (uc_Message choice), ans_FinishReason = uc_FinishReason choice,
            ans_Usage = \<lparr>ug_PromptTokens = p, ug_CompletionTokens = c, ug_TotalTokens = t\<rparr>,
            ans_LatencyMS = oa_latency_ms lib n, ans_RawUsage = raw_usage p c t\<rparr>)))"

lemma from_body_Inl: "from_body lib body ending n = Inl e \<Longrightarrow> \<not> ShouldRetry e"
  by (auto simp: from_body_def split: sum.splits option.splits)

lemma openai_Chat_configured:
  assumes "configured lib req"
  shows "openai_Chat lib req n = (case chat_answer lib req n of
      NoAnswer timeout cause \<Rightarrow> Inl (provider_error (if timeout then ''provider_timeout'' else ''provider_unavailable'') (Some cause))
    | Answer status body ending \<Rightarrow> if status < 200 \<or> 300 \<le> status then Inl (upstreamStatusError status) else from_body lib body ending n)"
proof -
  have "\<not> cq_Stream req" using assms by (simp add: configured_def)
  then show ?thesis
    by (simp add: openai_Chat_def send_upstream_configured [OF assms] from_body_def split: http_answer.split)
qed

lemma openai_Chat_Inl:
  assumes "configured lib req" and "openai_Chat lib req n = Inl e"
  shows "ShouldRetry e = transient_answer (chat_answer lib req n)"
proof (cases "chat_answer lib req n")
  case (NoAnswer timeout cause)
  then show ?thesis using assms openai_Chat_configured [OF assms(1)] by (cases timeout) auto
next
  case (Answer status body ending)
  then show ?thesis
    using assms openai_Chat_configured [OF assms(1), of n] from_body_Inl [of lib body ending n e]
    by (cases "status < 200 \<or> 300 \<le> status") auto
qed

lemma openai_Chat_Inr:
  assumes "configured lib req" and "openai_Chat lib req n = Inr answer"
  obtains status body ending where "chat_answer lib req n = Answer status body ending" "200 \<le> status" "status < 300"
  using assms openai_Chat_configured [OF assms(1), of n] by (cases "chat_answer lib req n") (auto split: if_splits)

lemma openai_failed_softly:
  assumes "configured lib req"
  shows "failed_softly (NewAdapter lib) req start i = transient_answer (chat_answer lib req (start + 2 * i))"
proof (cases "openai_Chat lib req (start + 2 * i)")
  case (Inl e)
  then show ?thesis using openai_Chat_Inl [OF assms Inl] by (simp add: failed_softly_def NewAdapter_def)
next
  case (Inr answer)
  obtain status body ending where "chat_answer lib req (start + 2 * i) = Answer status body ending" "200 \<le> status" "status < 300"
    by (rule openai_Chat_Inr [OF assms Inr])
  then show ?thesis using Inr by (simp add: failed_softly_def NewAdapter_def)
qed

text \<open>
  With this adapter the gateway repeats a request exactly as long as the upstream times out, is not reached, is
  overloaded or fails on its side: a 2xx answer, whatever its body, or any other 4xx ends the attempts.
\<close>

lemma openai_retried:
  assumes "configured lib req"
  shows "\<exists>r k w'. chatProviderWithRetry policy ctx (NewAdapter lib) req E w = (Inr (r, 1 + int k), w') \<and>
    1 + int k \<le> max_attempts policy \<and> (\<forall>i < k. transient_answer (chat_answer lib req (w_step w + 2 * i))) \<and>
    (\<not> transient_answer (chat_answer lib req (w_step w + 2 * k)) \<longrightarrow> r = openai_Chat lib req (w_step w + 2 * k))"
proof -
  obtain r k w' where run: "chatProviderWithRetry policy ctx (NewAdapter lib) req E w = (Inr (r, 1 + int k), w')" "1 + int k \<le> max_attempts policy"
    and soft: "list_all (failed_softly (NewAdapter lib) req (w_step w)) [0 ..< k]"
    and last: "case r of
       Inr response \<Rightarrow> ad_Chat (NewAdapter lib) req (w_step w + 2 * k) = Inr response
     | Inl e \<Rightarrow> (\<exists>e'. ad_Chat (NewAdapter lib) req (w_step w + 2 * k) = Inl e' \<and>
         (if 1 + int k < max_attempts policy \<and> ShouldRetry e' then ctx (Suc (w_step w + 2 * k)) = Some e else e = e'))"
    using retry_loop_run [OF max_attempts_pos [of policy], of ctx "NewAdapter lib" req Panic E w]
    by (elim exE conjE) (rule that; simp add: chatProviderWithRetry_def)
  have "r = openai_Chat lib req (w_step w + 2 * k)" if "\<not> transient_answer (chat_answer lib req (w_step w + 2 * k))"
    using last that openai_Chat_Inl [OF assms] by (auto simp: NewAdapter_def split: sum.splits)
  then show ?thesis using run soft openai_failed_softly [OF assms] by (auto simp: list_all_iff)
qed

section \<open>A stream from the provider to the client\<close>

definition payload :: "string \<Rightarrow> bool" where
  "payload p \<longleftrightarrow> p \<noteq> [] \<and> TrimSpace p = p \<and> CHR 0x0A \<notin> set p"

definition frame :: "string \<Rightarrow> string \<Rightarrow> string" where
  "frame eol p = ''data: '' @ p @ eol @ eol"

definition eols :: "string set" where "eols = {[CHR 0x0A], [CHR 0x0D, CHR 0x0A]}"

lemma wire_frame: "wire p = frame [CHR 0x0A] p"
  by (simp add: wire_def frame_def)

lemma read_one_line:
  assumes "CHR 0x0A \<notin> set l"
  shows "read_stream lib (l @ CHR 0x0A # rest) ds =
     (let line = trim_eol l in
      if line \<noteq> [] then read_stream lib rest (appendDataLine ds line)
      else if ds = [] then read_stream lib rest []
      else let event = emitData lib (join_lines ds) in
        if se_Done event then ([event], True)
        else case read_stream lib rest [] of (events, stopped) \<Rightarrow> (event # events, stopped))"
proof -
  have "takeWhile (\<lambda>c. c \<noteq> CHR 0x0A) (l @ CHR 0x0A # rest) = l" "dropWhile (\<lambda>c. c \<noteq> CHR 0x0A) (l @ CHR 0x0A # rest) = CHR 0x0A # rest"
    using assms by (induction l) auto
  then show ?thesis by (subst read_stream.simps) (simp add: Let_def)
qed

lemma TrimSpace_last: "TrimSpace p = p \<Longrightarrow> p \<noteq> [] \<Longrightarrow> \<not> is_space (last p)"
proof -
  assume p: "TrimSpace p = p" "p \<noteq> []"
  then have "rev (dropWhile is_space (rev (dropWhile is_space p))) = p" by (simp add: TrimSpace_def TrimLeft_def)
  then have "rev p = dropWhile is_space (rev (dropWhile is_space p))" by (metis rev_rev_ident)
  then have "\<not> is_space (hd (rev p))" using p(2) hd_dropWhile [of is_space "rev (dropWhile is_space p)"] by (metis rev_is_Nil_conv)
  then show ?thesis by (simp add: hd_rev)
qed

lemma TrimSpace_blank: "TrimSpace (CHR '' '' # p) = TrimSpace p"
  by (simp add: TrimSpace_def TrimLeft_def is_space_def)

lemma trim_eol_line:
  assumes "payload p" and "set cr \<subseteq> {CHR 0x0D}"
  shows "trim_eol (''data: '' @ p @ cr) = ''data: '' @ p"
proof -
  have "last p \<noteq> CHR 0x0D \<and> last p \<noteq> CHR 0x0A"
    using TrimSpace_last [of p] assms(1) by (auto simp: payload_def is_space_def)
  then have "dropWhile (\<lambda>c. c \<in> {CHR 0x0D, CHR 0x0A}) (rev p @ rev ''data: '') = rev p @ rev ''data: ''"
    using assms(1) by (cases "rev p") (auto simp: payload_def hd_rev [symmetric])
  moreover have "dropWhile (\<lambda>c. c \<in> {CHR 0x0D, CHR 0x0A}) (rev cr @ rev p @ rev ''data: '') =
      dropWhile (\<lambda>c. c \<in> {CHR 0x0D, CHR 0x0A}) (rev p @ rev ''data: '')"
    using assms(2) by (subst dropWhile_append2) auto
  ultimately show ?thesis by (simp add: trim_eol_def)
qed

lemma read_frame:
  assumes p: "payload p" and eol: "eol \<in> eols"
  shows "read_stream lib (frame eol p @ rest) [] = (let event = emitData lib p in
      if se_Done event then ([event], True)
      else case read_stream lib rest [] of (events, stopped) \<Rightarrow> (event # events, stopped))"
proof -
  obtain cr where cr: "eol = cr @ [CHR 0x0A]" "set cr \<subseteq> {CHR 0x0D}" using eol by (auto simp: eols_def)
  have "CHR 0x0A \<notin> set (''data: '' @ p @ cr)" "CHR 0x0A \<notin> set cr" using p cr(2) by (auto simp: payload_def)
  moreover have "trim_eol cr = []" using cr(2) by (auto simp: trim_eol_def)
  moreover have "appendDataLine [] (''data: '' @ p) = [p]" using p by (simp add: appendDataLine_def HasPrefix_def TrimSpace_blank payload_def)
  ultimately show ?thesis
    using read_one_line [of "''data: '' @ p @ cr" lib "cr @ CHR 0x0A # rest" "[]"] read_one_line [of cr lib rest "[p]"]
      trim_eol_line [OF p cr(2)]
    by (simp add: frame_def cr(1) Let_def)
qed

definition done_mark :: string where "done_mark = ''[DONE]''"

lemma read_frames:
  assumes "eol \<in> eols" and "list_all payload ps" and "done_mark \<notin> set ps"
  shows "read_stream lib (concat (map (frame eol) (ps @ [done_mark])) @ rest) [] = (map (emitData lib) (ps @ [done_mark]), True)"
  using assms(2,3)
proof (induction ps)
  case Nil
  have "payload done_mark" by code_simp
  then show ?case using read_frame [of done_mark eol lib rest] assms(1) by (simp add: emitData_def done_mark_def Let_def)
next
  case (Cons p ps)
  then show ?case
    using read_frame [of p eol lib "concat (map (frame eol) (ps @ [done_mark])) @ rest"] assms(1)
    by (auto simp: emitData_def done_mark_def Let_def)
qed

definition relayed :: "StreamEvent list \<Rightarrow> (string \<times> StreamUsage option) list" where
  "relayed events = map (\<lambda>e. (se_Data e, se_Usage e)) events"

definition last_usage :: "StreamUsage option list \<Rightarrow> StreamUsage option \<Rightarrow> StreamUsage option" where
  "last_usage us first = foldl (\<lambda>old u. case u of None \<Rightarrow> old | Some x \<Rightarrow> Some x) first us"

lemma pump_all: "(\<And>i. ok i) \<Longrightarrow> pump ok i evs u = (map fst evs, last_usage (map snd evs) u)"
  by (induction ok i evs u rule: pump.induct) (auto simp: last_usage_def Let_def)

text \<open>
  C32: A stream of the provider arrives at the client as it was sent. When the upstream answers with a list of one-line
  chunks as server-sent events, ended by its mark and with either kind of line ends, the gateway hands on exactly these
  chunks in their order, whatever follows the mark; reads the usage to be billed from the last chunk that states it;
  ends without an error; and a client that reads what the gateway wrote, as the gateway itself reads, sees the same
  events.
\<close>

theorem stream_relayed:
  assumes eol: "eol \<in> eols" and chunks: "list_all payload ps" "done_mark \<notin> set ps"
    and upstream: "send_upstream lib ''text/event-stream'' (newStreamingUpstreamRequest req) req n =
      Inr (concat (map (frame eol) (ps @ [done_mark])) @ junk, ending)"
  shows "\<exists>events out. openai_StreamChat lib req n = Inr (events, None) \<and> map se_Data events = ps @ [done_mark] \<and>
    pump (\<lambda>_. True) 0 (relayed events) None = (out, last_usage (map (parseStreamUsage lib) ps) None) \<and>
    openai_read lib (concat (map wire out)) ending' = (events, None)"
proof -
  let ?events = "map (emitData lib) (ps @ [done_mark])"
  have "openai_StreamChat lib req n = Inr (?events, None)"
    using read_frames [OF eol chunks, of lib junk] upstream by (simp add: openai_StreamChat_def openai_read_def)
  moreover have data: "map se_Data ?events = ps @ [done_mark]" by (simp add: emitData_def comp_def)
  moreover have "pump (\<lambda>_. True) 0 (relayed ?events) None = (ps @ [done_mark], last_usage (map (parseStreamUsage lib) ps) None)"
    by (simp add: pump_all relayed_def emitData_def comp_def last_usage_def) (simp add: parseStreamUsage_def done_mark_def)
  moreover have "openai_read lib (concat (map wire (ps @ [done_mark]))) ending' = (?events, None)"
    using read_frames [of "[CHR 0x0A]" ps lib "[]"] chunks by (simp add: openai_read_def eols_def wire_frame [abs_def])
  ultimately show ?thesis by blast
qed

definition demo_chunks :: "string list" where "demo_chunks = [''{a}'', ''{u}'']"

definition demo_openai :: openai_lib where
  "demo_openai = \<lparr>oa_Do = (\<lambda>_ _. Answer 200 (concat (map (frame [CHR 0x0D, CHR 0x0A]) (demo_chunks @ [done_mark])) @ ''x'') EndOfFile),
     oa_NewRequest_ok = (\<lambda>_. True),
     oa_Unmarshal = (\<lambda>s. if s = ''{u}'' then RawValid (JObj [(''usage'', JObj [(''prompt_tokens'', JInt 5), (''completion_tokens'', JInt 7),
       (''total_tokens'', JInt 12)])]) else RawValid (JObj [])),
     oa_Decode = (\<lambda>_. None), oa_latency_ms = (\<lambda>_. 1)\<rparr>"

definition demo_upstream :: ChatRequest where
  "demo_upstream = \<lparr>cq_RequestID = ''r'', cq_OrgID = 1, cq_Provider = \<lparr>pf_ID = 3, pf_Name = ''p'', pf_Type = ''openai_compatible'',
       pf_BaseURL = ''https://llm.example/'', pf_APIKey = ''k'', pf_TimeoutMS = 0\<rparr>,
     cq_Model = \<lparr>mf_ID = 4, mf_ProviderModelName = ''m'', mf_DisplayName = ''M''\<rparr>, cq_Messages = [], cq_Temperature = None,
     cq_MaxTokens = None, cq_Stream = True\<rparr>"

theorem stream_relayed_witness:
  "\<exists>events out usage. openai_StreamChat demo_openai demo_upstream 0 = Inr (events, None) \<and>
     pump (\<lambda>_. True) 0 (relayed events) None = (out, Some usage) \<and> su_TotalTokens usage = 12 \<and>
     openai_read demo_openai (concat (map wire out)) EndOfFile = (events, None)"
proof -
  have "[CHR 0x0D, CHR 0x0A] \<in> eols" by (simp add: eols_def)
  moreover have "list_all payload demo_chunks" "done_mark \<notin> set demo_chunks" by code_simp+
  moreover have "send_upstream demo_openai ''text/event-stream'' (newStreamingUpstreamRequest demo_upstream) demo_upstream 0 =
      Inr (concat (map (frame [CHR 0x0D, CHR 0x0A]) (demo_chunks @ [done_mark])) @ ''x'', EndOfFile)"
  proof -
    have "TrimSpace ''https://llm.example/'' \<noteq> []" "TrimSpace ''k'' \<noteq> []" by code_simp+
    then show ?thesis by (simp add: send_upstream_def demo_openai_def demo_upstream_def)
  qed
  moreover have "map_option su_TotalTokens (last_usage (map (parseStreamUsage demo_openai) demo_chunks) None) = Some 12" by code_simp
  ultimately show ?thesis
    using stream_relayed [of "[CHR 0x0D, CHR 0x0A]" demo_chunks demo_openai demo_upstream 0 "''x''" EndOfFile EndOfFile] by fastforce
qed

text \<open>
  Why the theorem asks for one-line chunks: the lines of an event are joined by newlines, and the endpoint writes only
  one field for them, so that a client loses all but the first.
\<close>

lemma multi_line_event_cut:
  "map se_Data (fst (openai_read demo_openai (''data: a'' @ [CHR 0x0A] @ ''data: b'' @ [CHR 0x0A, CHR 0x0A]) EndOfFile)) = [''a'' @ [CHR 0x0A] @ ''b'']"
  "map se_Data (fst (openai_read demo_openai (wire (''a'' @ [CHR 0x0A] @ ''b'')) EndOfFile)) = [''a'']"
  by code_simp+

end
