(* ===== verification/Spec2Isabelle.thy ===== *)
theory Spec2Isabelle
  imports Costing Reservations Strconv Secrets Netutil Budgets Alerts Metering Routing
    ContentPolicy Auth Anomaly Providers GatewayBase Gateway Requests Disclosure Sessions
    Logins RateLimit Edge Access Delivery Config Catalog Adapters
begin

text \<open>
  A verification development for the LLM cost gateway (\<^verbatim>\<open>src/\<close>), a Go service that stands between
  applications and model providers: it authenticates an API key, limits its rate, checks content,
  budgets, quotas and anomaly policies, reserves the estimated cost, routes the chat to a provider with retries and
  fallback, and records usage and cost.

  \<^bold>\<open>Parts and theories.\<close> One theory per component, in the order they build on each other.

  \<^item> \<^verbatim>\<open>Prelude\<close>: Go's integers with their wrap-around, the ASCII part of \<^verbatim>\<open>strings\<close>, UUIDs, instants (in
    microseconds), the error values, \<^verbatim>\<open>sort.SliceStable\<close> and the locale \<open>comparator\<close>.
  \<^item> \<^verbatim>\<open>Calendar\<close>: \<^verbatim>\<open>time.Date\<close>, \<^verbatim>\<open>AddDate\<close> and the day and month windows (locale \<open>period_windows\<close>).
  \<^item> \<^verbatim>\<open>Store\<close>, \<^verbatim>\<open>Queries\<close>: the tables (\<^verbatim>\<open>internal/store/sqlc/models.go\<close>), the world, calls (\<open>'a act\<close>: an
    environment decides which interaction fails, what the clock and the drawn identifiers are),
    transactions (\<^verbatim>\<open>internal/store/tx.go\<close>), the generated statements with the constraints of the schema
    in \<^verbatim>\<open>db/migrations\<close>. \<^verbatim>\<open>Samples\<close> holds the data of the witnesses.
  \<^item> \<^verbatim>\<open>Costing\<close> (\<^verbatim>\<open>internal/costing\<close>): the cost of a request and versioned prices.
  \<^item> \<^verbatim>\<open>Reservations\<close> (\<^verbatim>\<open>internal/limits\<close>): \<^verbatim>\<open>Reserve\<close>, \<^verbatim>\<open>Settle\<close>, \<^verbatim>\<open>Release\<close> on the counters of blocking limits
    (locale \<open>closing\<close>, interpreted for settling and releasing).
  \<^item> \<^verbatim>\<open>Strconv\<close>, \<^verbatim>\<open>Secrets\<close> (\<^verbatim>\<open>internal/crypto\<close>, \<^verbatim>\<open>internal/admin\<close>, the webhook secrets of \<^verbatim>\<open>internal/budget\<close>):
    versioned key rings, envelopes, re-encryption.
  \<^item> \<^verbatim>\<open>Netutil\<close> (\<^verbatim>\<open>internal/netutil\<close>): which URLs and addresses may be contacted.
  \<^item> \<^verbatim>\<open>Budgets\<close>, \<^verbatim>\<open>Alerts\<close> (\<^verbatim>\<open>internal/budget\<close>): the status of budgets and the webhooks at their thresholds.
  \<^item> \<^verbatim>\<open>Metering\<close> (\<^verbatim>\<open>internal/metering\<close>): logs, usages and costs (locales \<open>settlement\<close> and \<open>records_view\<close>).
  \<^item> \<^verbatim>\<open>Routing\<close> (\<^verbatim>\<open>internal/routing\<close>): route policies and the order of their targets.
  \<^item> \<^verbatim>\<open>ContentPolicy\<close> (\<^verbatim>\<open>internal/policy\<close>): the regular expressions of the detector under leftmost-first
    matching, the Luhn check, redaction (locale \<open>consuming\<close>, interpreted for the four patterns).
  \<^item> \<^verbatim>\<open>Auth\<close> (\<^verbatim>\<open>internal/auth\<close> without sessions): hashed credentials (locale \<open>credential_table\<close>), scopes and
    roles, quotas.
  \<^item> \<^verbatim>\<open>Anomaly\<close> (\<^verbatim>\<open>internal/anomaly\<close>): policies on cost and error rates and the decision on a request.
  \<^item> \<^verbatim>\<open>Providers\<close> (\<^verbatim>\<open>internal/provider/contract\<close>, \<^verbatim>\<open>registry.go\<close>, \<^verbatim>\<open>internal/gateway/retry_policy.go\<close>): the
    contract of an adapter and the retry loop.
  \<^item> \<^verbatim>\<open>GatewayBase\<close>, \<^verbatim>\<open>Gateway\<close> (\<^verbatim>\<open>internal/gateway\<close>): \<^verbatim>\<open>ChatService\<close>, from the decoding of the body to the
    answer; \<open>Chat\<close> is \<open>admit\<close>, \<open>route_with\<close>, \<open>from_prompt_cache\<close>, \<open>from_semantic_cache\<close>, \<open>from_provider\<close> in the order
    of the function; \<open>StreamChat\<close> and \<open>FinalizeStream\<close> are the two halves of a stream.
  \<^item> \<^verbatim>\<open>Requests\<close>, \<^verbatim>\<open>Disclosure\<close>: the theorems that span the components, over the request paths.
  \<^item> \<^verbatim>\<open>Sessions\<close>, \<^verbatim>\<open>Logins\<close> (\<^verbatim>\<open>session_service.go\<close>, \<^verbatim>\<open>magic_link_service.go\<close> of \<^verbatim>\<open>internal/auth\<close>): members, console
    sessions, one-time login links, and their histories (\<open>console_history\<close>; the locales
    \<open>session_invariant\<close>, \<open>console_invariant\<close>, \<open>link_invariant\<close> say what a predicate owes to each statement so
    that every history keeps it, with three interpretations).
  \<^item> \<^verbatim>\<open>RateLimit\<close> (\<^verbatim>\<open>internal/ratelimit\<close>): the counter per key and minute in Redis.
  \<^item> \<^verbatim>\<open>Edge\<close> (\<^verbatim>\<open>internal/http/middleware\<close>, \<^verbatim>\<open>internal/audit\<close>, \<^verbatim>\<open>internal/app/router.go\<close>, the chat handler): a
    handler maps the context of a request (record \<open>gin_context\<close>), a middleware wraps the rest of the
    chain; \<open>guarded\<close> is the chain in front of a route. \<^verbatim>\<open>Access\<close> shows who gets through, \<^verbatim>\<open>Delivery\<close> what the
    chat endpoint leaves behind.
  \<^item> \<^verbatim>\<open>Config\<close> (\<^verbatim>\<open>internal/config/config.go\<close>, key rings of \<^verbatim>\<open>internal/app/app.go\<close>): defaults, environment variables,
    validation, and what a process started from a valid configuration serves.
  \<^item> \<^verbatim>\<open>Catalog\<close> (\<^verbatim>\<open>provider_service.go\<close>, \<^verbatim>\<open>health_service.go\<close>): providers with their sealed keys, models with their
    first price, the health probe, and every history of these operations (\<open>catalog_history\<close>).
  \<^item> \<^verbatim>\<open>Adapters\<close> (\<^verbatim>\<open>internal/provider/openai_compatible\<close>, \<^verbatim>\<open>internal/provider/mock\<close>): the functions behind the records
    \<open>adapter\<close>, from the HTTP answer to the response or to the events of a stream.

  \<^bold>\<open>State and operations.\<close> The state is the record \<open>world\<close>: database, number of interactions so far,
  events, analytics records and messages sent. A Go function that returns an error is a function
  into \<open>'a act\<close>; \<open>andThen\<close> is \<^verbatim>\<open>if err != nil { return err }\<close>, \<open>attempt\<close> a call whose error the caller
  inspects or drops, \<open>with_tx\<close> a transaction with rollback. Every statement, clock reading and random
  draw is numbered, and the environment may let any statement fail; \<open>healthy\<close> environments let none.
  Statements of one transaction run without interleaving, which the row locks of the code
  (\<^verbatim>\<open>FOR UPDATE\<close>) ensure for the counters.

  \<^bold>\<open>What is shown.\<close> Reservations: admission is exact, no limit is exceeded, the counters are the sums of
  what is outstanding under any interleaving, settling charges once, closing is final. Recording is
  atomic and refines a single charge. Costs are exact up to stated truncation. Routing computes its
  reference and returns only usable targets, cheapest or fastest first. Budgets, quotas and
  anomaly policies decide as their specifications say, within stated bounds on 64-bit products.
  Secrets survive rotation; the public-only client never reaches reserved addresses. Detection is
  complete for its patterns, redaction replaces exactly what was detected. Over whole requests:
  ledger and books are invariants of \<^verbatim>\<open>Chat\<close>, \<^verbatim>\<open>StreamChat\<close> and \<^verbatim>\<open>FinalizeStream\<close> (locales \<open>logging\<close>, \<open>recording\<close>,
  \<open>request_path\<close>), an answer is billed once and an error never, no reservation is left open,
  providers see only what the content policy lets through (locale \<open>outbound\<close>), and the retry loop
  ends. At the edge: handlers run only for the credentials and permissions of their route, the
  limiter admits exactly its quota per minute, changes are audited once, links log in once, revoked
  sessions stay out, and a delivered stream with a repeated request identifier is not billed.

  \<^bold>\<open>Parameters.\<close> Code outside the repository is an argument: AES-GCM (record \<open>cipher\<close>), HMAC and SHA-256,
  \<^verbatim>\<open>net/url\<close> and the resolver (record \<open>net_lib\<close>), JSON parsing and printing of request bodies, adapters and
  caches (functions of the interaction number). Loops over lists are structural recursions; the
  retry loop and the matcher have termination proofs; nothing uses fuel.

  \<^bold>\<open>Not modelled.\<close> Metrics, traces, logs and response headers, and the clock readings only they make;
  the handlers of the console, which decode parameters and print rows; matching of paths (gin);
  Kafka, SMTP, ClickHouse and Redis clients, which are I/O behind parameters;
  floating-point similarity of the semantic cache; the reading of the configuration file, connections and the rest of start-up.
\<close>

end
